(* ===== verification/Prelude.thy ===== *)
theory Prelude
  imports Main "HOL-Library.State_Monad" "HOL-Library.Word" "HOL-Library.Char_ord"
    "HOL-Library.List_Lexorder"
begin

text \<open>
  Shared material of the development: the collections of rules the component proofs use,
  the types the Go program is written in (fixed-width integers, error values, calls that
  thread a state), and the generic facts on lists, lookups and strings that several
  components need.

  A Go function that reads or writes the cluster becomes a value of the state monad of
  \<^theory_text>\<open>HOL-Library.State_Monad\<close>; a Go call that returns \<open>(x, err)\<close> returns a sum, with
  \<open>Inl\<close> for a non-nil error; a nil pointer is \<^const>\<open>None\<close>; a Go \<open>string\<close> is a list of
  bytes, the HOL type \<^typ>\<open>string\<close>.
\<close>

named_theorems go_simps "evaluation of the stateful operations of the program"
named_theorems render_simps "field equations of the rendered objects"

type_synonym int32 = "32 word"
type_synonym int64 = "64 word"

text \<open>Go's conversion \<open>int64(x)\<close> of an \<open>int32\<close> extends the sign.\<close>

definition int64_of_int32 :: "int32 \<Rightarrow> int64" where
  "int64_of_int32 x = scast x"

lemma sint_inject [simp]: "sint (x :: 'a::len word) = sint y \<longleftrightarrow> x = y"
  by (auto intro: signed_word_eqI)

subsection \<open>Lookup in a list\<close>

lemma find_append: "List.find P (xs @ ys) =
    (case List.find P xs of None \<Rightarrow> List.find P ys | Some x \<Rightarrow> Some x)"
  by (induction xs) auto

lemma find_None_set: "List.find P xs = None \<longleftrightarrow> (\<forall>x \<in> set xs. \<not> P x)"
  by (induction xs) auto

lemma find_Some_set: "List.find P xs = Some x \<Longrightarrow> x \<in> set xs \<and> P x"
  by (induction xs) (auto split: if_splits)

lemma distinct_map_key_eq:
  "distinct (map f xs) \<Longrightarrow> x \<in> set xs \<Longrightarrow> y \<in> set xs \<Longrightarrow> f x = f y \<Longrightarrow> x = y"
  by (auto simp: distinct_map dest: inj_onD)

text \<open>Two ways to split a list at an element of a kind that occurs once in it.\<close>

lemma split_unique:
  assumes "pre @ x # post = pre' @ y # post'" and "P x"
    and "\<And>z. z \<in> set pre' \<Longrightarrow> \<not> P z" and "\<And>z. z \<in> set post' \<Longrightarrow> \<not> P z"
  shows "pre = pre' \<and> x = y"
  using assms
proof (induction pre' arbitrary: pre)
  case Nil
  then show ?case by (cases pre) auto
next
  case (Cons z pre')
  then show ?case by (cases pre) auto
qed

subsection \<open>Strings\<close>

text \<open>A prefix, or a suffix, without the separator is determined by the joined string.\<close>

lemma append_sep_inj:
  assumes "a @ c # b = a' @ c # b'" and "c \<notin> set a" and "c \<notin> set a'"
  shows "a = a' \<and> b = b'"
  using assms
proof (induction a arbitrary: a')
  case Nil
  then show ?case by (cases a') auto
next
  case (Cons x a)
  then show ?case by (cases a') auto
qed

lemma append_sep_inj_last:
  assumes "a @ c # b = a' @ c # b'" and "c \<notin> set b" and "c \<notin> set b'"
  shows "a = a' \<and> b = b'"
proof -
  from assms(1) have "rev b @ c # rev a = rev b' @ c # rev a'"
    by (metis append_Cons append_Nil append_assoc rev.simps(2) rev_append)
  then have "rev b = rev b' \<and> rev a = rev a'"
    using assms(2,3) by (intro append_sep_inj [where c = c]) auto
  then show ?thesis by simp
qed

end
