(* ===== verification/GoFmt.thy ===== *)
theory GoFmt
  imports Prelude
begin

text \<open>
  The verbs of Go's \<open>fmt.Sprintf\<close> that the operator uses: \<open>%d\<close> and \<open>%02d\<close> on integers and
  \<open>%q\<close> on strings (\<open>%s\<close> and \<open>%v\<close> of a string insert it as it is). \<open>%q\<close> is
  \<open>strconv.Quote\<close>: exact on ASCII, where every byte is either printed, named by a letter
  escape or written \<open>\x..\<close>; a byte of a multi-byte UTF-8 sequence is passed through, as
  Go does for a printable rune (Go's table of unprintable Unicode runes is not modelled, and
  no theorem depends on it). The lemmas show that decimal output is read back as the number
  it came from, so that two numbers never print alike.
\<close>

definition digit_char :: "nat \<Rightarrow> char" where
  "digit_char d = char_of (48 + d)"

fun dec_nat :: "nat \<Rightarrow> string" where
  "dec_nat n = (if n < 10 then [digit_char n] else dec_nat (n div 10) @ [digit_char (n mod 10)])"

declare dec_nat.simps [simp del]

text \<open>\<open>%d\<close>.\<close>

definition fmt_d :: "int \<Rightarrow> string" where
  "fmt_d i = (if i < 0 then CHR ''-'' # dec_nat (nat (- i)) else dec_nat (nat i))"

text \<open>
  \<open>%02d\<close>: pad with zeros to two characters. Only the one-character outputs are shorter, and
  those are the digits, so no padding ever goes between a sign and a digit.
\<close>

definition fmt_02d :: "int \<Rightarrow> string" where
  "fmt_02d i = (let s = fmt_d i in if length s < 2 then CHR ''0'' # s else s)"

definition hex_digit :: "nat \<Rightarrow> char" where
  "hex_digit d = (if d < 10 then digit_char d else char_of (87 + d))"

definition hex_byte :: "nat \<Rightarrow> string" where
  "hex_byte b = [hex_digit (b div 16), hex_digit (b mod 16)]"

definition quote_char :: "char \<Rightarrow> string" where
  "quote_char c =
     (let n = (of_char c :: nat) in
      if n = 34 then [char_of (92::nat), char_of (34::nat)]
      else if n = 92 then [char_of (92::nat), char_of (92::nat)]
      else if 32 \<le> n \<and> n < 127 \<or> 128 \<le> n then [c]
      else if n = 7 then char_of (92::nat) # ''a''
      else if n = 8 then char_of (92::nat) # ''b''
      else if n = 9 then char_of (92::nat) # ''t''
      else if n = 10 then char_of (92::nat) # ''n''
      else if n = 11 then char_of (92::nat) # ''v''
      else if n = 12 then char_of (92::nat) # ''f''
      else if n = 13 then char_of (92::nat) # ''r''
      else char_of (92::nat) # ''x'' @ hex_byte n)"

definition fmt_q :: "string \<Rightarrow> string" where
  "fmt_q s = char_of (34::nat) # concat (map quote_char s) @ [char_of (34::nat)]"

subsection \<open>Reading decimal output back\<close>

definition char_digit :: "char \<Rightarrow> nat" where
  "char_digit c = of_char c - 48"

definition read_nat :: "string \<Rightarrow> nat" where
  "read_nat s = foldl (\<lambda>n c. 10 * n + char_digit c) 0 s"

definition is_digit :: "char \<Rightarrow> bool" where
  "is_digit c \<longleftrightarrow> 48 \<le> (of_char c :: nat) \<and> (of_char c :: nat) \<le> 57"

lemma digit_chars [simp]:
  "digit_char 0 = CHR ''0''" "digit_char 1 = CHR ''1''" "digit_char (Suc 0) = CHR ''1''"
  "digit_char 2 = CHR ''2''" "digit_char 3 = CHR ''3''" "digit_char 4 = CHR ''4''"
  "digit_char 5 = CHR ''5''" "digit_char 6 = CHR ''6''" "digit_char 7 = CHR ''7''"
  "digit_char 8 = CHR ''8''" "digit_char 9 = CHR ''9''"
  by (simp_all add: digit_char_def char_of_def bit_Suc_0_iff)

lemma of_digit_char: "d < 10 \<Longrightarrow> (of_char (digit_char d) :: nat) = 48 + d"
  by (simp add: digit_char_def)

lemma char_digit_digit_char [simp]: "d < 10 \<Longrightarrow> char_digit (digit_char d) = d"
  by (simp add: char_digit_def of_digit_char)

lemma is_digit_digit_char [simp]: "d < 10 \<Longrightarrow> is_digit (digit_char d)"
  by (simp add: is_digit_def of_digit_char)

lemma read_nat_append_digit: "read_nat (s @ [c]) = 10 * read_nat s + char_digit c"
  by (simp add: read_nat_def)

lemma read_dec_nat [simp]: "read_nat (dec_nat n) = n"
proof (induction n rule: dec_nat.induct)
  case (1 n)
  show ?case
  proof (cases "n < 10")
    case True
    then show ?thesis by (subst dec_nat.simps) (simp add: read_nat_def)
  next
    case False
    then show ?thesis
      using "1.IH" by (subst dec_nat.simps) (simp add: read_nat_append_digit)
  qed
qed

lemma dec_nat_digits: "\<forall>c \<in> set (dec_nat n). is_digit c"
proof (induction n rule: dec_nat.induct)
  case (1 n)
  then show ?case by (subst dec_nat.simps) auto
qed

lemma dec_nat_nonempty [simp]: "dec_nat n \<noteq> []"
  by (subst dec_nat.simps) simp

lemma dec_nat_inject [simp]: "dec_nat m = dec_nat n \<longleftrightarrow> m = n"
  by (metis read_dec_nat)

lemma minus_not_digit: "\<not> is_digit (CHR ''-'')"
  by (simp add: is_digit_def)

lemma minus_notin_dec_nat: "CHR ''-'' \<notin> set (dec_nat n)"
  using dec_nat_digits minus_not_digit by blast

lemma fmt_d_inject [simp]: "fmt_d i = fmt_d j \<longleftrightarrow> i = j"
proof
  assume eq: "fmt_d i = fmt_d j"
  have sign: "i < 0 \<longleftrightarrow> CHR ''-'' \<in> set (fmt_d i)" for i
    by (auto simp: fmt_d_def minus_notin_dec_nat)
  with eq have "i < 0 \<longleftrightarrow> j < 0" by metis
  with eq show "i = j" by (auto simp: fmt_d_def split: if_splits)
qed simp

lemma fmt_d_nonempty [simp]: "fmt_d i \<noteq> []"
  by (simp add: fmt_d_def)

lemma length_dec_nat_1: "length (dec_nat n) = Suc 0 \<longleftrightarrow> n < 10"
  by (subst dec_nat.simps) auto

lemma length_dec_nat_2: "10 \<le> n \<Longrightarrow> n < 100 \<Longrightarrow> length (dec_nat n) = 2"
  by (subst dec_nat.simps) (simp add: length_dec_nat_1)

lemma length_dec_nat_ge_3: "100 \<le> n \<Longrightarrow> 3 \<le> length (dec_nat n)"
proof -
  assume n: "100 \<le> n"
  then have "length (dec_nat (n div 10)) \<noteq> Suc 0" and "length (dec_nat (n div 10)) \<noteq> 0"
    by (simp_all add: length_dec_nat_1)
  then have "2 \<le> length (dec_nat (n div 10))" by linarith
  moreover from n have "dec_nat n = dec_nat (n div 10) @ [digit_char (n mod 10)]"
    by (subst dec_nat.simps) simp
  ultimately show ?thesis by simp
qed

text \<open>Two digits exactly for the numbers a percentage can have.\<close>

lemma length_fmt_02d:
  assumes "0 \<le> i" and "i < 100"
  shows "length (fmt_02d i) = 2"
proof (cases "nat i < 10")
  case True
  then have "length (dec_nat (nat i)) = Suc 0" by (simp add: length_dec_nat_1)
  with assms show ?thesis by (simp add: fmt_02d_def fmt_d_def Let_def)
next
  case False
  with assms have "length (dec_nat (nat i)) = 2" by (intro length_dec_nat_2) auto
  with assms show ?thesis by (simp add: fmt_02d_def fmt_d_def Let_def)
qed

lemma read_fmt_02d: "0 \<le> i \<Longrightarrow> read_nat (fmt_02d i) = nat i"
proof -
  assume "0 \<le> i"
  moreover have "read_nat (CHR ''0'' # s) = read_nat s" for s
    by (simp add: read_nat_def char_digit_def)
  ultimately show ?thesis by (simp add: fmt_02d_def fmt_d_def Let_def)
qed

lemma fmt_02d_neg: "i < 0 \<Longrightarrow> fmt_02d i = fmt_d i"
  by (simp add: fmt_02d_def fmt_d_def Let_def)

lemma minus_in_fmt_02d: "CHR ''-'' \<in> set (fmt_02d i) \<longleftrightarrow> i < 0"
proof (cases "i < 0")
  case True
  then show ?thesis by (simp add: fmt_02d_neg) (simp add: fmt_d_def)
next
  case False
  then show ?thesis by (simp add: fmt_02d_def fmt_d_def Let_def minus_notin_dec_nat)
qed

lemma fmt_02d_inject [simp]: "fmt_02d i = fmt_02d j \<longleftrightarrow> i = j"
proof
  assume eq: "fmt_02d i = fmt_02d j"
  with minus_in_fmt_02d have sign: "i < 0 \<longleftrightarrow> j < 0" by metis
  show "i = j"
  proof (cases "i < 0")
    case True
    with eq sign show ?thesis by (simp add: fmt_02d_neg)
  next
    case False
    with sign have "nat i = nat j"
      using arg_cong [OF eq, of read_nat] by (simp add: read_fmt_02d)
    with False sign show ?thesis by simp
  qed
qed simp

end
