(* ===== verification/Base64.thy ===== *)
theory Base64
  imports GoFmt
begin

text \<open>
  \<open>encoding/base64\<close> of the Go standard library, as far as the operator uses it:
  \<open>base64.StdEncoding.DecodeString\<close> (the padded standard alphabet, not strict about trailing
  bits, newlines skipped), with the byte offset that Go reports in \<open>CorruptInputError\<close>. Go's
  \<open>Decode\<close> loop and the loop of \<open>decodeQuantum\<close> are one recursion over the remaining
  input here: \<open>dbuf\<close> holds the six-bit values of the quantum being read, \<open>out\<close> the bytes
  written so far, \<open>si\<close> the index of the next input byte. The encoder is the inverse the
  \<open>base64\<close> tool of the build script applies; the round trip shows that the decoder
  accepts exactly what it is meant to accept.
\<close>

type_synonym byte = "8 word"

definition b64_value :: "char \<Rightarrow> nat option" where
  "b64_value c =
     (let n = (of_char c :: nat) in
      if 65 \<le> n \<and> n \<le> 90 then Some (n - 65)
      else if 97 \<le> n \<and> n \<le> 122 then Some (n - 71)
      else if 48 \<le> n \<and> n \<le> 57 then Some (n + 4)
      else if n = 43 then Some 62
      else if n = 47 then Some 63
      else None)"

definition b64_char :: "nat \<Rightarrow> char" where
  "b64_char v =
     (if v < 26 then char_of (65 + v)
      else if v < 52 then char_of (71 + v)
      else if v < 62 then char_of (v - 4)
      else if v = 62 then CHR ''+'' else CHR ''/'')"

definition is_newline :: "char \<Rightarrow> bool" where
  "is_newline c \<longleftrightarrow> (of_char c :: nat) = 10 \<or> (of_char c :: nat) = 13"

text \<open>
  The three bytes of a quantum whose four values are given; values below 64 do not overlap,
  so Go's shifts and ORs are the sum. Missing values are zero, and Go keeps one byte
  fewer than it has values.
\<close>

fun quad_bytes :: "nat list \<Rightarrow> byte list" where
  "quad_bytes [p, q] = [of_nat ((p * 64 + q) div 16)]"
| "quad_bytes [p, q, r] =
     (let v = (p * 64 + q) * 64 + r in [of_nat (v div 1024), of_nat (v div 4 mod 256)])"
| "quad_bytes [p, q, r, s] =
     (let v = ((p * 64 + q) * 64 + r) * 64 + s
      in [of_nat (v div 65536), of_nat (v div 256 mod 256), of_nat (v mod 256)])"
| "quad_bytes _ = []"

text \<open>
  What follows a padding character, \<open>si\<close> being the index after it: with two values a
  second one must come next, and after the padding nothing but newlines may come. The number
  on the left is the offset of the error; \<open>len\<close> is the length of the whole input.
\<close>

fun skip_newlines :: "string \<Rightarrow> nat \<Rightarrow> string \<times> nat" where
  "skip_newlines [] si = ([], si)"
| "skip_newlines (c # cs) si = (if is_newline c then skip_newlines cs (Suc si) else (c # cs, si))"

definition finish_padding :: "string \<Rightarrow> nat \<Rightarrow> nat list \<Rightarrow> byte list \<Rightarrow> nat + byte list" where
  "finish_padding src si dbuf out =
     (case skip_newlines src si of
        ([], _) \<Rightarrow> Inr (out @ quad_bytes dbuf)
      | (_ # _, si') \<Rightarrow> Inl si')"

definition decode_padding ::
    "nat \<Rightarrow> string \<Rightarrow> nat \<Rightarrow> nat list \<Rightarrow> byte list \<Rightarrow> nat + byte list" where
  "decode_padding len src si dbuf out =
     (if length dbuf < 2 then Inl (si - 1)
      else if length dbuf = 2 then
        (case skip_newlines src si of
           ([], _) \<Rightarrow> Inl len
         | (c # rest, si') \<Rightarrow>
             if c = CHR ''='' then finish_padding rest (Suc si') dbuf out else Inl (si' - 1))
      else finish_padding src si dbuf out)"

fun decode_loop ::
    "nat \<Rightarrow> string \<Rightarrow> nat \<Rightarrow> nat list \<Rightarrow> byte list \<Rightarrow> nat + byte list" where
  "decode_loop len [] si dbuf out =
     (if dbuf = [] then Inr out else Inl (si - length dbuf))"
| "decode_loop len (c # src) si dbuf out =
     (case b64_value c of
        Some v \<Rightarrow>
          (if length dbuf = 3 then decode_loop len src (Suc si) [] (out @ quad_bytes (dbuf @ [v]))
           else decode_loop len src (Suc si) (dbuf @ [v]) out)
      | None \<Rightarrow>
          (if is_newline c then decode_loop len src (Suc si) dbuf out
           else if c \<noteq> CHR ''='' then Inl si
           else decode_padding len src (Suc si) dbuf out))"

definition DecodeString :: "string \<Rightarrow> nat + byte list" where
  "DecodeString s = decode_loop (length s) s 0 [] []"

text \<open>The text of \<open>CorruptInputError\<close>.\<close>

definition corrupt_input_text :: "nat \<Rightarrow> string" where
  "corrupt_input_text n = ''illegal base64 data at input byte '' @ fmt_d (int n)"

subsection \<open>The encoder and the round trip\<close>

fun b64_encode :: "byte list \<Rightarrow> string" where
  "b64_encode [] = []"
| "b64_encode [a] =
     [b64_char (unat a div 4), b64_char (unat a mod 4 * 16), CHR ''='', CHR ''='']"
| "b64_encode [a, b] =
     [b64_char (unat a div 4), b64_char (unat a mod 4 * 16 + unat b div 16),
      b64_char (unat b mod 16 * 4), CHR ''='']"
| "b64_encode (a # b # c # bs) =
     b64_char (unat a div 4) # b64_char (unat a mod 4 * 16 + unat b div 16)
     # b64_char (unat b mod 16 * 4 + unat c div 64) # b64_char (unat c mod 64) # b64_encode bs"

lemma b64_value_char [simp]: "v < 64 \<Longrightarrow> b64_value (b64_char v) = Some v"
  by (auto simp: b64_value_def b64_char_def Let_def)

lemma b64_value_eq [simp]: "b64_value (CHR ''='') = None"
  by (simp add: b64_value_def)

lemma not_newline_eq [simp]: "\<not> is_newline (CHR ''='')"
  by (simp add: is_newline_def)

lemma unat_byte [simp]: "unat (a :: byte) < 256"
  using unsigned_less [of a, where ?'a = nat] by simp

lemma sextets:
  fixes a b c :: nat
  assumes "a < 256" and "b < 256" and "c < 256"
  shows "a div 4 < 64" and "a mod 4 * 16 < 64" and "a mod 4 * 16 + b div 16 < 64"
    and "b mod 16 * 4 < 64" and "b mod 16 * 4 + c div 64 < 64"
proof -
  from assms have "a div 4 < 64" "b div 16 < 16" "c div 64 < 4"
    by (simp_all add: less_mult_imp_div_less)
  moreover have "a mod 4 < 4" "b mod 16 < 16" by simp_all
  ultimately show "a div 4 < 64" "a mod 4 * 16 < 64" "a mod 4 * 16 + b div 16 < 64"
      "b mod 16 * 4 < 64" "b mod 16 * 4 + c div 64 < 64"
    by linarith+
qed

lemmas byte_sextets [simp] = sextets [OF unat_byte unat_byte unat_byte]

lemma quad_bytes_encode1 [simp]:
  "quad_bytes [unat (a :: byte) div 4, unat a mod 4 * 16] = [a]"
proof -
  have "unat a div 4 * 64 + unat a mod 4 * 16 = unat a * 16"
    using div_mult_mod_eq [of "unat a" 4] by linarith
  then show ?thesis by simp
qed

lemma regroup2:
  fixes a b q r s t :: nat
  assumes "q * 4 + r = a" and "s * 16 + t = b"
  shows "(q * 64 + (r * 16 + s)) * 64 + t * 4 = b * 4 + 1024 * a"
  by (simp add: assms [symmetric] algebra_simps)

lemma regroup3:
  fixes a b c q r s t u v :: nat
  assumes "q * 4 + r = a" and "s * 16 + t = b" and "u * 64 + v = c"
  shows "((q * 64 + (r * 16 + s)) * 64 + (t * 4 + u)) * 64 + v = (c + 256 * b) + 65536 * a"
  by (simp add: assms [symmetric] algebra_simps)

lemma quad_bytes_encode2 [simp]:
  "quad_bytes [unat (a :: byte) div 4, unat a mod 4 * 16 + unat (b :: byte) div 16,
     unat b mod 16 * 4] = [a, b]"
proof -
  let ?v = "(unat a div 4 * 64 + (unat a mod 4 * 16 + unat b div 16)) * 64 + unat b mod 16 * 4"
  have v: "?v = unat b * 4 + 1024 * unat a"
    by (rule regroup2) (rule div_mult_mod_eq)+
  have "?v div 1024 = unat a" unfolding v by (subst div_mult_self2) simp_all
  moreover have "?v div 4 = unat b + 256 * unat a" unfolding v by simp
  ultimately show ?thesis by (simp only: quad_bytes.simps Let_def) simp
qed

lemma quad_bytes_encode3 [simp]:
  "quad_bytes [unat (a :: byte) div 4, unat a mod 4 * 16 + unat (b :: byte) div 16,
     unat b mod 16 * 4 + unat (c :: byte) div 64, unat c mod 64] = [a, b, c]"
proof -
  let ?v = "((unat a div 4 * 64 + (unat a mod 4 * 16 + unat b div 16)) * 64
     + (unat b mod 16 * 4 + unat c div 64)) * 64 + unat c mod 64"
  have v: "?v = (unat c + 256 * unat b) + 65536 * unat a"
    by (rule regroup3) (rule div_mult_mod_eq)+
  have "unat c + 256 * unat b < 65536" using unat_byte [of b] unat_byte [of c] by linarith
  then have "?v div 65536 = unat a" unfolding v by (subst div_mult_self2) simp_all
  moreover have "?v = unat c + 256 * (unat b + 256 * unat a)"
    unfolding v by simp
  then have "?v div 256 = unat b + 256 * unat a" and "?v mod 256 = unat c"
    by (simp_all only: div_mult_self2 mod_mult_self2) simp_all
  ultimately show ?thesis by (simp only: quad_bytes.simps Let_def) simp
qed

lemma decode_loop_encode: "decode_loop len (b64_encode bs) si [] out = Inr (out @ bs)"
proof (induction bs arbitrary: si out rule: b64_encode.induct)
  case (4 a b c bs)
  then show ?case by (simp del: quad_bytes.simps)
qed (simp_all del: quad_bytes.simps add: decode_padding_def finish_padding_def)

theorem DecodeString_encode: "DecodeString (b64_encode bs) = Inr bs"
  by (simp add: DecodeString_def decode_loop_encode)

subsection \<open>Offsets of errors lie in the input\<close>

lemma skip_newlines_bound:
  "skip_newlines src si = (rest, si') \<Longrightarrow> si' + length rest = si + length src"
  by (induction src si rule: skip_newlines.induct) (auto split: if_splits)

lemma finish_padding_bound:
  "finish_padding src si dbuf out = Inl n \<Longrightarrow> n \<le> si + length src"
  by (auto simp: finish_padding_def split: prod.splits list.splits dest: skip_newlines_bound)

lemma decode_padding_bound:
  assumes "decode_padding len src si dbuf out = Inl n" and "si + length src \<le> len"
  shows "n \<le> len"
proof (cases "skip_newlines src si")
  case (Pair rest si')
  note b = skip_newlines_bound [OF Pair]
  show ?thesis
  proof (cases rest)
    case Nil
    with assms Pair b show ?thesis
      by (auto simp: decode_padding_def finish_padding_def split: if_splits)
  next
    case (Cons c cs)
    with assms Pair b finish_padding_bound [of cs "Suc si'" dbuf out n]
    show ?thesis by (auto simp: decode_padding_def dest: finish_padding_bound split: if_splits)
  qed
qed

lemma decode_loop_bound:
  "decode_loop len src si dbuf out = Inl n \<Longrightarrow> si + length src \<le> len \<Longrightarrow> n \<le> len"
proof (induction len src si dbuf out rule: decode_loop.induct)
  case (2 len c src si dbuf out)
  then show ?case
    by (auto split: option.splits if_splits dest: decode_padding_bound)
qed (auto split: if_splits)

lemma DecodeString_offset: "DecodeString s = Inl n \<Longrightarrow> n \<le> length s"
  unfolding DecodeString_def by (erule decode_loop_bound) simp

end
