(* ===== verification/KubeTypes.thy ===== *)
theory KubeTypes
  imports Sha256
begin

text \<open>
  The Kubernetes API objects the operator reads and writes (packages \<open>k8s.io/api\<close> and
  \<open>k8s.io/apimachinery\<close>), as data only: each record has the fields the operator sets or
  reads, under the names of the Go structs with a prefix for the struct; a field the program
  neither sets nor reads is left out. A pointer field is an \<open>option\<close>, a Go map is a
  partial map. No behaviour of the Kubernetes libraries is defined here: their functions
  are parameters of the program (theory \<open>Client\<close>).
\<close>

text \<open>An instant (\<open>metav1.Time\<close>); the program only compares two of them.\<close>

type_synonym Time = int

text \<open>
  A \<open>resource.Quantity\<close> is the term that builds it: the program passes quantities through
  unread and builds two itself, \<open>resource.NewQuantity(n, resource.DecimalSI)\<close> and
  \<open>resource.MustParse(s)\<close>; the quantities of a decoded object were parsed from a string.
\<close>

datatype Quantity = NewQuantity int64 | ParseQuantity string

record NamespacedName =
  nn_Namespace :: string
  nn_Name :: string

record TypeMeta =
  tm_APIVersion :: string
  tm_Kind :: string

record OwnerReference =
  or_Kind :: string
  or_Name :: string
  or_UID :: string
  or_Controller :: bool

record ObjectMeta =
  om_Name :: string
  om_Namespace :: string
  om_UID :: string
  om_Generation :: int64
  om_CreationTimestamp :: Time
  om_Labels :: "string \<rightharpoonup> string"
  om_Annotations :: "string \<rightharpoonup> string"
  om_OwnerReferences :: "OwnerReference list"

text \<open>The zero values of the two metadata structs, from which the literals of the code start.\<close>

definition zero_TypeMeta :: TypeMeta where
  "zero_TypeMeta = \<lparr>tm_APIVersion = [], tm_Kind = []\<rparr>"

definition zero_ObjectMeta :: ObjectMeta where
  "zero_ObjectMeta =
     \<lparr>om_Name = [], om_Namespace = [], om_UID = [], om_Generation = 0,
      om_CreationTimestamp = 0, om_Labels = Map.empty, om_Annotations = Map.empty,
      om_OwnerReferences = []\<rparr>"

text \<open>
  A status condition (\<open>metav1.Condition\<close>). Its \<open>LastTransitionTime\<close> is chosen by
  \<open>meta.SetStatusCondition\<close> and never set or read by the program.
\<close>

record Condition =
  c_Type :: string
  c_Status :: string
  c_Reason :: string
  c_Message :: string
  c_ObservedGeneration :: int64

definition ConditionTrue :: string where "ConditionTrue = ''True''"
definition ConditionFalse :: string where "ConditionFalse = ''False''"

text \<open>The condition of a type in a condition list (\<open>meta.FindStatusCondition\<close>).\<close>

definition findCondition :: "Condition list \<Rightarrow> string \<Rightarrow> Condition option" where
  "findCondition cs t = List.find (\<lambda>c. c_Type c = t) cs"

subsection \<open>Pods\<close>

record SecretKeySelector =
  sks_Name :: string
  sks_Key :: string

record EnvVar =
  ev_Name :: string
  ev_Value :: string
  ev_ValueFrom :: "SecretKeySelector option"

record EmptyDirVolumeSource =
  ed_Medium :: string
  ed_SizeLimit :: "Quantity option"

record Volume =
  v_Name :: string
  v_EmptyDir :: "EmptyDirVolumeSource option"
  v_ConfigMap :: "string option"
  v_PersistentVolumeClaim :: "string option"

record VolumeMount =
  vm_Name :: string
  vm_MountPath :: string
  vm_SubPath :: string

record VolumeDevice =
  vd_Name :: string
  vd_DevicePath :: string

record ResourceRequirements =
  rr_Limits :: "string \<rightharpoonup> Quantity"
  rr_Requests :: "string \<rightharpoonup> Quantity"

record Probe =
  p_HTTPGetPath :: string
  p_HTTPGetPort :: int32
  p_InitialDelaySeconds :: int32
  p_PeriodSeconds :: int32
  p_FailureThreshold :: int32

record Container =
  co_Name :: string
  co_Image :: string
  co_Args :: "string list"
  co_Ports :: "int32 list"
  co_Env :: "EnvVar list"
  co_Resources :: ResourceRequirements
  co_VolumeMounts :: "VolumeMount list"
  co_VolumeDevices :: "VolumeDevice list"
  co_ReadinessProbe :: "Probe option"

record PodSpec =
  ps_RuntimeClassName :: "string option"
  ps_Containers :: "Container list"
  ps_Volumes :: "Volume list"

record Pod =
  pod_Meta :: ObjectMeta
  pod_Spec :: PodSpec

subsection \<open>Workload objects\<close>

record PodTemplateSpec =
  pt_Labels :: "string \<rightharpoonup> string"
  pt_Annotations :: "string \<rightharpoonup> string"
  pt_Spec :: PodSpec

record DeploymentSpec =
  ds_Replicas :: "int32 option"
  ds_StrategyType :: string
  ds_Selector :: "string \<rightharpoonup> string"
  ds_Template :: PodTemplateSpec

record DeploymentCondition =
  dc_Type :: string
  dc_Status :: string

record Deployment =
  d_TypeMeta :: TypeMeta
  d_Meta :: ObjectMeta
  d_Spec :: DeploymentSpec
  d_StatusConditions :: "DeploymentCondition list"

record ServicePort =
  sp_Port :: int32
  sp_TargetPort :: int32

record Service =
  svc_TypeMeta :: TypeMeta
  svc_Meta :: ObjectMeta
  svc_Selector :: "string \<rightharpoonup> string"
  svc_Ports :: "ServicePort list"

record ConfigMap =
  cm_TypeMeta :: TypeMeta
  cm_Meta :: ObjectMeta
  cm_Data :: "string \<rightharpoonup> string"

record Secret =
  sec_Meta :: ObjectMeta
  sec_Data :: "string \<rightharpoonup> byte list"

definition meta_key :: "ObjectMeta \<Rightarrow> NamespacedName" where
  "meta_key m = \<lparr>nn_Namespace = om_Namespace m, nn_Name = om_Name m\<rparr>"

lemma meta_key_sel [simp]:
  "nn_Namespace (meta_key m) = om_Namespace m" "nn_Name (meta_key m) = om_Name m"
  by (simp_all add: meta_key_def)

lemma meta_key_eq: "meta_key m = meta_key m' \<longleftrightarrow>
    om_Namespace m = om_Namespace m' \<and> om_Name m = om_Name m'"
  by (simp add: meta_key_def)

end
