(* ===== verification/ApiTypes.thy ===== *)
theory ApiTypes
  imports KubeTypes
begin

text \<open>
  The custom resources of \<open>operator/api/v1alpha1\<close>: \<open>InferenceService\<close>, \<open>BrukModel\<close> and
  \<open>BrukTenant\<close>, one record per Go struct, the condition types and reasons, and the methods of
  the types. A pointer is an \<open>option\<close>; a string field with \<open>omitempty\<close> that is absent is the
  empty string. The validation markers of the fields (\<open>+kubebuilder:validation\<close>) are in the
  theory \<open>Admission\<close>.
\<close>

subsection \<open>\<open>common_types.go\<close>\<close>

record LocalRef =
  lr_Name :: string

record SecretKeyRef =
  skr_Name :: string
  skr_Key :: string

record ResourcePair =
  rp_Limit :: Quantity
  rp_Request :: "Quantity option"

record EndpointStatus =
  ep_URL :: string

subsection \<open>\<open>inferenceservice_types.go\<close>\<close>

definition ConditionConfigured :: string where "ConditionConfigured = ''Configured''"
definition ConditionWorkloadAvailable :: string where
  "ConditionWorkloadAvailable = ''WorkloadAvailable''"
definition ConditionReady :: string where "ConditionReady = ''Ready''"
definition ConditionProgressing :: string where "ConditionProgressing = ''Progressing''"

definition ReasonWorkloadReady :: string where "ReasonWorkloadReady = ''WorkloadReady''"
definition ReasonWorkloadPending :: string where "ReasonWorkloadPending = ''WorkloadPending''"
definition ReasonConfigured :: string where "ReasonConfigured = ''Configured''"
definition ReasonDeploying :: string where "ReasonDeploying = ''Deploying''"
definition ReasonModelNotFound :: string where "ReasonModelNotFound = ''ModelNotFound''"
definition ReasonTenantConfigMissing :: string where
  "ReasonTenantConfigMissing = ''TenantConfigMissing''"
definition ReasonTrustedStoreConflict :: string where
  "ReasonTrustedStoreConflict = ''TrustedStoreConflict''"
definition ReasonInvalidConfig :: string where "ReasonInvalidConfig = ''InvalidConfig''"
definition ReasonNotImplemented :: string where "ReasonNotImplemented = ''NotImplemented''"

lemmas condition_type_defs = ConditionConfigured_def ConditionWorkloadAvailable_def
  ConditionReady_def ConditionProgressing_def

lemmas reason_defs = ReasonWorkloadReady_def ReasonWorkloadPending_def ReasonConfigured_def
  ReasonDeploying_def ReasonModelNotFound_def ReasonTenantConfigMissing_def
  ReasonTrustedStoreConflict_def ReasonInvalidConfig_def ReasonNotImplemented_def

record EngineSpec =
  es_Quantization :: string
  es_MaxModelLen :: int32
  es_GPUMemoryUtilizationPercent :: int32

record WorkloadResources =
  wr_GPUs :: int32
  wr_Memory :: ResourcePair
  wr_CPU :: ResourcePair

record LocalVolumeSpec =
  lv_LVName :: string
  lv_Size :: Quantity

record TrustedStoreSpec =
  ts_ExistingClaim :: string
  ts_LocalVolume :: "LocalVolumeSpec option"

record WeightsCacheSpec =
  wc_SizeLimit :: "Quantity option"

record StorageSpec =
  st_TrustedStore :: TrustedStoreSpec
  st_WeightsCache :: "WeightsCacheSpec option"

record ProbeOverrides =
  po_ReadinessFailureThreshold :: "int32 option"

record InferenceServiceSpec =
  iss_ModelRef :: LocalRef
  iss_Engine :: EngineSpec
  iss_Resources :: WorkloadResources
  iss_Storage :: StorageSpec
  iss_Probes :: "ProbeOverrides option"

record InferenceServiceStatus =
  ist_ObservedGeneration :: int64
  ist_Conditions :: "Condition list"
  ist_Endpoint :: "EndpointStatus option"
  ist_ServedModelName :: string
  ist_ResolvedImage :: string
  ist_AppliedInitDataHash :: string

record InferenceService =
  is_Meta :: ObjectMeta
  is_Spec :: InferenceServiceSpec
  is_Status :: InferenceServiceStatus

subsection \<open>\<open>brukmodel_types.go\<close>\<close>

type_synonym Modality = string
type_synonym ModelFeature = string

definition ModalityText :: Modality where "ModalityText = ''text''"
definition ModalityImage :: Modality where "ModalityImage = ''image''"
definition FeatureToolCalling :: ModelFeature where "FeatureToolCalling = ''tool-calling''"
definition FeatureStructuredOutput :: ModelFeature where
  "FeatureStructuredOutput = ''structured-output''"

record HuggingFaceSource =
  hf_Repo :: string
  hf_Revision :: string
  hf_TokenSecretRef :: "SecretKeyRef option"

record ModelSource =
  ms_HuggingFace :: "HuggingFaceSource option"

record PricingSpec =
  pr_PromptPerMTokens :: string
  pr_CompletionPerMTokens :: string
  pr_Currency :: string

record CatalogSpec =
  cat_DisplayName :: string
  cat_Description :: string
  cat_ContextLength :: int32
  cat_InputModalities :: "Modality list"
  cat_OutputModalities :: "Modality list"
  cat_Features :: "ModelFeature list"
  cat_License :: string
  cat_Pricing :: "PricingSpec option"

record BrukModelSpec =
  bms_Source :: ModelSource
  bms_ServedName :: string
  bms_Catalog :: CatalogSpec

record BrukModelStatus =
  bmst_ObservedGeneration :: int64
  bmst_Conditions :: "Condition list"

record BrukModel =
  bm_Meta :: ObjectMeta
  bm_Spec :: BrukModelSpec
  bm_Status :: BrukModelStatus

definition ServedModelName :: "BrukModel \<Rightarrow> string" where
  "ServedModelName m =
     (if bms_ServedName (bm_Spec m) \<noteq> [] then bms_ServedName (bm_Spec m) else om_Name (bm_Meta m))"

subsection \<open>\<open>bruktenant_types.go\<close>\<close>

definition BrukTenantName :: string where "BrukTenantName = ''cluster''"
definition ReasonValid :: string where "ReasonValid = ''Valid''"
definition ReasonTokenSecretMissing :: string where "ReasonTokenSecretMissing = ''TokenSecretMissing''"
definition ReasonUnpinnedRevision :: string where "ReasonUnpinnedRevision = ''UnpinnedRevision''"

record InfrastructureConfig =
  ic_NodeHostname :: string
  ic_StorageVolumeGroup :: string

record EngineDefaults =
  ed_DefaultImage :: string

record ConfidentialConfig =
  cc_InitDataB64 :: string

record BrukTenantSpec =
  bts_TenantID :: string
  bts_DisplayName :: string
  bts_Infrastructure :: InfrastructureConfig
  bts_Engine :: EngineDefaults
  bts_Confidential :: ConfidentialConfig

record BrukTenantStatus =
  btst_ObservedGeneration :: int64
  btst_Conditions :: "Condition list"
  btst_AppliedInitDataHash :: string

record BrukTenant =
  bt_Meta :: ObjectMeta
  bt_Spec :: BrukTenantSpec
  bt_Status :: BrukTenantStatus

abbreviation isvc_Name :: "InferenceService \<Rightarrow> string" where
  "isvc_Name i \<equiv> om_Name (is_Meta i)"

abbreviation isvc_Namespace :: "InferenceService \<Rightarrow> string" where
  "isvc_Namespace i \<equiv> om_Namespace (is_Meta i)"

abbreviation isvc_Claim :: "InferenceService \<Rightarrow> string" where
  "isvc_Claim i \<equiv> ts_ExistingClaim (st_TrustedStore (iss_Storage (is_Spec i)))"

abbreviation isvc_WeightsCache :: "InferenceService \<Rightarrow> WeightsCacheSpec option" where
  "isvc_WeightsCache i \<equiv> st_WeightsCache (iss_Storage (is_Spec i))"

abbreviation isvc_LocalVolume :: "InferenceService \<Rightarrow> LocalVolumeSpec option" where
  "isvc_LocalVolume i \<equiv> ts_LocalVolume (st_TrustedStore (iss_Storage (is_Spec i)))"

abbreviation model_HuggingFace :: "BrukModel \<Rightarrow> HuggingFaceSource option" where
  "model_HuggingFace m \<equiv> ms_HuggingFace (bms_Source (bm_Spec m))"

end
