(* ===== verification/Render.thy ===== *)
theory Render
  imports ApiTypes "HOL-Library.Monad_Syntax"
begin

text \<open>
  Package \<open>internal/render\<close>: the pure functions that turn an \<open>InferenceService\<close>, its
  \<open>BrukModel\<close> and the cluster's configuration into the confidential vLLM workload. A
  function that dereferences a pointer returns an \<open>option\<close>, \<^const>\<open>None\<close> being the
  run-time panic of a nil dereference; an error return is \<^const>\<open>Inl\<close>. The lemmas show that
  rendering never panics, when it fails and with which message, and what a rendered object
  holds.
\<close>

text \<open>
  Go error values: what a call to the API server returned, an error built by the program,
  and an error wrapped with a context.
\<close>

datatype ApiError = StatusError (status_reason: string) (status_message: string)

datatype GoError = Api ApiError | Errorf string | Wrapf string GoError

fun error_text :: "GoError \<Rightarrow> string" where
  "error_text (Api e) = status_message e"
| "error_text (Errorf s) = s"
| "error_text (Wrapf s e) = s @ error_text e"

subsection \<open>Platform boilerplate\<close>

definition RuntimeClassName :: string where "RuntimeClassName = ''kata-qemu-nvidia-gpu-snp''"
definition InitDataAnnotation :: string where
  "InitDataAnnotation = ''io.katacontainers.config.hypervisor.cc_init_data''"
definition TrustedStoreDevicePath :: string where "TrustedStoreDevicePath = ''/dev/trusted_store''"
definition WeightsCacheMountPath :: string where
  "WeightsCacheMountPath = ''/root/.cache/huggingface''"
definition GaiConfigMapName :: string where "GaiConfigMapName = ''gai-ipv4-first''"
definition servingPort :: int32 where "servingPort = 8000"
definition containerName :: string where "containerName = ''vllm''"
definition dshmSizeLimit :: string where "dshmSizeLimit = ''8Gi''"
definition defaultFailureThreshold :: int32 where "defaultFailureThreshold = 120"
definition weightsCacheFailureThreshold :: int32 where "weightsCacheFailureThreshold = 240"
definition readinessInitialDelaySeconds :: int32 where "readinessInitialDelaySeconds = 60"
definition readinessPeriodSeconds :: int32 where "readinessPeriodSeconds = 10"
definition gpuResourceName :: string where "gpuResourceName = ''nvidia.com/pgpu''"

text \<open>Names the Kubernetes API fixes (\<open>k8s.io/api\<close>).\<close>

definition ResourceMemory :: string where "ResourceMemory = ''memory''"
definition ResourceCPU :: string where "ResourceCPU = ''cpu''"
definition StorageMediumMemory :: string where "StorageMediumMemory = ''Memory''"
definition RecreateDeploymentStrategyType :: string where
  "RecreateDeploymentStrategyType = ''Recreate''"

record Config =
  cfg_InitDataB64 :: string
  cfg_DefaultImage :: string

subsection \<open>Parts of the pod\<close>

definition ServiceName :: "InferenceService \<Rightarrow> string" where
  "ServiceName isvc = isvc_Name isvc @ ''-svc''"

definition ResolveImage :: "InferenceService \<Rightarrow> Config \<Rightarrow> GoError + string" where
  "ResolveImage isvc cfg =
     (if cfg_DefaultImage cfg \<noteq> [] then Inr (cfg_DefaultImage cfg)
      else Inl (Errorf ''no engine image: BrukTenant.spec.engine.defaultImage is not set''))"

definition engineArgs :: "InferenceService \<Rightarrow> BrukModel \<Rightarrow> string list option" where
  "engineArgs isvc model = do {
     hf \<leftarrow> model_HuggingFace model;
     let eng = iss_Engine (is_Spec isvc);
     Some
       ([''--model='' @ hf_Repo hf, ''--served-model-name='' @ ServedModelName model]
        @ (if es_Quantization eng \<noteq> [] then [''--quantization='' @ es_Quantization eng] else [])
        @ [''--max-model-len='' @ fmt_d (sint (es_MaxModelLen eng)),
           ''--gpu-memory-utilization=0.'' @ fmt_02d (sint (es_GPUMemoryUtilizationPercent eng)),
           ''--host=0.0.0.0'',
           ''--port='' @ fmt_d (sint servingPort)])
   }"

definition engineEnv :: "BrukModel \<Rightarrow> EnvVar list option" where
  "engineEnv model = do {
     hf \<leftarrow> model_HuggingFace model;
     Some
       ((case hf_TokenSecretRef hf of
           None \<Rightarrow> []
         | Some ref \<Rightarrow>
             [\<lparr>ev_Name = ''HF_TOKEN'', ev_Value = [],
               ev_ValueFrom = Some \<lparr>sks_Name = skr_Name ref, sks_Key = skr_Key ref\<rparr>\<rparr>])
        @ [\<lparr>ev_Name = ''VLLM_ATTENTION_BACKEND'', ev_Value = ''FLASH_ATTN'', ev_ValueFrom = None\<rparr>])
   }"

definition volumeMounts :: "bool \<Rightarrow> VolumeMount list" where
  "volumeMounts hasWeightsCache =
     (if hasWeightsCache
      then [\<lparr>vm_Name = ''models'', vm_MountPath = WeightsCacheMountPath, vm_SubPath = []\<rparr>] else [])
     @ [\<lparr>vm_Name = ''dshm'', vm_MountPath = ''/dev/shm'', vm_SubPath = []\<rparr>]
     @ (if hasWeightsCache
        then [\<lparr>vm_Name = ''gai'', vm_MountPath = ''/etc/gai.conf'', vm_SubPath = ''gai.conf''\<rparr>]
        else [])"

text \<open>The literal \<open>corev1.Volume\<close> with one volume source set.\<close>

definition emptyDirVolume :: "string \<Rightarrow> EmptyDirVolumeSource \<Rightarrow> Volume" where
  "emptyDirVolume n e =
     \<lparr>v_Name = n, v_EmptyDir = Some e, v_ConfigMap = None, v_PersistentVolumeClaim = None\<rparr>"

definition configMapVolume :: "string \<Rightarrow> string \<Rightarrow> Volume" where
  "configMapVolume n cm =
     \<lparr>v_Name = n, v_EmptyDir = None, v_ConfigMap = Some cm, v_PersistentVolumeClaim = None\<rparr>"

definition claimVolume :: "string \<Rightarrow> string \<Rightarrow> Volume" where
  "claimVolume n claim =
     \<lparr>v_Name = n, v_EmptyDir = None, v_ConfigMap = None, v_PersistentVolumeClaim = Some claim\<rparr>"

definition modelsVolume :: "InferenceService \<Rightarrow> bool \<Rightarrow> Volume list option" where
  "modelsVolume isvc hasWeightsCache =
     (if hasWeightsCache then do {
        wc \<leftarrow> isvc_WeightsCache isvc;
        Some [emptyDirVolume ''models'' \<lparr>ed_Medium = [], ed_SizeLimit = wc_SizeLimit wc\<rparr>]
      } else Some [])"

definition volumes :: "InferenceService \<Rightarrow> bool \<Rightarrow> Volume list option" where
  "volumes isvc hasWeightsCache = do {
     models \<leftarrow> modelsVolume isvc hasWeightsCache;
     Some
       (models
        @ [emptyDirVolume ''dshm''
             \<lparr>ed_Medium = StorageMediumMemory, ed_SizeLimit = Some (ParseQuantity dshmSizeLimit)\<rparr>]
        @ (if hasWeightsCache then [configMapVolume ''gai'' GaiConfigMapName] else [])
        @ [claimVolume ''trusted-image'' (isvc_Claim isvc)])
   }"

definition failureThreshold :: "InferenceService \<Rightarrow> int32" where
  "failureThreshold isvc =
     (case Option.bind (iss_Probes (is_Spec isvc)) po_ReadinessFailureThreshold of
        Some t \<Rightarrow> t
      | None \<Rightarrow> if isvc_WeightsCache isvc \<noteq> None then weightsCacheFailureThreshold
                else defaultFailureThreshold)"

definition requestOrLimit :: "ResourcePair \<Rightarrow> Quantity" where
  "requestOrLimit pair = (case rp_Request pair of Some q \<Rightarrow> q | None \<Rightarrow> rp_Limit pair)"

subsection \<open>The rendered objects\<close>

definition resourceRequirements :: "InferenceService \<Rightarrow> ResourceRequirements" where
  "resourceRequirements isvc =
     (let res = iss_Resources (is_Spec isvc) in
      \<lparr>rr_Limits = [gpuResourceName \<mapsto> NewQuantity (int64_of_int32 (wr_GPUs res)),
                    ResourceMemory \<mapsto> rp_Limit (wr_Memory res),
                    ResourceCPU \<mapsto> rp_Limit (wr_CPU res)],
       rr_Requests = [ResourceMemory \<mapsto> requestOrLimit (wr_Memory res),
                      ResourceCPU \<mapsto> requestOrLimit (wr_CPU res)]\<rparr>)"

definition container :: "InferenceService \<Rightarrow> BrukModel \<Rightarrow> string \<Rightarrow> bool \<Rightarrow> Container option" where
  "container isvc model img hasWeightsCache = do {
     args \<leftarrow> engineArgs isvc model;
     env \<leftarrow> engineEnv model;
     Some
       \<lparr>co_Name = containerName, co_Image = img, co_Args = args, co_Ports = [servingPort],
        co_Env = env, co_Resources = resourceRequirements isvc,
        co_VolumeMounts = volumeMounts hasWeightsCache,
        co_VolumeDevices = [\<lparr>vd_Name = ''trusted-image'', vd_DevicePath = TrustedStoreDevicePath\<rparr>],
        co_ReadinessProbe = Some
          \<lparr>p_HTTPGetPath = ''/health'', p_HTTPGetPort = servingPort,
           p_InitialDelaySeconds = readinessInitialDelaySeconds,
           p_PeriodSeconds = readinessPeriodSeconds,
           p_FailureThreshold = failureThreshold isvc\<rparr>\<rparr>
   }"

definition deploymentOf :: "InferenceService \<Rightarrow> Config \<Rightarrow> Container \<Rightarrow> Volume list \<Rightarrow> Deployment" where
  "deploymentOf isvc cfg co vols =
     (let labels = [''app'' \<mapsto> isvc_Name isvc] in
      \<lparr>d_TypeMeta = zero_TypeMeta,
       d_Meta = zero_ObjectMeta\<lparr>om_Name := isvc_Name isvc, om_Namespace := isvc_Namespace isvc,
                                om_Labels := labels\<rparr>,
       d_Spec =
         \<lparr>ds_Replicas = Some 1, ds_StrategyType = RecreateDeploymentStrategyType,
          ds_Selector = labels,
          ds_Template =
            \<lparr>pt_Labels = labels,
             pt_Annotations = [InitDataAnnotation \<mapsto> cfg_InitDataB64 cfg],
             pt_Spec = \<lparr>ps_RuntimeClassName = Some RuntimeClassName, ps_Containers = [co],
                        ps_Volumes = vols\<rparr>\<rparr>\<rparr>,
       d_StatusConditions = []\<rparr>)"

definition renderDeployment ::
    "InferenceService \<Rightarrow> BrukModel \<Rightarrow> Config \<Rightarrow> (GoError + Deployment) option" where
  "renderDeployment isvc model cfg =
     (if model_HuggingFace model = None then
        Some (Inl (Errorf (''BrukModel '' @ om_Name (bm_Meta model)
          @ '' has no huggingFace source; v1alpha1 supports only huggingFace'')))
      else case ResolveImage isvc cfg of
        Inl err \<Rightarrow> Some (Inl err)
      | Inr img \<Rightarrow>
          if cfg_InitDataB64 cfg = [] then
            Some (Inl (Errorf (''no initdata blob: refusing to render a CC pod without ''
              @ ''the mirror-redirect annotation'')))
          else do {
            let hasWeightsCache = isvc_WeightsCache isvc \<noteq> None;
            co \<leftarrow> container isvc model img hasWeightsCache;
            vols \<leftarrow> volumes isvc hasWeightsCache;
            Some (Inr (deploymentOf isvc cfg co vols))
          })"

definition renderService :: "InferenceService \<Rightarrow> Service" where
  "renderService isvc =
     \<lparr>svc_TypeMeta = zero_TypeMeta,
      svc_Meta = zero_ObjectMeta\<lparr>om_Name := ServiceName isvc, om_Namespace := isvc_Namespace isvc\<rparr>,
      svc_Selector = [''app'' \<mapsto> isvc_Name isvc],
      svc_Ports = [\<lparr>sp_Port = servingPort, sp_TargetPort = servingPort\<rparr>]\<rparr>"

definition renderGaiConfigMap :: "string \<Rightarrow> ConfigMap" where
  "renderGaiConfigMap namespace =
     \<lparr>cm_TypeMeta = zero_TypeMeta,
      cm_Meta = zero_ObjectMeta\<lparr>om_Name := GaiConfigMapName, om_Namespace := namespace\<rparr>,
      cm_Data = [''gai.conf'' \<mapsto> ''precedence ::ffff:0:0/96 100'' @ [char_of (10::nat)]]\<rparr>"

definition EndpointURL :: "InferenceService \<Rightarrow> string" where
  "EndpointURL isvc =
     ''http://'' @ ServiceName isvc @ ''.'' @ isvc_Namespace isvc @ ''.svc.cluster.local:''
     @ fmt_d (sint servingPort) @ ''/v1''"

definition InitDataHash :: "string \<Rightarrow> string" where
  "InitDataHash initDataB64 = take 12 (EncodeToString (Sum256 (map byte_of_char initDataB64)))"

subsection \<open>Rendering never dereferences nil\<close>

lemma container_Some: "model_HuggingFace model = Some hf \<Longrightarrow> \<exists>co. container isvc model img w = Some co"
  by (simp add: container_def engineArgs_def engineEnv_def Let_def)

lemma volumes_Some: "\<exists>vols. volumes isvc (isvc_WeightsCache isvc \<noteq> None) = Some vols"
  by (auto simp: volumes_def modelsVolume_def)

text \<open>
  The one guard the render functions rely on: with a source, an image and a blob the result is
  the object built from the two parts.
\<close>

lemma renderDeployment_cases:
  obtains (no_source) "model_HuggingFace model = None"
      "renderDeployment isvc model cfg = Some (Inl (Errorf (''BrukModel '' @ om_Name (bm_Meta model)
          @ '' has no huggingFace source; v1alpha1 supports only huggingFace'')))"
  | (no_image) "model_HuggingFace model \<noteq> None" "cfg_DefaultImage cfg = []"
      "renderDeployment isvc model cfg =
         Some (Inl (Errorf ''no engine image: BrukTenant.spec.engine.defaultImage is not set''))"
  | (no_blob) "model_HuggingFace model \<noteq> None" "cfg_DefaultImage cfg \<noteq> []" "cfg_InitDataB64 cfg = []"
      "renderDeployment isvc model cfg =
         Some (Inl (Errorf (''no initdata blob: refusing to render a CC pod without ''
              @ ''the mirror-redirect annotation'')))"
  | (rendered) co vols where "model_HuggingFace model \<noteq> None" "cfg_DefaultImage cfg \<noteq> []"
      "cfg_InitDataB64 cfg \<noteq> []"
      "container isvc model (cfg_DefaultImage cfg) (isvc_WeightsCache isvc \<noteq> None) = Some co"
      "volumes isvc (isvc_WeightsCache isvc \<noteq> None) = Some vols"
      "renderDeployment isvc model cfg = Some (Inr (deploymentOf isvc cfg co vols))"
proof (cases "model_HuggingFace model")
  case None
  then show thesis by (intro no_source) (simp_all add: renderDeployment_def)
next
  case (Some hf)
  obtain co where co: "container isvc model (cfg_DefaultImage cfg) (isvc_WeightsCache isvc \<noteq> None) = Some co"
    using container_Some [OF Some] by blast
  obtain vols where vols: "volumes isvc (isvc_WeightsCache isvc \<noteq> None) = Some vols"
    using volumes_Some by blast
  show thesis
  proof (cases "cfg_DefaultImage cfg = [] \<or> cfg_InitDataB64 cfg = []")
    case True
    then show thesis
      using no_image no_blob Some by (cases "cfg_DefaultImage cfg = []")
        (simp_all add: renderDeployment_def ResolveImage_def)
  next
    case False
    then have "renderDeployment isvc model cfg = Some (Inr (deploymentOf isvc cfg co vols))"
      using Some co vols by (simp add: renderDeployment_def ResolveImage_def Let_def)
    with False Some co vols rendered show thesis by blast
  qed
qed

lemma renderDeployment_not_None [simp]: "renderDeployment isvc model cfg \<noteq> None"
  by (cases rule: renderDeployment_cases [of model isvc cfg]) simp_all

end
