(* ===== verification/RenderProps.thy ===== *)
theory RenderProps
  imports Render
begin

text \<open>
  What the renderer promises: the field equations of a rendered Deployment, and on top of
  them the properties of the output contract (confidential runtime, one reviewed image, one
  trusted store, no credential in the pod spec, a Service that reaches the pod, arguments
  that carry every engine setting), with the fixtures of \<open>render_test.go\<close> as witnesses.
\<close>

subsection \<open>Fixtures\<close>

text \<open>The smoke workload of \<open>render_test.go\<close> and \<open>manifests/h100-vllm-cc-smoke.yaml\<close>.\<close>

definition smokeModel :: BrukModel where
  "smokeModel =
     \<lparr>bm_Meta = zero_ObjectMeta\<lparr>om_Name := ''qwen-0.5b'', om_Namespace := ''default''\<rparr>,
      bm_Spec =
        \<lparr>bms_Source = \<lparr>ms_HuggingFace =
           Some \<lparr>hf_Repo = ''Qwen/Qwen2.5-0.5B-Instruct'', hf_Revision = [], hf_TokenSecretRef = None\<rparr>\<rparr>,
         bms_ServedName = [],
         bms_Catalog =
           \<lparr>cat_DisplayName = ''Qwen2.5 0.5B Instruct'', cat_Description = [],
            cat_ContextLength = 32768, cat_InputModalities = [], cat_OutputModalities = [],
            cat_Features = [], cat_License = [], cat_Pricing = None\<rparr>\<rparr>,
      bm_Status = \<lparr>bmst_ObservedGeneration = 0, bmst_Conditions = []\<rparr>\<rparr>"

definition smokeService :: InferenceService where
  "smokeService =
     \<lparr>is_Meta = zero_ObjectMeta\<lparr>om_Name := ''vllm-cc-smoke'', om_Namespace := ''default'',
                               om_UID := ''u-smoke''\<rparr>,
      is_Spec =
        \<lparr>iss_ModelRef = \<lparr>lr_Name = ''qwen-0.5b''\<rparr>,
         iss_Engine = \<lparr>es_Quantization = [], es_MaxModelLen = 8192,
                       es_GPUMemoryUtilizationPercent = 30\<rparr>,
         iss_Resources =
           \<lparr>wr_GPUs = 1,
            wr_Memory = \<lparr>rp_Limit = ParseQuantity ''32Gi'', rp_Request = Some (ParseQuantity ''16Gi'')\<rparr>,
            wr_CPU = \<lparr>rp_Limit = ParseQuantity ''8'', rp_Request = Some (ParseQuantity ''4'')\<rparr>\<rparr>,
         iss_Storage =
           \<lparr>st_TrustedStore = \<lparr>ts_ExistingClaim = ''trusted-image-smoke'', ts_LocalVolume = None\<rparr>,
            st_WeightsCache = None\<rparr>,
         iss_Probes = None\<rparr>,
      is_Status =
        \<lparr>ist_ObservedGeneration = 0, ist_Conditions = [], ist_Endpoint = None,
         ist_ServedModelName = [], ist_ResolvedImage = [], ist_AppliedInitDataHash = []\<rparr>\<rparr>"

definition testConfig :: Config where
  "testConfig =
     \<lparr>cfg_InitDataB64 = ''H4sIAAAAAAAAAw=='',
      cfg_DefaultImage = ''docker.io/vllm/vllm-openai@sha256:''
        @ ''d5b12dfb74d605615f8b29ebafaa52294c118bcac7bc9e941785c4108fdb913a''\<rparr>"

text \<open>The production workload: a gated model, quantized, with a weights cache.\<close>

definition prodModel :: BrukModel where
  "prodModel =
     \<lparr>bm_Meta = zero_ObjectMeta\<lparr>om_Name := ''mistral-small-3.1-24b'', om_Namespace := ''default''\<rparr>,
      bm_Spec =
        \<lparr>bms_Source = \<lparr>ms_HuggingFace =
           Some \<lparr>hf_Repo = ''mistralai/Mistral-Small-3.1-24B-Instruct-2503'', hf_Revision = [],
                 hf_TokenSecretRef = Some \<lparr>skr_Name = ''hf-token'', skr_Key = ''token''\<rparr>\<rparr>\<rparr>,
         bms_ServedName = ''mistral-small-3.1'',
         bms_Catalog =
           \<lparr>cat_DisplayName = ''Mistral Small 3.1 24B'', cat_Description = [],
            cat_ContextLength = 131072, cat_InputModalities = [], cat_OutputModalities = [],
            cat_Features = [], cat_License = [], cat_Pricing = None\<rparr>\<rparr>,
      bm_Status = \<lparr>bmst_ObservedGeneration = 0, bmst_Conditions = []\<rparr>\<rparr>"

definition prodService :: InferenceService where
  "prodService =
     \<lparr>is_Meta = zero_ObjectMeta\<lparr>om_Name := ''vllm-cc'', om_Namespace := ''default'',
                               om_UID := ''u-prod''\<rparr>,
      is_Spec =
        \<lparr>iss_ModelRef = \<lparr>lr_Name = ''mistral-small-3.1-24b''\<rparr>,
         iss_Engine = \<lparr>es_Quantization = ''fp8'', es_MaxModelLen = 32768,
                       es_GPUMemoryUtilizationPercent = 90\<rparr>,
         iss_Resources =
           \<lparr>wr_GPUs = 1,
            wr_Memory = \<lparr>rp_Limit = ParseQuantity ''64Gi'', rp_Request = Some (ParseQuantity ''32Gi'')\<rparr>,
            wr_CPU = \<lparr>rp_Limit = ParseQuantity ''8'', rp_Request = Some (ParseQuantity ''4'')\<rparr>\<rparr>,
         iss_Storage =
           \<lparr>st_TrustedStore = \<lparr>ts_ExistingClaim = ''trusted-image-24b'', ts_LocalVolume = None\<rparr>,
            st_WeightsCache = Some \<lparr>wc_SizeLimit = None\<rparr>\<rparr>,
         iss_Probes = None\<rparr>,
      is_Status =
        \<lparr>ist_ObservedGeneration = 0, ist_Conditions = [], ist_Endpoint = None,
         ist_ServedModelName = [], ist_ResolvedImage = [], ist_AppliedInitDataHash = []\<rparr>\<rparr>"

lemmas fixture_defs = smokeModel_def smokeService_def prodModel_def prodService_def testConfig_def

text \<open>The Deployment and Service of \<open>manifests/h100-vllm-cc.yaml\<close>, field by field.\<close>

definition goldenContainer :: Container where
  "goldenContainer =
     \<lparr>co_Name = ''vllm'',
      co_Image = ''docker.io/vllm/vllm-openai@sha256:''
        @ ''d5b12dfb74d605615f8b29ebafaa52294c118bcac7bc9e941785c4108fdb913a'',
      co_Args =
        [''--model=mistralai/Mistral-Small-3.1-24B-Instruct-2503'',
         ''--served-model-name=mistral-small-3.1'', ''--quantization=fp8'',
         ''--max-model-len=32768'', ''--gpu-memory-utilization=0.90'', ''--host=0.0.0.0'',
         ''--port=8000''],
      co_Ports = [8000],
      co_Env =
        [\<lparr>ev_Name = ''HF_TOKEN'', ev_Value = [],
          ev_ValueFrom = Some \<lparr>sks_Name = ''hf-token'', sks_Key = ''token''\<rparr>\<rparr>,
         \<lparr>ev_Name = ''VLLM_ATTENTION_BACKEND'', ev_Value = ''FLASH_ATTN'', ev_ValueFrom = None\<rparr>],
      co_Resources =
        \<lparr>rr_Limits = [''nvidia.com/pgpu'' \<mapsto> NewQuantity 1, ''memory'' \<mapsto> ParseQuantity ''64Gi'',
                      ''cpu'' \<mapsto> ParseQuantity ''8''],
         rr_Requests = [''memory'' \<mapsto> ParseQuantity ''32Gi'', ''cpu'' \<mapsto> ParseQuantity ''4'']\<rparr>,
      co_VolumeMounts =
        [\<lparr>vm_Name = ''models'', vm_MountPath = ''/root/.cache/huggingface'', vm_SubPath = []\<rparr>,
         \<lparr>vm_Name = ''dshm'', vm_MountPath = ''/dev/shm'', vm_SubPath = []\<rparr>,
         \<lparr>vm_Name = ''gai'', vm_MountPath = ''/etc/gai.conf'', vm_SubPath = ''gai.conf''\<rparr>],
      co_VolumeDevices = [\<lparr>vd_Name = ''trusted-image'', vd_DevicePath = ''/dev/trusted_store''\<rparr>],
      co_ReadinessProbe =
        Some \<lparr>p_HTTPGetPath = ''/health'', p_HTTPGetPort = 8000, p_InitialDelaySeconds = 60,
              p_PeriodSeconds = 10, p_FailureThreshold = 240\<rparr>\<rparr>"

definition goldenVolumes :: "Volume list" where
  "goldenVolumes =
     [emptyDirVolume ''models'' \<lparr>ed_Medium = [], ed_SizeLimit = None\<rparr>,
      emptyDirVolume ''dshm'' \<lparr>ed_Medium = ''Memory'', ed_SizeLimit = Some (ParseQuantity ''8Gi'')\<rparr>,
      configMapVolume ''gai'' ''gai-ipv4-first'',
      claimVolume ''trusted-image'' ''trusted-image-24b'']"

text \<open>Evaluation of the formatted fields of the fixtures.\<close>

lemma fmt_02d_90: "fmt_02d 90 = ''90''"
  by (simp add: fmt_02d_def fmt_d_def dec_nat.simps)

lemma fmt_d_32768: "fmt_d 32768 = ''32768''" and fmt_d_8000: "fmt_d 8000 = ''8000''"
  by (simp_all add: fmt_d_def dec_nat.simps)

lemma prod_fields:
  "isvc_Name prodService = ''vllm-cc''" "isvc_Namespace prodService = ''default''"
  "iss_Engine (is_Spec prodService) = \<lparr>es_Quantization = ''fp8'', es_MaxModelLen = 32768,
     es_GPUMemoryUtilizationPercent = 90\<rparr>"
  "iss_Resources (is_Spec prodService) =
     \<lparr>wr_GPUs = 1,
      wr_Memory = \<lparr>rp_Limit = ParseQuantity ''64Gi'', rp_Request = Some (ParseQuantity ''32Gi'')\<rparr>,
      wr_CPU = \<lparr>rp_Limit = ParseQuantity ''8'', rp_Request = Some (ParseQuantity ''4'')\<rparr>\<rparr>"
  "isvc_Claim prodService = ''trusted-image-24b''" "isvc_LocalVolume prodService = None"
  "isvc_WeightsCache prodService = Some \<lparr>wc_SizeLimit = None\<rparr>"
  "iss_Probes (is_Spec prodService) = None"
  "lr_Name (iss_ModelRef (is_Spec prodService)) = ''mistral-small-3.1-24b''"
  by (simp_all add: prodService_def)

lemma prodModel_fields:
  "om_Name (bm_Meta prodModel) = ''mistral-small-3.1-24b''"
  "model_HuggingFace prodModel =
     Some \<lparr>hf_Repo = ''mistralai/Mistral-Small-3.1-24B-Instruct-2503'', hf_Revision = [],
           hf_TokenSecretRef = Some \<lparr>skr_Name = ''hf-token'', skr_Key = ''token''\<rparr>\<rparr>"
  "bms_ServedName (bm_Spec prodModel) = ''mistral-small-3.1''"
  "cat_ContextLength (bms_Catalog (bm_Spec prodModel)) = 131072"
  by (simp_all add: prodModel_def)

lemma engineArgs_prod: "engineArgs prodService prodModel = Some (co_Args goldenContainer)"
  by (simp add: engineArgs_def ServedModelName_def prod_fields prodModel_fields fmt_02d_90
      fmt_d_32768 fmt_d_8000 servingPort_def goldenContainer_def)

lemma resources_prod: "resourceRequirements prodService = co_Resources goldenContainer"
  by (simp add: resourceRequirements_def prod_fields requestOrLimit_def int64_of_int32_def
      gpuResourceName_def ResourceMemory_def ResourceCPU_def goldenContainer_def)

lemma failureThreshold_prod: "failureThreshold prodService = 240"
  by (simp add: failureThreshold_def prod_fields weightsCacheFailureThreshold_def)

lemma container_prod:
  "container prodService prodModel (cfg_DefaultImage testConfig) True = Some goldenContainer"
  unfolding container_def engineArgs_prod resources_prod failureThreshold_prod
  by (simp add: engineEnv_def prodModel_fields testConfig_def goldenContainer_def
      containerName_def servingPort_def volumeMounts_def WeightsCacheMountPath_def
      TrustedStoreDevicePath_def readinessInitialDelaySeconds_def readinessPeriodSeconds_def)

lemma volumes_prod: "volumes prodService True = Some goldenVolumes"
  by (simp add: volumes_def modelsVolume_def prod_fields goldenVolumes_def StorageMediumMemory_def
      dshmSizeLimit_def GaiConfigMapName_def)

definition goldenDeployment :: Deployment where
  "goldenDeployment =
     \<lparr>d_TypeMeta = zero_TypeMeta,
      d_Meta = zero_ObjectMeta\<lparr>om_Name := ''vllm-cc'', om_Namespace := ''default'',
                               om_Labels := [''app'' \<mapsto> ''vllm-cc'']\<rparr>,
      d_Spec =
        \<lparr>ds_Replicas = Some 1, ds_StrategyType = ''Recreate'', ds_Selector = [''app'' \<mapsto> ''vllm-cc''],
         ds_Template =
           \<lparr>pt_Labels = [''app'' \<mapsto> ''vllm-cc''],
            pt_Annotations = [''io.katacontainers.config.hypervisor.cc_init_data'' \<mapsto> ''H4sIAAAAAAAAAw==''],
            pt_Spec = \<lparr>ps_RuntimeClassName = Some ''kata-qemu-nvidia-gpu-snp'',
                       ps_Containers = [goldenContainer], ps_Volumes = goldenVolumes\<rparr>\<rparr>\<rparr>,
      d_StatusConditions = []\<rparr>"

lemma deploymentOf_prod:
  "deploymentOf prodService testConfig goldenContainer goldenVolumes = goldenDeployment"
  by (simp add: deploymentOf_def Let_def goldenDeployment_def prod_fields testConfig_def
      RecreateDeploymentStrategyType_def InitDataAnnotation_def RuntimeClassName_def)

lemma render_prod: "renderDeployment prodService prodModel testConfig = Some (Inr goldenDeployment)"
proof -
  have "model_HuggingFace prodModel \<noteq> None" "cfg_DefaultImage testConfig \<noteq> []"
    "cfg_InitDataB64 testConfig \<noteq> []" "(isvc_WeightsCache prodService \<noteq> None) = True"
    by (simp_all add: prodModel_fields prod_fields testConfig_def)
  then show ?thesis
    by (cases rule: renderDeployment_cases [of prodModel prodService testConfig])
      (simp_all add: container_prod volumes_prod deploymentOf_prod)
qed

subsection \<open>Field equations of a rendered Deployment\<close>

abbreviation pod_of :: "Deployment \<Rightarrow> PodSpec" where
  "pod_of d \<equiv> pt_Spec (ds_Template (d_Spec d))"

lemma rendered_deploymentOf:
  assumes "renderDeployment isvc model cfg = Some (Inr d)"
  obtains co vols where "d = deploymentOf isvc cfg co vols"
    "container isvc model (cfg_DefaultImage cfg) (isvc_WeightsCache isvc \<noteq> None) = Some co"
    "volumes isvc (isvc_WeightsCache isvc \<noteq> None) = Some vols"
    "model_HuggingFace model \<noteq> None" "cfg_DefaultImage cfg \<noteq> []" "cfg_InitDataB64 cfg \<noteq> []"
proof (cases rule: renderDeployment_cases [of model isvc cfg])
  case (rendered co vols)
  with assms have "d = deploymentOf isvc cfg co vols" by simp
  with rendered show thesis by (intro that)
qed (use assms in simp_all)

lemma deploymentOf_fields [render_simps]:
  "om_Name (d_Meta (deploymentOf isvc cfg co vols)) = isvc_Name isvc"
  "om_Namespace (d_Meta (deploymentOf isvc cfg co vols)) = isvc_Namespace isvc"
  "om_OwnerReferences (d_Meta (deploymentOf isvc cfg co vols)) = []"
  "om_Labels (d_Meta (deploymentOf isvc cfg co vols)) = [''app'' \<mapsto> isvc_Name isvc]"
  "ds_Replicas (d_Spec (deploymentOf isvc cfg co vols)) = Some 1"
  "ds_StrategyType (d_Spec (deploymentOf isvc cfg co vols)) = RecreateDeploymentStrategyType"
  "ds_Selector (d_Spec (deploymentOf isvc cfg co vols)) = [''app'' \<mapsto> isvc_Name isvc]"
  "pt_Labels (ds_Template (d_Spec (deploymentOf isvc cfg co vols))) = [''app'' \<mapsto> isvc_Name isvc]"
  "pt_Annotations (ds_Template (d_Spec (deploymentOf isvc cfg co vols)))
     = [InitDataAnnotation \<mapsto> cfg_InitDataB64 cfg]"
  "ps_RuntimeClassName (pod_of (deploymentOf isvc cfg co vols)) = Some RuntimeClassName"
  "ps_Containers (pod_of (deploymentOf isvc cfg co vols)) = [co]"
  "ps_Volumes (pod_of (deploymentOf isvc cfg co vols)) = vols"
  "d_StatusConditions (deploymentOf isvc cfg co vols) = []"
  "d_TypeMeta (deploymentOf isvc cfg co vols) = zero_TypeMeta"
  by (simp_all add: deploymentOf_def Let_def zero_ObjectMeta_def)

lemma container_fields:
  assumes "container isvc model img w = Some co"
  shows "co_Name co = containerName" "co_Image co = img" "co_Ports co = [servingPort]"
    "engineArgs isvc model = Some (co_Args co)" "engineEnv model = Some (co_Env co)"
    "co_Resources co = resourceRequirements isvc" "co_VolumeMounts co = volumeMounts w"
    "co_VolumeDevices co = [\<lparr>vd_Name = ''trusted-image'', vd_DevicePath = TrustedStoreDevicePath\<rparr>]"
    "co_ReadinessProbe co = Some \<lparr>p_HTTPGetPath = ''/health'', p_HTTPGetPort = servingPort,
       p_InitialDelaySeconds = readinessInitialDelaySeconds,
       p_PeriodSeconds = readinessPeriodSeconds, p_FailureThreshold = failureThreshold isvc\<rparr>"
  using assms by (auto simp: container_def bind_eq_Some_conv)

lemma rendered_volumes:
  assumes "volumes isvc (isvc_WeightsCache isvc \<noteq> None) = Some vols"
  shows "vols =
    (case isvc_WeightsCache isvc of None \<Rightarrow> []
      | Some wc \<Rightarrow> [emptyDirVolume ''models'' \<lparr>ed_Medium = [], ed_SizeLimit = wc_SizeLimit wc\<rparr>])
    @ [emptyDirVolume ''dshm'' \<lparr>ed_Medium = StorageMediumMemory,
         ed_SizeLimit = Some (ParseQuantity dshmSizeLimit)\<rparr>]
    @ (if isvc_WeightsCache isvc \<noteq> None then [configMapVolume ''gai'' GaiConfigMapName] else [])
    @ [claimVolume ''trusted-image'' (isvc_Claim isvc)]"
  using assms by (auto simp: volumes_def modelsVolume_def split: option.splits)

subsection \<open>The output contract\<close>

text \<open>Rendering is total (it never dereferences a nil pointer, whatever the objects hold),
  and it yields a Deployment exactly when the model has a Hugging Face source, the cluster a
  default image and the initdata blob is not empty.\<close>

theorem renderDeployment_total:
  "(\<exists>r. renderDeployment isvc model cfg = Some r) \<and>
   ((\<exists>d. renderDeployment isvc model cfg = Some (Inr d)) \<longleftrightarrow>
      model_HuggingFace model \<noteq> None \<and> cfg_DefaultImage cfg \<noteq> [] \<and> cfg_InitDataB64 cfg \<noteq> [])"
  by (cases rule: renderDeployment_cases [of model isvc cfg]) simp_all

text \<open>C25: The confidential-pod contract. Every rendered Deployment runs one replica, replaced
  and never doubled (strategy Recreate, since two pods must not share the trusted store), of a
  single container with the cluster's reviewed image, on the confidential runtime class, with
  the non-empty initdata blob and nothing else as annotation.\<close>

theorem rendered_pod_contract:
  assumes "renderDeployment isvc model cfg = Some (Inr d)"
  shows "\<exists>co. ps_Containers (pod_of d) = [co] \<and> co_Image co = cfg_DefaultImage cfg \<and>
      ps_RuntimeClassName (pod_of d) = Some ''kata-qemu-nvidia-gpu-snp'' \<and>
      pt_Annotations (ds_Template (d_Spec d))
        = [''io.katacontainers.config.hypervisor.cc_init_data'' \<mapsto> cfg_InitDataB64 cfg] \<and>
      cfg_InitDataB64 cfg \<noteq> [] \<and> cfg_DefaultImage cfg \<noteq> [] \<and>
      ds_Replicas (d_Spec d) = Some 1 \<and> ds_StrategyType (d_Spec d) = ''Recreate''"
proof -
  from assms obtain co vols where d: "d = deploymentOf isvc cfg co vols"
    and co: "container isvc model (cfg_DefaultImage cfg) (isvc_WeightsCache isvc \<noteq> None) = Some co"
    and ne: "cfg_DefaultImage cfg \<noteq> []" "cfg_InitDataB64 cfg \<noteq> []"
    by (rule rendered_deploymentOf)
  show ?thesis
    using ne container_fields(2) [OF co]
    by (simp add: d render_simps RuntimeClassName_def InitDataAnnotation_def
        RecreateDeploymentStrategyType_def)
qed

theorem rendered_pod_contract_witness:
  "ds_Replicas (d_Spec goldenDeployment) = Some 1 \<and>
   ps_RuntimeClassName (pod_of goldenDeployment) = Some ''kata-qemu-nvidia-gpu-snp''"
  using rendered_pod_contract [OF render_prod] by auto

text \<open>The claims a pod spec mounts, in order.\<close>

definition claims_of :: "Volume list \<Rightarrow> string list" where
  "claims_of vols = List.map_filter v_PersistentVolumeClaim vols"

lemma claims_of_simps [simp]:
  "claims_of [] = []"
  "claims_of (v # vs) = (case v_PersistentVolumeClaim v of None \<Rightarrow> claims_of vs | Some c \<Rightarrow> c # claims_of vs)"
  "claims_of (vs @ ws) = claims_of vs @ claims_of ws"
  by (simp_all add: claims_of_def map_filter_def split: option.splits)

lemma volume_sels [simp]:
  "v_Name (emptyDirVolume n e) = n" "v_Name (configMapVolume n cm) = n" "v_Name (claimVolume n c) = n"
  "v_PersistentVolumeClaim (emptyDirVolume n e) = None"
  "v_PersistentVolumeClaim (configMapVolume n cm) = None"
  "v_PersistentVolumeClaim (claimVolume n c) = Some c"
  by (simp_all add: emptyDirVolume_def configMapVolume_def claimVolume_def)

text \<open>Storage wiring. The volumes of a rendered pod have distinct names, every mount and
  every block device of the container refers to one of them and no two mounts share a path, and
  the pod mounts exactly one persistent volume claim: the trusted store the service names.\<close>

theorem rendered_storage_wiring:
  assumes "renderDeployment isvc model cfg = Some (Inr d)"
  shows "distinct (map v_Name (ps_Volumes (pod_of d))) \<and>
    claims_of (ps_Volumes (pod_of d)) = [isvc_Claim isvc] \<and>
    (\<exists>co. ps_Containers (pod_of d) = [co] \<and>
       vm_Name ` set (co_VolumeMounts co) \<union> vd_Name ` set (co_VolumeDevices co)
         = v_Name ` set (ps_Volumes (pod_of d)) \<and>
       distinct (map vm_MountPath (co_VolumeMounts co)))"
proof -
  from assms obtain co vols where d: "d = deploymentOf isvc cfg co vols"
    and co: "container isvc model (cfg_DefaultImage cfg) (isvc_WeightsCache isvc \<noteq> None) = Some co"
    and vols: "volumes isvc (isvc_WeightsCache isvc \<noteq> None) = Some vols"
    by (rule rendered_deploymentOf)
  show ?thesis
    unfolding d render_simps rendered_volumes [OF vols]
    by (auto simp: container_fields [OF co] volumeMounts_def WeightsCacheMountPath_def
        split: option.splits)
qed

theorem rendered_storage_wiring_witness:
  "claims_of (ps_Volumes (pod_of goldenDeployment)) = [''trusted-image-24b'']"
  using rendered_storage_wiring [OF render_prod] by (simp add: prod_fields)

lemma port_in_args:
  "engineArgs isvc model = Some args \<Longrightarrow> ''--port='' @ fmt_d (sint servingPort) \<in> set args"
  by (cases "model_HuggingFace model") (auto simp: engineArgs_def Let_def)

text \<open>C26: Routing. The rendered Service selects exactly the labels the rendered pod carries, as
  does the Deployment's own selector, and its port leads to the one port the container opens,
  which is the port of the readiness probe and of the engine's \<open>--port\<close> argument.\<close>

theorem service_reaches_pod:
  assumes "renderDeployment isvc model cfg = Some (Inr d)"
  shows "svc_Selector (renderService isvc) = pt_Labels (ds_Template (d_Spec d)) \<and>
    ds_Selector (d_Spec d) = pt_Labels (ds_Template (d_Spec d)) \<and>
    om_Namespace (svc_Meta (renderService isvc)) = om_Namespace (d_Meta d) \<and>
    (\<exists>co pr. ps_Containers (pod_of d) = [co] \<and> co_ReadinessProbe co = Some pr \<and>
       map sp_TargetPort (svc_Ports (renderService isvc)) = co_Ports co \<and>
       p_HTTPGetPort pr \<in> set (co_Ports co) \<and>
       (\<forall>port \<in> set (co_Ports co). ''--port='' @ fmt_d (sint port) \<in> set (co_Args co)))"
proof -
  from assms obtain co vols where d: "d = deploymentOf isvc cfg co vols"
    and co: "container isvc model (cfg_DefaultImage cfg) (isvc_WeightsCache isvc \<noteq> None) = Some co"
    by (rule rendered_deploymentOf)
  have "''--port='' @ fmt_d (sint servingPort) \<in> set (co_Args co)"
    by (rule port_in_args [OF container_fields(4) [OF co]])
  then show ?thesis
    by (simp add: d render_simps container_fields [OF co] renderService_def zero_ObjectMeta_def)
qed

theorem service_reaches_pod_witness:
  "svc_Selector (renderService prodService) = pt_Labels (ds_Template (d_Spec goldenDeployment))"
  using service_reaches_pod [OF render_prod] by blast

lemma engineEnv_literal:
  assumes "engineEnv model = Some env"
  shows "{e \<in> set env. ev_Value e \<noteq> []} =
    {\<lparr>ev_Name = ''VLLM_ATTENTION_BACKEND'', ev_Value = ''FLASH_ATTN'', ev_ValueFrom = None\<rparr>}"
  using assms by (cases "model_HuggingFace model") (auto simp: engineEnv_def split: option.splits)

lemma engineEnv_token:
  assumes "engineEnv model = Some env" and "model_HuggingFace model = Some hf"
  shows "{e \<in> set env. ev_Name e = ''HF_TOKEN''} =
    (case hf_TokenSecretRef hf of None \<Rightarrow> {}
     | Some ref \<Rightarrow> {\<lparr>ev_Name = ''HF_TOKEN'', ev_Value = [],
         ev_ValueFrom = Some \<lparr>sks_Name = skr_Name ref, sks_Key = skr_Key ref\<rparr>\<rparr>})"
  using assms by (auto simp: engineEnv_def split: option.splits)

text \<open>Credentials stay out of the pod spec. Of the environment of a rendered container only the
  attention backend has a literal value; the Hugging Face token appears exactly when the model
  names a secret, and then as a reference to that secret's key.\<close>

theorem rendered_env_no_secret:
  assumes "renderDeployment isvc model cfg = Some (Inr d)"
  shows "\<exists>co hf. ps_Containers (pod_of d) = [co] \<and> model_HuggingFace model = Some hf \<and>
      {e \<in> set (co_Env co). ev_Value e \<noteq> []}
        = {\<lparr>ev_Name = ''VLLM_ATTENTION_BACKEND'', ev_Value = ''FLASH_ATTN'', ev_ValueFrom = None\<rparr>} \<and>
      {e \<in> set (co_Env co). ev_Name e = ''HF_TOKEN''}
        = (case hf_TokenSecretRef hf of None \<Rightarrow> {}
           | Some ref \<Rightarrow> {\<lparr>ev_Name = ''HF_TOKEN'', ev_Value = [],
               ev_ValueFrom = Some \<lparr>sks_Name = skr_Name ref, sks_Key = skr_Key ref\<rparr>\<rparr>})"
proof -
  from assms obtain co vols where d: "d = deploymentOf isvc cfg co vols"
    and co: "container isvc model (cfg_DefaultImage cfg) (isvc_WeightsCache isvc \<noteq> None) = Some co"
    and "model_HuggingFace model \<noteq> None"
    by (rule rendered_deploymentOf)
  then obtain hf where hf: "model_HuggingFace model = Some hf" by blast
  note env = container_fields(5) [OF co]
  show ?thesis
    using hf engineEnv_literal [OF env] engineEnv_token [OF env hf]
    by (simp add: d render_simps)
qed

theorem rendered_env_no_secret_witness:
  "\<exists>co. ps_Containers (pod_of goldenDeployment) = [co] \<and>
     {e \<in> set (co_Env co). ev_Name e = ''HF_TOKEN''} =
       {\<lparr>ev_Name = ''HF_TOKEN'', ev_Value = [],
         ev_ValueFrom = Some \<lparr>sks_Name = ''hf-token'', sks_Key = ''token''\<rparr>\<rparr>}"
  using rendered_env_no_secret [OF render_prod] by (auto simp: prodModel_fields)

text \<open>Resources. The container's limits are exactly GPU, memory and CPU, with the GPU count as
  the service gives it; its requests are memory and CPU, each the one of the spec or, where the
  spec has none, the limit.\<close>

theorem rendered_resources:
  "rr_Limits (resourceRequirements isvc) =
     [''nvidia.com/pgpu'' \<mapsto> NewQuantity (int64_of_int32 (wr_GPUs (iss_Resources (is_Spec isvc)))),
      ''memory'' \<mapsto> rp_Limit (wr_Memory (iss_Resources (is_Spec isvc))),
      ''cpu'' \<mapsto> rp_Limit (wr_CPU (iss_Resources (is_Spec isvc)))] \<and>
   dom (rr_Requests (resourceRequirements isvc)) = {''memory'', ''cpu''} \<and>
   (case rp_Request (wr_Memory (iss_Resources (is_Spec isvc))) of
      None \<Rightarrow> rr_Requests (resourceRequirements isvc) ''memory''
              = rr_Limits (resourceRequirements isvc) ''memory''
    | Some q \<Rightarrow> rr_Requests (resourceRequirements isvc) ''memory'' = Some q) \<and>
   (case rp_Request (wr_CPU (iss_Resources (is_Spec isvc))) of
      None \<Rightarrow> rr_Requests (resourceRequirements isvc) ''cpu''
              = rr_Limits (resourceRequirements isvc) ''cpu''
    | Some q \<Rightarrow> rr_Requests (resourceRequirements isvc) ''cpu'' = Some q)"
  by (auto simp: resourceRequirements_def Let_def gpuResourceName_def ResourceMemory_def
      ResourceCPU_def requestOrLimit_def split: option.splits)

subsection \<open>The engine's arguments\<close>

text \<open>A model that differs only in the pinned revision.\<close>

definition set_Revision :: "string \<Rightarrow> BrukModel \<Rightarrow> BrukModel" where
  "set_Revision r model =
     model\<lparr>bm_Spec := (bm_Spec model)\<lparr>bms_Source :=
       \<lparr>ms_HuggingFace = map_option (\<lambda>hf. hf\<lparr>hf_Revision := r\<rparr>) (model_HuggingFace model)\<rparr>\<rparr>\<rparr>"

lemma set_Revision_sels [simp]:
  "model_HuggingFace (set_Revision r model)
     = map_option (\<lambda>hf. hf\<lparr>hf_Revision := r\<rparr>) (model_HuggingFace model)"
  "bm_Meta (set_Revision r model) = bm_Meta model"
  "bms_ServedName (bm_Spec (set_Revision r model)) = bms_ServedName (bm_Spec model)"
  by (simp_all add: set_Revision_def)

lemma engine_set_Revision:
  "engineArgs isvc (set_Revision r model) = engineArgs isvc model"
  "engineEnv (set_Revision r model) = engineEnv model"
  by (cases "model_HuggingFace model";
      simp add: engineArgs_def engineEnv_def ServedModelName_def Let_def)+

text \<open>The pinned revision is not rendered. Two models that differ only in
  \<open>huggingFace.revision\<close> give the same Deployment: the field the API documents as pinning a
  commit for deterministic weights never reaches the engine.\<close>

theorem revision_not_rendered:
  "renderDeployment isvc (set_Revision r model) cfg = renderDeployment isvc model cfg"
  by (simp add: renderDeployment_def container_def engine_set_Revision ResolveImage_def)

text \<open>The GPU memory fraction. For a non-negative percentage the decimals printed after
  \<open>0.\<close> denote that many hundredths exactly when the percentage is below 100, so on the whole
  range the API admits (1 to 99) and not at 100, which prints as one tenth.\<close>

theorem gpu_fraction_exact:
  assumes "0 \<le> sint p"
  shows "100 * read_nat (fmt_02d (sint p)) = nat (sint p) * 10 ^ length (fmt_02d (sint p))
    \<longleftrightarrow> sint (p :: int32) < 100"
proof (cases "sint p < 100")
  case True
  with assms show ?thesis by (simp add: length_fmt_02d read_fmt_02d)
next
  case False
  then have "3 \<le> length (dec_nat (nat (sint p)))" by (intro length_dec_nat_ge_3) simp
  moreover from this False have "fmt_02d (sint p) = dec_nat (nat (sint p))"
    by (simp add: fmt_02d_def fmt_d_def Let_def)
  ultimately have "(10::nat) ^ 3 \<le> 10 ^ length (fmt_02d (sint p))"
    by (intro power_increasing) simp_all
  with False have "100 * nat (sint p) < nat (sint p) * 10 ^ length (fmt_02d (sint p))"
    by (simp add: mult.commute)
  with False assms show ?thesis by (simp add: read_fmt_02d)
qed

theorem gpu_fraction_exact_witness:
  "100 * read_nat (fmt_02d 90) = nat 90 * 10 ^ length (fmt_02d 90)"
  using gpu_fraction_exact [of 90] by simp

lemma engineArgs_eq:
  "engineArgs isvc model = Some args \<longleftrightarrow>
     (\<exists>hf. model_HuggingFace model = Some hf \<and>
       args = (''--model='' @ hf_Repo hf) # (''--served-model-name='' @ ServedModelName model)
        # (if es_Quantization (iss_Engine (is_Spec isvc)) = [] then []
           else [''--quantization='' @ es_Quantization (iss_Engine (is_Spec isvc))])
        @ [''--max-model-len='' @ fmt_d (sint (es_MaxModelLen (iss_Engine (is_Spec isvc)))),
           ''--gpu-memory-utilization=0.''
             @ fmt_02d (sint (es_GPUMemoryUtilizationPercent (iss_Engine (is_Spec isvc)))),
           ''--host=0.0.0.0'', ''--port='' @ fmt_d (sint servingPort)])"
  by (cases "model_HuggingFace model") (auto simp: engineArgs_def Let_def)

text \<open>C32: The arguments lose nothing. Two workloads with the same argument list serve the same
  repository under the same public name with the same quantization, context window and GPU memory
  share, so every engine setting of the spec is visible to the engine.\<close>

theorem engineArgs_injective:
  assumes "engineArgs isvc model = Some args" and "engineArgs isvc' model' = Some args"
  shows "map_option hf_Repo (model_HuggingFace model) = map_option hf_Repo (model_HuggingFace model')
    \<and> ServedModelName model = ServedModelName model'
    \<and> iss_Engine (is_Spec isvc) = iss_Engine (is_Spec isvc')"
  using assms unfolding engineArgs_eq
  by (auto split: if_splits intro!: EngineSpec.equality)

theorem engineArgs_injective_witness:
  "ServedModelName prodModel = ServedModelName (set_Revision ''abc'' prodModel)"
  using engineArgs_injective [of prodService prodModel _ prodService "set_Revision ''abc'' prodModel"]
  by (simp add: engine_set_Revision engineArgs_prod)

subsection \<open>Names derived from an \<open>InferenceService\<close>\<close>

text \<open>The endpoint URL identifies the service: two services whose namespaces are DNS labels
  (no dot) have the same URL only if they have the same namespace and the same name.\<close>

theorem EndpointURL_injective:
  assumes "EndpointURL isvc = EndpointURL isvc'"
    and "CHR ''.'' \<notin> set (isvc_Namespace isvc)" and "CHR ''.'' \<notin> set (isvc_Namespace isvc')"
  shows "isvc_Namespace isvc = isvc_Namespace isvc' \<and> isvc_Name isvc = isvc_Name isvc'"
proof -
  have "(isvc_Name isvc @ ''-svc'') @ CHR ''.'' # isvc_Namespace isvc
      = (isvc_Name isvc' @ ''-svc'') @ CHR ''.'' # isvc_Namespace isvc'"
    using assms(1) by (simp add: EndpointURL_def ServiceName_def)
  from append_sep_inj_last [OF this assms(2,3)] show ?thesis by simp
qed

theorem EndpointURL_injective_witness:
  "isvc_Name prodService = isvc_Name (prodService\<lparr>is_Status := is_Status smokeService\<rparr>)"
  using EndpointURL_injective [of prodService "prodService\<lparr>is_Status := is_Status smokeService\<rparr>"]
  by (simp add: EndpointURL_def ServiceName_def prod_fields)

text \<open>The status hash is short and opaque: twelve hexadecimal digits for every blob, so a blob
  that is longer than that is not what the status shows.\<close>

theorem InitDataHash_short:
  "length (InitDataHash blob) = 12 \<and> (\<forall>c \<in> set (InitDataHash blob). is_hex_char c)"
  using EncodeToString_hex by (auto simp: InitDataHash_def dest: in_set_takeD)

text \<open>The golden manifest. For the production workload of the repository the renderer gives the
  Deployment, the Service and the ConfigMap of \<open>manifests/h100-vllm-cc.yaml\<close>, field by field.\<close>

theorem render_matches_golden:
  "renderDeployment prodService prodModel testConfig = Some (Inr goldenDeployment) \<and>
   renderService prodService =
     \<lparr>svc_TypeMeta = zero_TypeMeta,
      svc_Meta = zero_ObjectMeta\<lparr>om_Name := ''vllm-cc-svc'', om_Namespace := ''default''\<rparr>,
      svc_Selector = [''app'' \<mapsto> ''vllm-cc''],
      svc_Ports = [\<lparr>sp_Port = 8000, sp_TargetPort = 8000\<rparr>]\<rparr> \<and>
   EndpointURL prodService = ''http://vllm-cc-svc.default.svc.cluster.local:8000/v1''"
  by (simp add: render_prod renderService_def ServiceName_def prod_fields servingPort_def
      EndpointURL_def fmt_d_8000)

end
