(* ===== verification/Client.thy ===== *)
theory Client
  imports Render
begin

text \<open>
  The boundary of the program: everything the reconcilers call in controller-runtime, in
  apimachinery and on the API server is a field of the record \<open>kube\<close>, a parameter of the
  model. A client call takes the world \<open>'w\<close> it is made in and returns the response and the
  world after it, both arbitrary; so a theorem without a hypothesis on the client holds
  whatever the server answers and whatever other actors do between two calls. The state of a
  run pairs the world with the list of calls made so far, in order; that list is what the
  properties about effects (which writes, in which order, with which object) speak of.

  What the program relies on in these libraries is stated as locales, one per contract, from
  the libraries' documentation; the theory \<open>ApiServer\<close> interprets each of them.
\<close>

record 'w kube =
  k_isNotFound :: "ApiError \<Rightarrow> bool"
  k_ignoreNotFound :: "ApiError \<Rightarrow> ApiError option"
  k_timeEqual :: "Time \<Rightarrow> Time \<Rightarrow> bool"
  k_timeBefore :: "Time \<Rightarrow> Time \<Rightarrow> bool"
  k_isControlledBy :: "ObjectMeta \<Rightarrow> ObjectMeta \<Rightarrow> bool"
  k_setControllerReference :: "ObjectMeta \<Rightarrow> ObjectMeta \<Rightarrow> GoError + ObjectMeta"
  k_setStatusCondition :: "Condition list \<Rightarrow> Condition \<Rightarrow> Condition list"
  k_getInferenceService :: "NamespacedName \<Rightarrow> 'w \<Rightarrow> (ApiError + InferenceService) \<times> 'w"
  k_getBrukModel :: "NamespacedName \<Rightarrow> 'w \<Rightarrow> (ApiError + BrukModel) \<times> 'w"
  k_getBrukTenant :: "NamespacedName \<Rightarrow> 'w \<Rightarrow> (ApiError + BrukTenant) \<times> 'w"
  k_getSecret :: "NamespacedName \<Rightarrow> 'w \<Rightarrow> (ApiError + Secret) \<times> 'w"
  k_listInferenceServices :: "string option \<Rightarrow> 'w \<Rightarrow> (ApiError + InferenceService list) \<times> 'w"
  k_listDeployments :: "string option \<Rightarrow> 'w \<Rightarrow> (ApiError + Deployment list) \<times> 'w"
  k_listPods :: "string option \<Rightarrow> 'w \<Rightarrow> (ApiError + Pod list) \<times> 'w"
  k_applyConfigMap :: "ConfigMap \<Rightarrow> 'w \<Rightarrow> (ApiError + ConfigMap) \<times> 'w"
  k_applyDeployment :: "Deployment \<Rightarrow> 'w \<Rightarrow> (ApiError + Deployment) \<times> 'w"
  k_applyService :: "Service \<Rightarrow> 'w \<Rightarrow> (ApiError + Service) \<times> 'w"
  k_updateInferenceServiceStatus :: "InferenceService \<Rightarrow> 'w \<Rightarrow> ApiError option \<times> 'w"
  k_updateBrukModelStatus :: "BrukModel \<Rightarrow> 'w \<Rightarrow> ApiError option \<times> 'w"
  k_updateBrukTenantStatus :: "BrukTenant \<Rightarrow> 'w \<Rightarrow> ApiError option \<times> 'w"

subsection \<open>Calls and their log\<close>

text \<open>
  One constructor per client call of the program; the argument is what the call sends. A list
  carries its namespace option (\<open>client.InNamespace\<close>).
\<close>

datatype call =
    GetInferenceService NamespacedName
  | GetBrukModel NamespacedName
  | GetBrukTenant NamespacedName
  | GetSecret NamespacedName
  | ListInferenceServices "string option"
  | ListDeployments "string option"
  | ListPods "string option"
  | ApplyConfigMap ConfigMap
  | ApplyDeployment Deployment
  | ApplyService Service
  | UpdateInferenceServiceStatus InferenceService
  | UpdateBrukModelStatus BrukModel
  | UpdateBrukTenantStatus BrukTenant

record 'w sys =
  world :: 'w
  calls :: "call list"

definition invoke :: "call \<Rightarrow> ('w \<Rightarrow> 'a \<times> 'w) \<Rightarrow> ('w sys, 'a) state" where
  "invoke c f = State (\<lambda>s. case f (world s) of (r, w) \<Rightarrow> (r, s\<lparr>world := w, calls := calls s @ [c]\<rparr>))"

definition getInferenceService :: "'w kube \<Rightarrow> NamespacedName \<Rightarrow> ('w sys, ApiError + InferenceService) state" where
  "getInferenceService K key = invoke (GetInferenceService key) (k_getInferenceService K key)"

definition getBrukModel :: "'w kube \<Rightarrow> NamespacedName \<Rightarrow> ('w sys, ApiError + BrukModel) state" where
  "getBrukModel K key = invoke (GetBrukModel key) (k_getBrukModel K key)"

definition getBrukTenant :: "'w kube \<Rightarrow> NamespacedName \<Rightarrow> ('w sys, ApiError + BrukTenant) state" where
  "getBrukTenant K key = invoke (GetBrukTenant key) (k_getBrukTenant K key)"

definition getSecret :: "'w kube \<Rightarrow> NamespacedName \<Rightarrow> ('w sys, ApiError + Secret) state" where
  "getSecret K key = invoke (GetSecret key) (k_getSecret K key)"

definition listInferenceServices :: "'w kube \<Rightarrow> string option \<Rightarrow> ('w sys, ApiError + InferenceService list) state" where
  "listInferenceServices K ns = invoke (ListInferenceServices ns) (k_listInferenceServices K ns)"

definition listDeployments :: "'w kube \<Rightarrow> string option \<Rightarrow> ('w sys, ApiError + Deployment list) state" where
  "listDeployments K ns = invoke (ListDeployments ns) (k_listDeployments K ns)"

definition listPods :: "'w kube \<Rightarrow> string option \<Rightarrow> ('w sys, ApiError + Pod list) state" where
  "listPods K ns = invoke (ListPods ns) (k_listPods K ns)"

definition applyConfigMap :: "'w kube \<Rightarrow> ConfigMap \<Rightarrow> ('w sys, ApiError + ConfigMap) state" where
  "applyConfigMap K cm = invoke (ApplyConfigMap cm) (k_applyConfigMap K cm)"

definition applyDeployment :: "'w kube \<Rightarrow> Deployment \<Rightarrow> ('w sys, ApiError + Deployment) state" where
  "applyDeployment K d = invoke (ApplyDeployment d) (k_applyDeployment K d)"

definition applyService :: "'w kube \<Rightarrow> Service \<Rightarrow> ('w sys, ApiError + Service) state" where
  "applyService K s = invoke (ApplyService s) (k_applyService K s)"

definition updateInferenceServiceStatus :: "'w kube \<Rightarrow> InferenceService \<Rightarrow> ('w sys, ApiError option) state" where
  "updateInferenceServiceStatus K i =
     invoke (UpdateInferenceServiceStatus i) (k_updateInferenceServiceStatus K i)"

definition updateBrukModelStatus :: "'w kube \<Rightarrow> BrukModel \<Rightarrow> ('w sys, ApiError option) state" where
  "updateBrukModelStatus K m = invoke (UpdateBrukModelStatus m) (k_updateBrukModelStatus K m)"

definition updateBrukTenantStatus :: "'w kube \<Rightarrow> BrukTenant \<Rightarrow> ('w sys, ApiError option) state" where
  "updateBrukTenantStatus K t = invoke (UpdateBrukTenantStatus t) (k_updateBrukTenantStatus K t)"

lemmas client_call_defs = getInferenceService_def getBrukModel_def getBrukTenant_def getSecret_def
  listInferenceServices_def listDeployments_def listPods_def applyConfigMap_def applyDeployment_def
  applyService_def updateInferenceServiceStatus_def updateBrukModelStatus_def
  updateBrukTenantStatus_def

subsection \<open>Results\<close>

text \<open>
  What a \<open>Reconcile\<close> ends with: it returns the zero \<open>ctrl.Result\<close> and an error or nil
  (the program never asks for a requeue with a delay), or it panics on a nil dereference.
\<close>

datatype reconcile_outcome = Returned "GoError option" | Panicked

subsection \<open>Evaluation of a run\<close>

lemma run_state_invoke [go_simps]:
  "run_state (invoke c f) s = (case f (world s) of (r, w) \<Rightarrow> (r, s\<lparr>world := w, calls := calls s @ [c]\<rparr>))"
  by (simp add: invoke_def)

lemma run_state_if [go_simps]:
  "run_state (if b then m else n) s = (if b then run_state m s else run_state n s)"
  by simp

subsection \<open>Runs\<close>

text \<open>
  A run in a world: the result, the world after it and the calls it made, in order. The
  reads are the calls that change nothing on the server; the rest are writes.
\<close>

definition run :: "('w sys, 'a) state \<Rightarrow> 'w \<Rightarrow> 'a \<times> 'w \<times> call list" where
  "run m w = (case run_state m \<lparr>world = w, calls = []\<rparr> of (r, s) \<Rightarrow> (r, world s, calls s))"

fun is_write :: "call \<Rightarrow> bool" where
  "is_write (ApplyConfigMap _) = True"
| "is_write (ApplyDeployment _) = True"
| "is_write (ApplyService _) = True"
| "is_write (UpdateInferenceServiceStatus _) = True"
| "is_write (UpdateBrukModelStatus _) = True"
| "is_write (UpdateBrukTenantStatus _) = True"
| "is_write _ = False"

definition writes :: "call list \<Rightarrow> call list" where
  "writes cs = filter is_write cs"

lemma writes_simps [simp]:
  "writes [] = []" "writes (c # cs) = (if is_write c then c # writes cs else writes cs)"
  "writes (cs @ cs') = writes cs @ writes cs'"
  by (simp_all add: writes_def)

subsection \<open>Contracts of the libraries\<close>

text \<open>
  \<open>client.IgnoreNotFound\<close>: "returns nil on NotFound errors; all other values that are not
  NotFound errors or nil are returned unmodified".
\<close>

locale not_found =
  fixes isNotFound :: "ApiError \<Rightarrow> bool" and ignoreNotFound :: "ApiError \<Rightarrow> ApiError option"
  assumes ignore_iff: "ignoreNotFound e = (if isNotFound e then None else Some e)"
begin

lemma ignored: "ignoreNotFound e = None \<longleftrightarrow> isNotFound e"
  by (simp add: ignore_iff)

end

text \<open>
  \<open>meta.SetStatusCondition\<close>: "sets the corresponding condition in conditions to newCondition":
  the condition of that type is then the new one, and the others are untouched. Conditions are
  compared by everything but the transition time, which the model leaves out.
\<close>

locale status_conditions =
  fixes setStatusCondition :: "Condition list \<Rightarrow> Condition \<Rightarrow> Condition list"
  assumes find_set_same: "findCondition (setStatusCondition cs c) (c_Type c) = Some c"
    and find_set_other: "t \<noteq> c_Type c \<Longrightarrow>
      findCondition (setStatusCondition cs c) t = findCondition cs t"
begin

lemma find_set: "findCondition (setStatusCondition cs c) t =
    (if t = c_Type c then Some c else findCondition cs t)"
  by (simp add: find_set_same find_set_other)

end

text \<open>
  \<open>metav1.Time.Equal\<close> and \<open>Before\<close> compare two instants (neither pointer is nil in the
  program).
\<close>

locale instants =
  fixes timeEqual timeBefore :: "Time \<Rightarrow> Time \<Rightarrow> bool"
  assumes equal_iff: "timeEqual a b \<longleftrightarrow> a = b"
    and before_irrefl: "\<not> timeBefore a a"
    and before_trans: "timeBefore a b \<Longrightarrow> timeBefore b c \<Longrightarrow> timeBefore a c"
    and before_total: "a \<noteq> b \<Longrightarrow> timeBefore a b \<or> timeBefore b a"
begin

lemma before_asym: "timeBefore a b \<Longrightarrow> \<not> timeBefore b a"
  using before_irrefl before_trans by blast

end

text \<open>
  \<open>controllerutil.SetControllerReference(owner, object)\<close> makes the owner the managing controller
  of the object and changes nothing but its owner references;
  \<open>metav1.IsControlledBy(object, owner)\<close> says whether it is. An object without owner
  references can always be given one, its owner being in the same namespace; an object
  controlled by one owner is not controlled by an owner with another UID.
\<close>

locale controller_references =
  fixes isControlledBy :: "ObjectMeta \<Rightarrow> ObjectMeta \<Rightarrow> bool"
    and setControllerReference :: "ObjectMeta \<Rightarrow> ObjectMeta \<Rightarrow> GoError + ObjectMeta"
  assumes set_controls: "setControllerReference owner m = Inr m' \<Longrightarrow> isControlledBy m' owner"
    and set_frame: "setControllerReference owner m = Inr m' \<Longrightarrow>
      m'\<lparr>om_OwnerReferences := om_OwnerReferences m\<rparr> = m"
    and set_fresh: "om_OwnerReferences m = [] \<Longrightarrow> om_Namespace m = om_Namespace owner \<Longrightarrow>
      \<exists>m'. setControllerReference owner m = Inr m'"
    and one_controller: "isControlledBy m owner \<Longrightarrow> isControlledBy m owner' \<Longrightarrow>
      om_UID owner = om_UID owner'"
begin

lemma set_key:
  assumes "setControllerReference owner m = Inr m'"
  shows "om_Name m' = om_Name m" "om_Namespace m' = om_Namespace m" "om_Labels m' = om_Labels m"
  using set_frame [OF assms] by (cases m; cases m'; simp)+

end

text \<open>The three contracts the status and ownership code relies on together.\<close>

locale kube_library =
  nf: not_found "k_isNotFound K" "k_ignoreNotFound K" +
  sc: status_conditions "k_setStatusCondition K" +
  ti: instants "k_timeEqual K" "k_timeBefore K" +
  cr: controller_references "k_isControlledBy K" "k_setControllerReference K"
  for K :: "'w kube"

end
