(* ===== verification/ServiceController.thy ===== *)
theory ServiceController
  imports Client
begin

text \<open>
  \<open>internal/controller/inferenceservice_controller.go\<close>: the reconciler that renders and applies
  the workload of an \<open>InferenceService\<close> and keeps its status. \<open>Reconcile\<close> is one Go
  function; it is split here after each of the three objects it reads (\<open>ReconcileISVC\<close>,
  \<open>reconcileTenantConfig\<close>, \<open>reconcileModel\<close>), where the spec and the trusted store are checked
  (\<open>reconcileChecked\<close>) and where the children are applied (\<open>reconcileApply\<close>).
\<close>

subsection \<open>The trusted-store guard\<close>

definition precedes :: "'w kube \<Rightarrow> InferenceService \<Rightarrow> InferenceService \<Rightarrow> bool" where
  "precedes K a b =
     (let ta = om_CreationTimestamp (is_Meta a); tb = om_CreationTimestamp (is_Meta b) in
      if \<not> k_timeEqual K ta tb then k_timeBefore K ta tb else isvc_Name a < isvc_Name b)"

fun volumesMountClaim :: "Volume list \<Rightarrow> string \<Rightarrow> bool" where
  "volumesMountClaim [] claim = False"
| "volumesMountClaim (v # vs) claim =
     (if v_PersistentVolumeClaim v = Some claim then True else volumesMountClaim vs claim)"

definition podSpecMountsClaim :: "PodSpec \<Rightarrow> string \<Rightarrow> bool" where
  "podSpecMountsClaim spec claim = volumesMountClaim (ps_Volumes spec) claim"

text \<open>The three loops of \<open>trustedStoreConflict\<close>; each returns the message of its first hit.\<close>

fun siblingConflict :: "'w kube \<Rightarrow> InferenceService \<Rightarrow> InferenceService list \<Rightarrow> string option" where
  "siblingConflict K isvc [] = None"
| "siblingConflict K isvc (other # rest) =
     (if isvc_Name other = isvc_Name isvc \<or> isvc_Claim other \<noteq> isvc_Claim isvc then
        siblingConflict K isvc rest
      else if precedes K other isvc then
        Some (''InferenceService '' @ fmt_q (isvc_Name other) @ '' already claims trusted-store PVC ''
              @ fmt_q (isvc_Claim isvc) @ '' (one workload per PVC)'')
      else siblingConflict K isvc rest)"

fun deploymentConflict :: "'w kube \<Rightarrow> InferenceService \<Rightarrow> Deployment list \<Rightarrow> string option" where
  "deploymentConflict K isvc [] = None"
| "deploymentConflict K isvc (d # rest) =
     (if k_isControlledBy K (d_Meta d) (is_Meta isvc) then deploymentConflict K isvc rest
      else if podSpecMountsClaim (pt_Spec (ds_Template (d_Spec d))) (isvc_Claim isvc) then
        Some (''Deployment '' @ fmt_q (om_Name (d_Meta d))
              @ '' (not managed by this InferenceService) already mounts trusted-store PVC ''
              @ fmt_q (isvc_Claim isvc))
      else deploymentConflict K isvc rest)"

fun podConflict :: "InferenceService \<Rightarrow> Pod list \<Rightarrow> string option" where
  "podConflict isvc [] = None"
| "podConflict isvc (p # rest) =
     (if length (om_OwnerReferences (pod_Meta p)) > 0 then podConflict isvc rest
      else if podSpecMountsClaim (pod_Spec p) (isvc_Claim isvc) then
        Some (''standalone Pod '' @ fmt_q (om_Name (pod_Meta p)) @ '' already mounts trusted-store PVC ''
              @ fmt_q (isvc_Claim isvc))
      else podConflict isvc rest)"

text \<open>\<open>trustedStoreConflict\<close> with its three stages, each listing and looping.\<close>

definition podGuard :: "'w kube \<Rightarrow> InferenceService \<Rightarrow> ('w sys, GoError + string) state" where
  "podGuard K isvc = do {
     pods \<leftarrow> listPods K (Some (isvc_Namespace isvc));
     State_Monad.return
       (case pods of
          Inl err \<Rightarrow> Inl (Api err)
        | Inr ps \<Rightarrow> Inr (case podConflict isvc ps of Some msg \<Rightarrow> msg | None \<Rightarrow> []))
   }"

definition deploymentGuard :: "'w kube \<Rightarrow> InferenceService \<Rightarrow> ('w sys, GoError + string) state" where
  "deploymentGuard K isvc = do {
     deployments \<leftarrow> listDeployments K (Some (isvc_Namespace isvc));
     case deployments of
       Inl err \<Rightarrow> State_Monad.return (Inl (Api err))
     | Inr ds \<Rightarrow>
         (case deploymentConflict K isvc ds of
            Some msg \<Rightarrow> State_Monad.return (Inr msg)
          | None \<Rightarrow> podGuard K isvc)
   }"

definition trustedStoreConflict ::
    "'w kube \<Rightarrow> InferenceService \<Rightarrow> ('w sys, GoError + string) state" where
  "trustedStoreConflict K isvc = do {
     siblings \<leftarrow> listInferenceServices K (Some (isvc_Namespace isvc));
     case siblings of
       Inl err \<Rightarrow> State_Monad.return (Inl (Api err))
     | Inr sibs \<Rightarrow>
         (case siblingConflict K isvc sibs of
            Some msg \<Rightarrow> State_Monad.return (Inr msg)
          | None \<Rightarrow> deploymentGuard K isvc)
   }"

subsection \<open>Status\<close>

definition setCondition ::
    "'w kube \<Rightarrow> string \<Rightarrow> string \<Rightarrow> string \<Rightarrow> string \<Rightarrow> InferenceService \<Rightarrow> InferenceService" where
  "setCondition K condType status reason message isvc =
     isvc\<lparr>is_Status := (is_Status isvc)\<lparr>ist_Conditions :=
       k_setStatusCondition K (ist_Conditions (is_Status isvc))
         \<lparr>c_Type = condType, c_Status = status, c_Reason = reason, c_Message = message,
          c_ObservedGeneration = om_Generation (is_Meta isvc)\<rparr>\<rparr>\<rparr>"

definition setObservedGeneration :: "InferenceService \<Rightarrow> InferenceService" where
  "setObservedGeneration isvc =
     isvc\<lparr>is_Status := (is_Status isvc)\<lparr>ist_ObservedGeneration := om_Generation (is_Meta isvc)\<rparr>\<rparr>"

definition failedService :: "'w kube \<Rightarrow> string \<Rightarrow> string \<Rightarrow> InferenceService \<Rightarrow> InferenceService" where
  "failedService K reason message isvc =
     setObservedGeneration
       (setCondition K ConditionProgressing ConditionFalse reason message
         (setCondition K ConditionReady ConditionFalse reason message
           (setCondition K ConditionConfigured ConditionFalse reason message isvc)))"

definition failConfigured ::
    "'w kube \<Rightarrow> InferenceService \<Rightarrow> string \<Rightarrow> string \<Rightarrow> ('w sys, reconcile_outcome) state" where
  "failConfigured K isvc reason message = do {
     err \<leftarrow> updateInferenceServiceStatus K (failedService K reason message isvc);
     State_Monad.return (Returned (map_option Api err))
   }"

definition DeploymentAvailable :: string where "DeploymentAvailable = ''Available''"

fun conditionsAvailable :: "DeploymentCondition list \<Rightarrow> bool" where
  "conditionsAvailable [] = False"
| "conditionsAvailable (c # cs) =
     (if dc_Type c = DeploymentAvailable \<and> dc_Status c = ConditionTrue then True
      else conditionsAvailable cs)"

definition deploymentAvailable :: "Deployment \<Rightarrow> bool" where
  "deploymentAvailable d = conditionsAvailable (d_StatusConditions d)"

definition pendingMessage :: string where
  "pendingMessage = ''Deployment not yet Available (CC guest boot + guest-pull can take 15-25 min)''"

definition readyService ::
    "'w kube \<Rightarrow> InferenceService \<Rightarrow> BrukModel \<Rightarrow> Deployment \<Rightarrow> Config \<Rightarrow> InferenceService" where
  "readyService K isvc model deployment cfg =
     (let isvc1 = setCondition K ConditionConfigured ConditionTrue ReasonConfigured
                    ''workload rendered and applied'' isvc;
          isvc2 =
            (if deploymentAvailable deployment then
               setCondition K ConditionProgressing ConditionFalse ReasonWorkloadReady ''rollout complete''
                 (setCondition K ConditionReady ConditionTrue ReasonWorkloadReady ''workload is serving''
                   (setCondition K ConditionWorkloadAvailable ConditionTrue ReasonWorkloadReady
                      ''Deployment is Available'' isvc1))
             else
               setCondition K ConditionProgressing ConditionTrue ReasonDeploying pendingMessage
                 (setCondition K ConditionReady ConditionFalse ReasonWorkloadPending pendingMessage
                   (setCondition K ConditionWorkloadAvailable ConditionFalse ReasonWorkloadPending
                      pendingMessage isvc1)));
          resolvedImage = (case ResolveImage isvc cfg of Inl err \<Rightarrow> [] | Inr img \<Rightarrow> img)
      in setObservedGeneration
           (isvc2\<lparr>is_Status := (is_Status isvc2)
              \<lparr>ist_Endpoint := Some \<lparr>ep_URL = EndpointURL isvc\<rparr>,
               ist_ServedModelName := ServedModelName model,
               ist_ResolvedImage := resolvedImage,
               ist_AppliedInitDataHash := InitDataHash (cfg_InitDataB64 cfg)\<rparr>\<rparr>))"

definition updateReadyStatus ::
    "'w kube \<Rightarrow> InferenceService \<Rightarrow> BrukModel \<Rightarrow> Deployment \<Rightarrow> Config
      \<Rightarrow> ('w sys, reconcile_outcome) state" where
  "updateReadyStatus K isvc model deployment cfg = do {
     err \<leftarrow> updateInferenceServiceStatus K (readyService K isvc model deployment cfg);
     State_Monad.return (Returned (map_option Api err))
   }"

subsection \<open>Applying the children\<close>

text \<open>
  The objects as they are sent: the rendered ones with their type and, for the Deployment and
  the Service, the \<open>InferenceService\<close> as controller. The ConfigMap has no owner: it is shared
  by the namespace.
\<close>

definition gaiObject :: "InferenceService \<Rightarrow> ConfigMap" where
  "gaiObject isvc = (renderGaiConfigMap (isvc_Namespace isvc))
     \<lparr>cm_TypeMeta := \<lparr>tm_APIVersion = ''v1'', tm_Kind = ''ConfigMap''\<rparr>\<rparr>"

definition ownedDeployment :: "'w kube \<Rightarrow> InferenceService \<Rightarrow> Deployment \<Rightarrow> GoError + Deployment" where
  "ownedDeployment K isvc rendered =
     (let deployment = rendered
            \<lparr>d_TypeMeta := \<lparr>tm_APIVersion = ''apps/v1'', tm_Kind = ''Deployment''\<rparr>\<rparr>
      in case k_setControllerReference K (is_Meta isvc) (d_Meta deployment) of
           Inl err \<Rightarrow> Inl err
         | Inr m \<Rightarrow> Inr (deployment\<lparr>d_Meta := m\<rparr>))"

definition ownedService :: "'w kube \<Rightarrow> InferenceService \<Rightarrow> GoError + Service" where
  "ownedService K isvc =
     (let service = (renderService isvc)
            \<lparr>svc_TypeMeta := \<lparr>tm_APIVersion = ''v1'', tm_Kind = ''Service''\<rparr>\<rparr>
      in case k_setControllerReference K (is_Meta isvc) (svc_Meta service) of
           Inl err \<Rightarrow> Inl err
         | Inr m \<Rightarrow> Inr (service\<lparr>svc_Meta := m\<rparr>))"

definition applyGaiConfigMap ::
    "'w kube \<Rightarrow> InferenceService \<Rightarrow> ('w sys, GoError option) state" where
  "applyGaiConfigMap K isvc =
     (if isvc_WeightsCache isvc \<noteq> None then do {
        r \<leftarrow> applyConfigMap K (gaiObject isvc);
        State_Monad.return
          (case r of Inl err \<Rightarrow> Some (Wrapf ''applying gai ConfigMap: '' (Api err)) | Inr _ \<Rightarrow> None)
      } else State_Monad.return None)"

definition applyOwnedDeployment ::
    "'w kube \<Rightarrow> InferenceService \<Rightarrow> Deployment \<Rightarrow> ('w sys, GoError + Deployment) state" where
  "applyOwnedDeployment K isvc rendered =
     (case ownedDeployment K isvc rendered of
        Inl err \<Rightarrow> State_Monad.return (Inl err)
      | Inr deployment \<Rightarrow> do {
          r \<leftarrow> applyDeployment K deployment;
          State_Monad.return
            (case r of Inl err \<Rightarrow> Inl (Wrapf ''applying Deployment: '' (Api err)) | Inr d \<Rightarrow> Inr d)
        })"

definition applyOwnedService ::
    "'w kube \<Rightarrow> InferenceService \<Rightarrow> ('w sys, GoError option) state" where
  "applyOwnedService K isvc =
     (case ownedService K isvc of
        Inl err \<Rightarrow> State_Monad.return (Some err)
      | Inr service \<Rightarrow> do {
          r \<leftarrow> applyService K service;
          State_Monad.return
            (case r of Inl err \<Rightarrow> Some (Wrapf ''applying Service: '' (Api err)) | Inr _ \<Rightarrow> None)
        })"

definition applyServiceAndStatus ::
    "'w kube \<Rightarrow> InferenceService \<Rightarrow> BrukModel \<Rightarrow> Config \<Rightarrow> Deployment
      \<Rightarrow> ('w sys, reconcile_outcome) state" where
  "applyServiceAndStatus K isvc model cfg deployment = do {
     sr \<leftarrow> applyOwnedService K isvc;
     case sr of
       Some err \<Rightarrow> State_Monad.return (Returned (Some err))
     | None \<Rightarrow> updateReadyStatus K isvc model deployment cfg
   }"

definition reconcileApply ::
    "'w kube \<Rightarrow> InferenceService \<Rightarrow> BrukModel \<Rightarrow> Config \<Rightarrow> ('w sys, reconcile_outcome) state" where
  "reconcileApply K isvc model cfg = do {
     cm \<leftarrow> applyGaiConfigMap K isvc;
     case cm of
       Some err \<Rightarrow> State_Monad.return (Returned (Some err))
     | None \<Rightarrow>
         (case renderDeployment isvc model cfg of
            None \<Rightarrow> State_Monad.return Panicked
          | Some (Inl err) \<Rightarrow> failConfigured K isvc ReasonInvalidConfig (error_text err)
          | Some (Inr rendered) \<Rightarrow> do {
              dr \<leftarrow> applyOwnedDeployment K isvc rendered;
              case dr of
                Inl err \<Rightarrow> State_Monad.return (Returned (Some err))
              | Inr deployment \<Rightarrow> applyServiceAndStatus K isvc model cfg deployment
            })
   }"

subsection \<open>Reconcile\<close>

text \<open>The checks on the spec that need no call, in the code's order: a reason and a message.\<close>

definition specProblem :: "InferenceService \<Rightarrow> BrukModel \<Rightarrow> (string \<times> string) option" where
  "specProblem isvc model =
     (if isvc_LocalVolume isvc \<noteq> None then
        Some (ReasonNotImplemented,
              ''storage.trustedStore.localVolume is reserved; use existingClaim in v1alpha1'')
      else if model_HuggingFace model = None then
        Some (ReasonInvalidConfig,
              ''BrukModel '' @ fmt_q (om_Name (bm_Meta model)) @ '' has no huggingFace source'')
      else if sint (es_MaxModelLen (iss_Engine (is_Spec isvc)))
                > sint (cat_ContextLength (bms_Catalog (bm_Spec model))) then
        Some (ReasonInvalidConfig,
              ''engine.maxModelLen '' @ fmt_d (sint (es_MaxModelLen (iss_Engine (is_Spec isvc))))
              @ '' exceeds the model's native contextLength ''
              @ fmt_d (sint (cat_ContextLength (bms_Catalog (bm_Spec model)))))
      else None)"

definition tenantConfig :: "BrukTenant \<Rightarrow> Config" where
  "tenantConfig tenant =
     \<lparr>cfg_InitDataB64 = cc_InitDataB64 (bts_Confidential (bt_Spec tenant)),
      cfg_DefaultImage = ed_DefaultImage (bts_Engine (bt_Spec tenant))\<rparr>"

definition reconcileChecked ::
    "'w kube \<Rightarrow> InferenceService \<Rightarrow> BrukTenant \<Rightarrow> BrukModel \<Rightarrow> ('w sys, reconcile_outcome) state" where
  "reconcileChecked K isvc tenant model =
     (case specProblem isvc model of
        Some (reason, message) \<Rightarrow> failConfigured K isvc reason message
      | None \<Rightarrow> do {
          conflict \<leftarrow> trustedStoreConflict K isvc;
          case conflict of
            Inl err \<Rightarrow> State_Monad.return (Returned (Some err))
          | Inr conflictMsg \<Rightarrow>
              (if conflictMsg \<noteq> [] then failConfigured K isvc ReasonTrustedStoreConflict conflictMsg
               else reconcileApply K isvc model (tenantConfig tenant))
        })"

definition tenantKey :: NamespacedName where
  "tenantKey = \<lparr>nn_Namespace = [], nn_Name = BrukTenantName\<rparr>"

definition modelKey :: "InferenceService \<Rightarrow> NamespacedName" where
  "modelKey isvc =
     \<lparr>nn_Namespace = isvc_Namespace isvc, nn_Name = lr_Name (iss_ModelRef (is_Spec isvc))\<rparr>"

definition modelNotFoundMessage :: "InferenceService \<Rightarrow> string" where
  "modelNotFoundMessage isvc =
     ''BrukModel '' @ fmt_q (lr_Name (iss_ModelRef (is_Spec isvc))) @ '' not found in namespace ''
     @ isvc_Namespace isvc"

definition tenantMissingMessage :: string where
  "tenantMissingMessage =
     ''BrukTenant 'cluster' not found; per-cluster config (initdata, default image) unavailable''"

definition reconcileModel ::
    "'w kube \<Rightarrow> InferenceService \<Rightarrow> BrukTenant \<Rightarrow> ('w sys, reconcile_outcome) state" where
  "reconcileModel K isvc tenant = do {
     rm \<leftarrow> getBrukModel K (modelKey isvc);
     case rm of
       Inl err \<Rightarrow>
         (if k_isNotFound K err then
            failConfigured K isvc ReasonModelNotFound (modelNotFoundMessage isvc)
          else State_Monad.return (Returned (Some (Api err))))
     | Inr model \<Rightarrow> reconcileChecked K isvc tenant model
   }"

definition reconcileTenantConfig ::
    "'w kube \<Rightarrow> InferenceService \<Rightarrow> ('w sys, reconcile_outcome) state" where
  "reconcileTenantConfig K isvc = do {
     rt \<leftarrow> getBrukTenant K tenantKey;
     case rt of
       Inl err \<Rightarrow>
         (if k_isNotFound K err then
            failConfigured K isvc ReasonTenantConfigMissing tenantMissingMessage
          else State_Monad.return (Returned (Some (Api err))))
     | Inr tenant \<Rightarrow> reconcileModel K isvc tenant
   }"

definition ReconcileISVC :: "'w kube \<Rightarrow> NamespacedName \<Rightarrow> ('w sys, reconcile_outcome) state" where
  "ReconcileISVC K req = do {
     ri \<leftarrow> getInferenceService K req;
     case ri of
       Inl err \<Rightarrow> State_Monad.return (Returned (map_option Api (k_ignoreNotFound K err)))
     | Inr isvc \<Rightarrow> reconcileTenantConfig K isvc
   }"

subsection \<open>Watches\<close>

definition servicesForModel ::
    "'w kube \<Rightarrow> NamespacedName \<Rightarrow> ('w sys, NamespacedName list) state" where
  "servicesForModel K obj = do {
     services \<leftarrow> listInferenceServices K (Some (nn_Namespace obj));
     State_Monad.return
       (case services of
          Inl err \<Rightarrow> []
        | Inr items \<Rightarrow>
            map (\<lambda>i. meta_key (is_Meta i))
              (filter (\<lambda>i. lr_Name (iss_ModelRef (is_Spec i)) = nn_Name obj) items))
   }"

definition allServices :: "'w kube \<Rightarrow> ('w sys, NamespacedName list) state" where
  "allServices K = do {
     services \<leftarrow> listInferenceServices K None;
     State_Monad.return
       (case services of Inl err \<Rightarrow> [] | Inr items \<Rightarrow> map (\<lambda>i. meta_key (is_Meta i)) items)
   }"

end
