(* ===== verification/ServiceRuns.thy ===== *)
theory ServiceRuns
  imports ServiceController
begin

text \<open>
  The runs of the \<open>InferenceService\<close> reconciler, by how they end: without a write, with a
  failure status, or through the application of the children, with what was read and checked
  before. The properties of the reconciler follow by cases on these rules.
\<close>

subsection \<open>What the status functions leave alone\<close>

lemma status_meta [simp]:
  "is_Meta (setCondition K t st r m i) = is_Meta i" "is_Meta (setObservedGeneration i) = is_Meta i"
  "is_Spec (setCondition K t st r m i) = is_Spec i" "is_Spec (setObservedGeneration i) = is_Spec i"
  by (simp_all add: setCondition_def setObservedGeneration_def)

lemma readyService_meta [simp]:
  "is_Meta (readyService K i m d cfg) = is_Meta i" "is_Spec (readyService K i m d cfg) = is_Spec i"
  by (simp_all add: readyService_def Let_def)

lemma failedService_meta [simp]:
  "is_Meta (failedService K r msg i) = is_Meta i" "is_Spec (failedService K r msg i) = is_Spec i"
  by (simp_all add: failedService_def)

subsection \<open>The guard of the trusted store\<close>

lemma siblingConflict_nonempty: "siblingConflict K isvc sibs = Some msg \<Longrightarrow> msg \<noteq> []"
  by (induction sibs) (auto split: if_splits)

lemma deploymentConflict_nonempty: "deploymentConflict K isvc ds = Some msg \<Longrightarrow> msg \<noteq> []"
  by (induction ds) (auto split: if_splits)

lemma podConflict_nonempty: "podConflict isvc ps = Some msg \<Longrightarrow> msg \<noteq> []"
  by (induction ps) (auto split: if_splits)

text \<open>Which lists make a loop find nothing.\<close>

lemma siblingConflict_None:
  "siblingConflict K isvc sibs = None \<longleftrightarrow>
     (\<forall>o' \<in> set sibs. isvc_Name o' \<noteq> isvc_Name isvc \<longrightarrow> isvc_Claim o' = isvc_Claim isvc \<longrightarrow>
        \<not> precedes K o' isvc)"
  by (induction sibs) auto

lemma deploymentConflict_None:
  "deploymentConflict K isvc ds = None \<longleftrightarrow>
     (\<forall>d \<in> set ds. k_isControlledBy K (d_Meta d) (is_Meta isvc) \<or>
        \<not> podSpecMountsClaim (pt_Spec (ds_Template (d_Spec d))) (isvc_Claim isvc))"
  by (induction ds) auto

lemma podConflict_None:
  "podConflict isvc ps = None \<longleftrightarrow>
     (\<forall>p \<in> set ps. om_OwnerReferences (pod_Meta p) \<noteq> [] \<or>
        \<not> podSpecMountsClaim (pod_Spec p) (isvc_Claim isvc))"
  by (induction ps) auto

text \<open>What a run of the guard that lets the workload pass has seen.\<close>

definition store_free ::
    "'w kube \<Rightarrow> InferenceService \<Rightarrow> 'w \<Rightarrow> InferenceService list \<Rightarrow> Deployment list \<Rightarrow> Pod list
      \<Rightarrow> 'w \<Rightarrow> bool" where
  "store_free K isvc w sibs ds ps w' \<longleftrightarrow>
     (case k_listInferenceServices K (Some (isvc_Namespace isvc)) w of (ri, w1) \<Rightarrow>
      case k_listDeployments K (Some (isvc_Namespace isvc)) w1 of (rd, w2) \<Rightarrow>
      case k_listPods K (Some (isvc_Namespace isvc)) w2 of (rp, w3) \<Rightarrow>
        ri = Inr sibs \<and> rd = Inr ds \<and> rp = Inr ps \<and> w' = w3) \<and>
     siblingConflict K isvc sibs = None \<and> deploymentConflict K isvc ds = None \<and>
     podConflict isvc ps = None"

definition guard_calls :: "InferenceService \<Rightarrow> call list" where
  "guard_calls isvc =
     [ListInferenceServices (Some (isvc_Namespace isvc)),
      ListDeployments (Some (isvc_Namespace isvc)), ListPods (Some (isvc_Namespace isvc))]"

text \<open>
  Every stage either ends the guard (an error, or a message, after calls of the guard only) or
  hands over to the next; \<open>guard_end\<close> is the first of the two.
\<close>

definition guard_end :: "InferenceService \<Rightarrow> 'w sys \<Rightarrow> (GoError + string) \<times> 'w sys \<Rightarrow> bool" where
  "guard_end isvc s rs \<longleftrightarrow>
     (\<exists>w cs. snd rs = s\<lparr>world := w, calls := calls s @ cs\<rparr> \<and> set cs \<subseteq> set (guard_calls isvc)) \<and>
     fst rs \<noteq> Inr []"

lemma guard_endI:
  "set cs \<subseteq> set (guard_calls isvc) \<Longrightarrow> r \<noteq> Inr [] \<Longrightarrow>
   guard_end isvc s (r, s\<lparr>world := w, calls := calls s @ cs\<rparr>)"
  unfolding guard_end_def by auto

lemma podGuard_cases:
  obtains (ended) "guard_end isvc s (run_state (podGuard K isvc) s)"
  | (free) ps w where "k_listPods K (Some (isvc_Namespace isvc)) (world s) = (Inr ps, w)"
      "podConflict isvc ps = None"
      "run_state (podGuard K isvc) s =
         (Inr [], s\<lparr>world := w, calls := calls s @ [ListPods (Some (isvc_Namespace isvc))]\<rparr>)"
proof -
  obtain rp w where rp: "k_listPods K (Some (isvc_Namespace isvc)) (world s) = (rp, w)" by fastforce
  note defs = podGuard_def client_call_defs go_simps
  show thesis
  proof (cases "\<exists>ps. rp = Inr ps \<and> podConflict isvc ps = None")
    case True
    with rp free show thesis by (auto simp: defs)
  next
    case False
    with rp have "guard_end isvc s (run_state (podGuard K isvc) s)"
      using guard_endI [of "[ListPods (Some (isvc_Namespace isvc))]" isvc _ s w]
      by (auto simp: defs guard_calls_def podConflict_nonempty split: sum.splits option.splits)
    then show thesis by (rule ended)
  qed
qed

lemma guard_end_extend:
  assumes "guard_end isvc (s\<lparr>world := w, calls := calls s @ cs\<rparr>) rs" and "set cs \<subseteq> set (guard_calls isvc)"
  shows "guard_end isvc s rs"
proof -
  from assms(1) obtain w' cs' where "snd rs = s\<lparr>world := w', calls := calls s @ cs @ cs'\<rparr>"
    "set cs' \<subseteq> set (guard_calls isvc)" "fst rs \<noteq> Inr []"
    by (auto simp: guard_end_def)
  with assms(2) show ?thesis
    unfolding guard_end_def by (intro conjI exI [of _ w'] exI [of _ "cs @ cs'"]) simp_all
qed

lemma deploymentGuard_cases:
  obtains (ended) "guard_end isvc s (run_state (deploymentGuard K isvc) s)"
  | (free) ds w1 where "k_listDeployments K (Some (isvc_Namespace isvc)) (world s) = (Inr ds, w1)"
      "deploymentConflict K isvc ds = None"
      "run_state (deploymentGuard K isvc) s = run_state (podGuard K isvc)
         (s\<lparr>world := w1, calls := calls s @ [ListDeployments (Some (isvc_Namespace isvc))]\<rparr>)"
proof -
  obtain rd w where rd: "k_listDeployments K (Some (isvc_Namespace isvc)) (world s) = (rd, w)"
    by fastforce
  note defs = deploymentGuard_def client_call_defs go_simps
  show thesis
  proof (cases "\<exists>ds. rd = Inr ds \<and> deploymentConflict K isvc ds = None")
    case True
    with rd free show thesis by (auto simp: defs)
  next
    case False
    with rd have "guard_end isvc s (run_state (deploymentGuard K isvc) s)"
      using guard_endI [of "[ListDeployments (Some (isvc_Namespace isvc))]" isvc _ s w]
      by (auto simp: defs guard_calls_def deploymentConflict_nonempty split: sum.splits option.splits)
    then show thesis by (rule ended)
  qed
qed

lemma siblingGuard_cases:
  obtains (ended) "guard_end isvc s (run_state (trustedStoreConflict K isvc) s)"
  | (free) sibs w1 where "k_listInferenceServices K (Some (isvc_Namespace isvc)) (world s) = (Inr sibs, w1)"
      "siblingConflict K isvc sibs = None"
      "run_state (trustedStoreConflict K isvc) s = run_state (deploymentGuard K isvc)
         (s\<lparr>world := w1, calls := calls s @ [ListInferenceServices (Some (isvc_Namespace isvc))]\<rparr>)"
proof -
  obtain ri w where ri: "k_listInferenceServices K (Some (isvc_Namespace isvc)) (world s) = (ri, w)"
    by fastforce
  note defs = trustedStoreConflict_def client_call_defs go_simps
  show thesis
  proof (cases "\<exists>sibs. ri = Inr sibs \<and> siblingConflict K isvc sibs = None")
    case True
    with ri free show thesis by (auto simp: defs)
  next
    case False
    with ri have "guard_end isvc s (run_state (trustedStoreConflict K isvc) s)"
      using guard_endI [of "[ListInferenceServices (Some (isvc_Namespace isvc))]" isvc _ s w]
      by (auto simp: defs guard_calls_def siblingConflict_nonempty split: sum.splits option.splits)
    then show thesis by (rule ended)
  qed
qed

lemma trustedStoreConflict_cases:
  obtains (ended) "guard_end isvc s (run_state (trustedStoreConflict K isvc) s)"
  | (free) sibs ds ps w where
      "run_state (trustedStoreConflict K isvc) s =
         (Inr [], s\<lparr>world := w, calls := calls s @ guard_calls isvc\<rparr>)"
      "store_free K isvc (world s) sibs ds ps w"
proof (cases rule: siblingGuard_cases [of isvc s K])
  case sib: (free sibs w1)
  let ?s1 = "s\<lparr>world := w1, calls := calls s @ [ListInferenceServices (Some (isvc_Namespace isvc))]\<rparr>"
  show thesis
  proof (cases rule: deploymentGuard_cases [of isvc ?s1 K])
    case ended
    then have "guard_end isvc s (run_state (deploymentGuard K isvc) ?s1)"
      by (rule guard_end_extend) (simp add: guard_calls_def)
    with sib that(1) show thesis by simp
  next
    case dep: (free ds w2)
    let ?s2 = "?s1\<lparr>world := w2, calls := calls ?s1 @ [ListDeployments (Some (isvc_Namespace isvc))]\<rparr>"
    show thesis
    proof (cases rule: podGuard_cases [of isvc ?s2 K])
      case ended
      then have "guard_end isvc ?s1 (run_state (podGuard K isvc) ?s2)"
        by (rule guard_end_extend) (simp add: guard_calls_def)
      then have "guard_end isvc s (run_state (podGuard K isvc) ?s2)"
        by (rule guard_end_extend) (simp add: guard_calls_def)
      with sib dep that(1) show thesis by simp
    next
      case (free ps w3)
      with sib dep show thesis
        by (intro that(2) [where sibs = sibs and ds = ds and ps = ps and w = w3])
          (simp_all add: store_free_def guard_calls_def)
    qed
  qed
qed (rule that(1))

subsection \<open>Reading and checking\<close>

text \<open>Reads of custom resources, Deployments and Pods; a secret is not among them.\<close>

fun plain_read :: "call \<Rightarrow> bool" where
  "plain_read (GetInferenceService _) = True"
| "plain_read (GetBrukModel _) = True"
| "plain_read (GetBrukTenant _) = True"
| "plain_read (ListInferenceServices _) = True"
| "plain_read (ListDeployments _) = True"
| "plain_read (ListPods _) = True"
| "plain_read _ = False"

lemma plain_read_writes: "list_all plain_read cs \<Longrightarrow> writes cs = []"
proof (induction cs)
  case (Cons c cs)
  then show ?case by (cases c) simp_all
qed simp

lemma guard_calls_read: "set cs \<subseteq> set (guard_calls isvc) \<Longrightarrow> list_all plain_read cs"
  by (auto simp: guard_calls_def list_all_iff)

definition objects_read ::
    "'w kube \<Rightarrow> NamespacedName \<Rightarrow> 'w \<Rightarrow> InferenceService \<Rightarrow> BrukTenant \<Rightarrow> BrukModel \<Rightarrow> 'w \<Rightarrow> bool" where
  "objects_read K req w isvc tenant model w' \<longleftrightarrow>
     (case k_getInferenceService K req w of (ri, w1) \<Rightarrow>
      case k_getBrukTenant K tenantKey w1 of (rt, w2) \<Rightarrow>
      case k_getBrukModel K (modelKey isvc) w2 of (rm, w3) \<Rightarrow>
        ri = Inr isvc \<and> rt = Inr tenant \<and> rm = Inr model \<and> w' = w3)"

definition object_calls :: "NamespacedName \<Rightarrow> InferenceService \<Rightarrow> call list" where
  "object_calls req isvc = [GetInferenceService req, GetBrukTenant tenantKey, GetBrukModel (modelKey isvc)]"

definition failure_reasons :: "string set" where
  "failure_reasons = {ReasonTenantConfigMissing, ReasonModelNotFound, ReasonNotImplemented,
     ReasonInvalidConfig, ReasonTrustedStoreConflict}"

lemma specProblem_reason: "specProblem isvc model = Some (reason, msg) \<Longrightarrow> reason \<in> failure_reasons"
  by (auto simp: specProblem_def failure_reasons_def split: if_splits)

text \<open>
  The two ways to end without touching a child: an early return, and a failure status for the
  service that was read.
\<close>

definition quiet_end :: "'w sys \<Rightarrow> reconcile_outcome \<times> 'w sys \<Rightarrow> bool" where
  "quiet_end s rs \<longleftrightarrow>
     (\<exists>err w cs. rs = (Returned (Some err), s\<lparr>world := w, calls := calls s @ cs\<rparr>) \<and>
        list_all plain_read cs)"

definition failed_end :: "'w kube \<Rightarrow> InferenceService \<Rightarrow> 'w sys \<Rightarrow> reconcile_outcome \<times> 'w sys \<Rightarrow> bool" where
  "failed_end K isvc s rs \<longleftrightarrow>
     (\<exists>reason msg w cs. rs = run_state (failConfigured K isvc reason msg)
          (s\<lparr>world := w, calls := calls s @ cs\<rparr>) \<and>
        list_all plain_read cs \<and> reason \<in> failure_reasons)"

lemma quiet_endI:
  "list_all plain_read cs \<Longrightarrow> quiet_end s (Returned (Some err), s\<lparr>world := w, calls := calls s @ cs\<rparr>)"
  unfolding quiet_end_def by blast

lemma failed_endI:
  "list_all plain_read cs \<Longrightarrow> reason \<in> failure_reasons \<Longrightarrow>
   failed_end K isvc s (run_state (failConfigured K isvc reason msg) (s\<lparr>world := w, calls := calls s @ cs\<rparr>))"
  unfolding failed_end_def by blast

lemma quiet_end_extend:
  assumes "quiet_end (s\<lparr>world := w, calls := calls s @ cs\<rparr>) rs" and "list_all plain_read cs"
  shows "quiet_end s rs"
proof -
  from assms(1) obtain err w' cs' where
    "rs = (Returned (Some err), s\<lparr>world := w', calls := calls s @ cs @ cs'\<rparr>)" "list_all plain_read cs'"
    by (auto simp: quiet_end_def)
  with assms(2) quiet_endI [of "cs @ cs'" s err w'] show ?thesis by simp
qed

lemma failed_end_extend:
  assumes "failed_end K isvc (s\<lparr>world := w, calls := calls s @ cs\<rparr>) rs" and "list_all plain_read cs"
  shows "failed_end K isvc s rs"
proof -
  from assms(1) obtain reason msg w' cs' where
    "rs = run_state (failConfigured K isvc reason msg) (s\<lparr>world := w', calls := calls s @ cs @ cs'\<rparr>)"
    "list_all plain_read cs'" "reason \<in> failure_reasons"
    by (auto simp: failed_end_def)
  with assms(2) failed_endI [of "cs @ cs'" reason K isvc s msg w'] show ?thesis by simp
qed

lemma reconcileChecked_cases:
  obtains (quiet) "quiet_end s (run_state (reconcileChecked K isvc tenant model) s)"
  | (failed) "failed_end K isvc s (run_state (reconcileChecked K isvc tenant model) s)"
  | (applied) sibs ds ps w where
      "run_state (reconcileChecked K isvc tenant model) s =
         run_state (reconcileApply K isvc model (tenantConfig tenant))
           (s\<lparr>world := w, calls := calls s @ guard_calls isvc\<rparr>)"
      "specProblem isvc model = None" "store_free K isvc (world s) sibs ds ps w"
proof (cases "specProblem isvc model")
  case (Some p)
  obtain reason msg where p: "p = (reason, msg)" by fastforce
  have "failed_end K isvc s (run_state (failConfigured K isvc reason msg)
      (s\<lparr>world := world s, calls := calls s @ []\<rparr>))"
    using Some p specProblem_reason by (intro failed_endI) auto
  with Some p that(2) show thesis by (simp add: reconcileChecked_def)
next
  case None
  show thesis
  proof (cases rule: trustedStoreConflict_cases [of isvc s K])
    case ended
    obtain r s' where run: "run_state (trustedStoreConflict K isvc) s = (r, s')" by fastforce
    with ended obtain w cs where s': "s' = s\<lparr>world := w, calls := calls s @ cs\<rparr>"
      "list_all plain_read cs" and r: "r \<noteq> Inr []"
      by (auto simp: guard_end_def guard_calls_read)
    have conflict: "ReasonTrustedStoreConflict \<in> failure_reasons" by (simp add: failure_reasons_def)
    show thesis
    proof (cases r)
      case (Inl err)
      with None run s' quiet_endI [OF s'(2), of s err w] that(1) show thesis by (simp add: reconcileChecked_def)
    next
      case (Inr msg)
      with None run r s' failed_endI [OF s'(2) conflict, of K isvc s msg w] that(2) show thesis
        by (simp add: reconcileChecked_def)
    qed
  next
    case (free sibs ds ps w)
    with None show thesis
      by (intro applied [where sibs = sibs and ds = ds and ps = ps and w = w])
        (simp_all add: reconcileChecked_def)
  qed
qed

text \<open>An object that cannot be read ends the run, quietly or, when it is missing, as a failure.\<close>

lemma reconcileModel_cases:
  obtains (quiet) "quiet_end s (run_state (reconcileModel K isvc tenant) s)"
  | (failed) "failed_end K isvc s (run_state (reconcileModel K isvc tenant) s)"
  | (read) model w where "k_getBrukModel K (modelKey isvc) (world s) = (Inr model, w)"
      "run_state (reconcileModel K isvc tenant) s = run_state (reconcileChecked K isvc tenant model)
         (s\<lparr>world := w, calls := calls s @ [GetBrukModel (modelKey isvc)]\<rparr>)"
proof -
  let ?cs = "[GetBrukModel (modelKey isvc)]"
  note defs = reconcileModel_def client_call_defs go_simps
  obtain rm w where rm: "k_getBrukModel K (modelKey isvc) (world s) = (rm, w)" by fastforce
  have ends: "list_all plain_read ?cs" "ReasonModelNotFound \<in> failure_reasons"
    by (simp_all add: failure_reasons_def)
  show thesis
  proof (cases rm)
    case (Inl e)
    with rm quiet_endI [OF ends(1), of s _ w] failed_endI [OF ends, of K isvc s _ w] that(1,2)
    show thesis by (cases "k_isNotFound K e") (simp_all add: defs)
  next
    case (Inr model)
    with rm that(3) show thesis by (simp add: defs)
  qed
qed

lemma reconcileTenantConfig_cases:
  obtains (quiet) "quiet_end s (run_state (reconcileTenantConfig K isvc) s)"
  | (failed) "failed_end K isvc s (run_state (reconcileTenantConfig K isvc) s)"
  | (read) tenant w where "k_getBrukTenant K tenantKey (world s) = (Inr tenant, w)"
      "run_state (reconcileTenantConfig K isvc) s = run_state (reconcileModel K isvc tenant)
         (s\<lparr>world := w, calls := calls s @ [GetBrukTenant tenantKey]\<rparr>)"
proof -
  let ?cs = "[GetBrukTenant tenantKey]"
  note defs = reconcileTenantConfig_def client_call_defs go_simps
  obtain rt w where rt: "k_getBrukTenant K tenantKey (world s) = (rt, w)" by fastforce
  have ends: "list_all plain_read ?cs" "ReasonTenantConfigMissing \<in> failure_reasons"
    by (simp_all add: failure_reasons_def)
  show thesis
  proof (cases rt)
    case (Inl e)
    with rt quiet_endI [OF ends(1), of s _ w] failed_endI [OF ends, of K isvc s _ w] that(1,2)
    show thesis by (cases "k_isNotFound K e") (simp_all add: defs)
  next
    case (Inr tenant)
    with rt that(3) show thesis by (simp add: defs)
  qed
qed

text \<open>The whole run: the three ways a reconcile can go.\<close>

lemma ReconcileISVC_cases:
  obtains (gone) e w where "fst (k_getInferenceService K req (world s)) = Inl e"
      "k_ignoreNotFound K e = None"
      "run_state (ReconcileISVC K req) s =
         (Returned None, s\<lparr>world := w, calls := calls s @ [GetInferenceService req]\<rparr>)"
  | (quiet) "quiet_end s (run_state (ReconcileISVC K req) s)"
  | (failed) isvc where "failed_end K isvc s (run_state (ReconcileISVC K req) s)"
      "fst (k_getInferenceService K req (world s)) = Inr isvc"
  | (applied) isvc tenant model w3 sibs ds ps w where
      "run_state (ReconcileISVC K req) s =
         run_state (reconcileApply K isvc model (tenantConfig tenant))
           (s\<lparr>world := w, calls := calls s @ object_calls req isvc @ guard_calls isvc\<rparr>)"
      "objects_read K req (world s) isvc tenant model w3"
      "specProblem isvc model = None" "store_free K isvc w3 sibs ds ps w"
proof -
  note defs = ReconcileISVC_def client_call_defs go_simps
  obtain ri w1 where ri: "k_getInferenceService K req (world s) = (ri, w1)" by fastforce
  let ?s1 = "s\<lparr>world := w1, calls := calls s @ [GetInferenceService req]\<rparr>"
  have r1: "list_all plain_read [GetInferenceService req]" by simp
  show thesis
  proof (cases ri)
    case (Inl e)
    show thesis
    proof (cases "k_ignoreNotFound K e")
      case None
      with Inl ri that(1) show thesis by (simp add: defs)
    next
      case (Some e')
      with Inl ri quiet_endI [OF r1, of s "Api e'" w1] that(2) show thesis by (simp add: defs)
    qed
  next
    case (Inr isvc)
    with ri have step1: "run_state (ReconcileISVC K req) s = run_state (reconcileTenantConfig K isvc) ?s1"
      and got: "fst (k_getInferenceService K req (world s)) = Inr isvc"
      by (simp_all add: defs)
    show thesis
    proof (cases rule: reconcileTenantConfig_cases [of ?s1 K isvc])
      case quiet
      from quiet_end_extend [OF quiet r1] step1 that(2) show thesis by simp
    next
      case failed
      from failed_end_extend [OF failed r1] step1 that(3) got show thesis by simp
    next
      case tenant: (read tenant w2)
      let ?s2 = "?s1\<lparr>world := w2, calls := calls ?s1 @ [GetBrukTenant tenantKey]\<rparr>"
      have r2: "list_all plain_read [GetBrukTenant tenantKey]" by simp
      show thesis
      proof (cases rule: reconcileModel_cases [of ?s2 K isvc tenant])
        case quiet
        from quiet_end_extend [OF quiet_end_extend [OF quiet r2] r1] step1 tenant that(2)
        show thesis by simp
      next
        case failed
        from failed_end_extend [OF failed_end_extend [OF failed r2] r1] step1 tenant that(3) got
        show thesis by simp
      next
        case model: (read model w3)
        let ?s3 = "s\<lparr>world := w3, calls := calls s @ object_calls req isvc\<rparr>"
        have r3: "list_all plain_read (object_calls req isvc)" by (simp add: object_calls_def)
        from step1 tenant model have step3:
          "run_state (ReconcileISVC K req) s = run_state (reconcileChecked K isvc tenant model) ?s3"
          by (simp add: object_calls_def)
        show thesis
        proof (cases rule: reconcileChecked_cases [of ?s3 K isvc tenant model])
          case quiet
          from quiet_end_extend [OF quiet r3] step3 that(2) show thesis by simp
        next
          case failed
          from failed_end_extend [OF failed r3] step3 that(3) got show thesis by simp
        next
          case (applied sibs ds ps w)
          moreover have "objects_read K req (world s) isvc tenant model w3"
            using ri Inr tenant model by (simp add: objects_read_def)
          ultimately show thesis using step3 that(4) by simp
        qed
      qed
    qed
  qed
qed

subsection \<open>Applying the children\<close>

text \<open>The calls that apply the ConfigMap, when the spec has a weights cache.\<close>

definition gai_calls :: "InferenceService \<Rightarrow> call list" where
  "gai_calls isvc = (if isvc_WeightsCache isvc \<noteq> None then [ApplyConfigMap (gaiObject isvc)] else [])"

text \<open>The Deployment a reconcile sends: the rendered one under the service's control.\<close>

definition child_deployment ::
    "'w kube \<Rightarrow> InferenceService \<Rightarrow> BrukModel \<Rightarrow> Config \<Rightarrow> Deployment \<Rightarrow> bool" where
  "child_deployment K isvc model cfg d \<longleftrightarrow>
     (\<exists>rendered. renderDeployment isvc model cfg = Some (Inr rendered) \<and>
        ownedDeployment K isvc rendered = Inr d)"

text \<open>An application that stops half-way: the calls are a prefix of the full sequence.\<close>

definition apply_stopped ::
    "'w kube \<Rightarrow> InferenceService \<Rightarrow> BrukModel \<Rightarrow> Config \<Rightarrow> 'w sys \<Rightarrow> reconcile_outcome \<times> 'w sys \<Rightarrow> bool" where
  "apply_stopped K isvc model cfg s rs \<longleftrightarrow>
     (\<exists>err w cs. rs = (Returned (Some err), s\<lparr>world := w, calls := calls s @ cs\<rparr>) \<and>
        (cs = gai_calls isvc \<or>
         (\<exists>d. child_deployment K isvc model cfg d \<and>
            (cs = gai_calls isvc @ [ApplyDeployment d] \<or>
             (\<exists>sv. ownedService K isvc = Inr sv \<and>
                cs = gai_calls isvc @ [ApplyDeployment d, ApplyService sv])))))"

lemma applyGaiConfigMap_run:
  obtains (error) err w where "run_state (applyGaiConfigMap K isvc) s =
        (Some err, s\<lparr>world := w, calls := calls s @ gai_calls isvc\<rparr>)"
  | (ok) w where "run_state (applyGaiConfigMap K isvc) s =
        (None, s\<lparr>world := w, calls := calls s @ gai_calls isvc\<rparr>)"
proof (cases "isvc_WeightsCache isvc")
  case None
  then show thesis
    by (intro ok [of "world s"]) (simp add: applyGaiConfigMap_def gai_calls_def)
next
  case (Some wc)
  obtain r w where "k_applyConfigMap K (gaiObject isvc) (world s) = (r, w)" by fastforce
  with Some error ok show thesis
    by (cases r) (simp_all add: applyGaiConfigMap_def client_call_defs go_simps gai_calls_def)
qed

lemma applyServiceAndStatus_cases:
  obtains (stopped) err w cs where
      "run_state (applyServiceAndStatus K isvc model cfg d) s =
         (Returned (Some err), s\<lparr>world := w, calls := calls s @ cs\<rparr>)"
      "cs = [] \<or> (\<exists>sv. ownedService K isvc = Inr sv \<and> cs = [ApplyService sv])"
  | (applied) sv resp w where
      "run_state (applyServiceAndStatus K isvc model cfg d) s =
         run_state (updateReadyStatus K isvc model d cfg)
           (s\<lparr>world := w, calls := calls s @ [ApplyService sv]\<rparr>)"
      "ownedService K isvc = Inr sv" "k_applyService K sv (world s) = (Inr resp, w)"
proof (cases "ownedService K isvc")
  case (Inl err)
  then show thesis
    by (intro stopped [where err = err and w = "world s" and cs = "[]"])
      (simp_all add: applyServiceAndStatus_def applyOwnedService_def)
next
  case (Inr sv)
  obtain r w where r: "k_applyService K sv (world s) = (r, w)" by fastforce
  note defs = applyServiceAndStatus_def applyOwnedService_def client_call_defs go_simps
  show thesis
  proof (cases r)
    case (Inl e)
    with Inr r show thesis
      by (intro stopped [where w = w and cs = "[ApplyService sv]"]) (simp_all add: defs)
  next
    case (Inr resp)
    with \<open>ownedService K isvc = Inr sv\<close> r show thesis
      by (intro applied [where sv = sv and w = w and resp = resp]) (simp_all add: defs)
  qed
qed

lemma reconcileApply_cases:
  obtains (stopped) "apply_stopped K isvc model cfg s (run_state (reconcileApply K isvc model cfg) s)"
  | (unrendered) err w where "renderDeployment isvc model cfg = Some (Inl err)"
      "run_state (reconcileApply K isvc model cfg) s =
         run_state (failConfigured K isvc ReasonInvalidConfig (error_text err))
           (s\<lparr>world := w, calls := calls s @ gai_calls isvc\<rparr>)"
  | (applied) d resp w1 w2 sv sresp w where "child_deployment K isvc model cfg d"
      "k_applyDeployment K d w1 = (Inr resp, w2)" "ownedService K isvc = Inr sv"
      "k_applyService K sv w2 = (Inr sresp, w)"
      "run_state (reconcileApply K isvc model cfg) s =
         run_state (updateReadyStatus K isvc model resp cfg)
           (s\<lparr>world := w, calls := calls s @ gai_calls isvc @ [ApplyDeployment d, ApplyService sv]\<rparr>)"
proof -
  note defs = reconcileApply_def applyOwnedDeployment_def client_call_defs go_simps
  show thesis
  proof (cases rule: applyGaiConfigMap_run [of K isvc s])
    case (error err w)
    then show thesis by (intro stopped) (auto simp: reconcileApply_def apply_stopped_def)
  next
    case gai: (ok w1)
    obtain r where r: "renderDeployment isvc model cfg = Some r"
      using renderDeployment_not_None [of isvc model cfg] by blast
    show thesis
    proof (cases r)
      case (Inl err)
      with gai r show thesis by (intro unrendered [where err = err and w = w1]) (simp_all add: reconcileApply_def)
    next
      case rendered: (Inr rendered)
      show thesis
      proof (cases "ownedDeployment K isvc rendered")
        case (Inl err)
        with gai r rendered show thesis by (intro stopped) (auto simp: defs apply_stopped_def)
      next
        case owned: (Inr d)
        with r rendered have child: "child_deployment K isvc model cfg d" by (auto simp: child_deployment_def)
        obtain dr w2 where dr: "k_applyDeployment K d w1 = (dr, w2)" by fastforce
        note ctx = gai r rendered owned dr child
        show thesis
        proof (cases dr)
          case (Inl e)
          with ctx show thesis by (intro stopped) (auto simp: defs apply_stopped_def)
        next
          case resp: (Inr resp)
          let ?s2 = "s\<lparr>world := w2, calls := calls s @ gai_calls isvc @ [ApplyDeployment d]\<rparr>"
          from ctx resp have step: "run_state (reconcileApply K isvc model cfg) s =
              run_state (applyServiceAndStatus K isvc model cfg resp) ?s2"
            by (simp add: defs)
          show thesis
          proof (cases rule: applyServiceAndStatus_cases [of K isvc model cfg resp ?s2])
            case (stopped err w cs)
            with step child that(1) show thesis by (auto simp: apply_stopped_def)
          next
            case (applied sv sresp w)
            with step ctx resp that(3) show thesis by simp
          qed
        qed
      qed
    qed
  qed
qed

end
