(* ===== verification/ApiServer.thy ===== *)
theory ApiServer
  imports Client
begin

text \<open>
  A reference API server: one concrete instance of the interface \<open>kube\<close>, an in-memory
  store that keeps its objects in lists and answers every call at once. It interprets the
  contracts of theory \<open>Client\<close>, so that they are seen to be satisfiable together, and the
  witnesses of the properties run the program on it. The properties themselves never depend
  on it.
\<close>

record cluster =
  cl_InferenceServices :: "InferenceService list"
  cl_BrukModels :: "BrukModel list"
  cl_BrukTenants :: "BrukTenant list"
  cl_Secrets :: "Secret list"
  cl_Deployments :: "Deployment list"
  cl_Pods :: "Pod list"
  cl_Services :: "Service list"
  cl_ConfigMaps :: "ConfigMap list"

definition empty_cluster :: cluster where
  "empty_cluster =
     \<lparr>cl_InferenceServices = [], cl_BrukModels = [], cl_BrukTenants = [], cl_Secrets = [],
      cl_Deployments = [], cl_Pods = [], cl_Services = [], cl_ConfigMaps = []\<rparr>"

subsection \<open>Owner references, conditions, instants\<close>

definition the_controller :: "ObjectMeta \<Rightarrow> OwnerReference option" where
  "the_controller m = List.find or_Controller (om_OwnerReferences m)"

definition ref_isControlledBy :: "ObjectMeta \<Rightarrow> ObjectMeta \<Rightarrow> bool" where
  "ref_isControlledBy m owner =
     (case the_controller m of None \<Rightarrow> False | Some r \<Rightarrow> or_UID r = om_UID owner)"

definition same_object :: "OwnerReference \<Rightarrow> OwnerReference \<Rightarrow> bool" where
  "same_object r r' \<longleftrightarrow> or_Kind r = or_Kind r' \<and> or_Name r = or_Name r'"

fun upsert_reference :: "OwnerReference list \<Rightarrow> OwnerReference \<Rightarrow> OwnerReference list" where
  "upsert_reference [] r = [r]"
| "upsert_reference (x # xs) r = (if same_object x r then r # xs else x # upsert_reference xs r)"

definition controller_ref :: "ObjectMeta \<Rightarrow> OwnerReference" where
  "controller_ref owner =
     \<lparr>or_Kind = ''InferenceService'', or_Name = om_Name owner, or_UID = om_UID owner,
      or_Controller = True\<rparr>"

definition ref_setControllerReference :: "ObjectMeta \<Rightarrow> ObjectMeta \<Rightarrow> GoError + ObjectMeta" where
  "ref_setControllerReference owner m =
     (let ref = controller_ref owner;
          m' = m\<lparr>om_OwnerReferences := upsert_reference (om_OwnerReferences m) ref\<rparr>
      in if om_Namespace owner \<noteq> [] \<and> om_Namespace m \<noteq> om_Namespace owner then
           Inl (Errorf ''cross-namespace owner references are disallowed'')
         else case the_controller m of
           None \<Rightarrow> Inr m'
         | Some r \<Rightarrow> (if same_object r ref then Inr m' else Inl (Errorf ''already owned'')))"

lemma find_upsert:
  assumes "or_Controller r" and "\<And>x. List.find or_Controller xs = Some x \<Longrightarrow> same_object x r"
  shows "List.find or_Controller (upsert_reference xs r) = Some r"
  using assms by (induction xs) (auto split: if_splits)

fun ref_setStatusCondition :: "Condition list \<Rightarrow> Condition \<Rightarrow> Condition list" where
  "ref_setStatusCondition [] c = [c]"
| "ref_setStatusCondition (x # xs) c =
     (if c_Type x = c_Type c then c # xs else x # ref_setStatusCondition xs c)"

definition ref_isNotFound :: "ApiError \<Rightarrow> bool" where
  "ref_isNotFound e \<longleftrightarrow> status_reason e = ''NotFound''"

definition ref_ignoreNotFound :: "ApiError \<Rightarrow> ApiError option" where
  "ref_ignoreNotFound e = (if ref_isNotFound e then None else Some e)"

interpretation ref_nf: not_found ref_isNotFound ref_ignoreNotFound
  by unfold_locales (simp add: ref_ignoreNotFound_def)

interpretation ref_sc: status_conditions ref_setStatusCondition
proof unfold_locales
  show "findCondition (ref_setStatusCondition cs c) (c_Type c) = Some c" for cs c
    unfolding findCondition_def by (induction cs) auto
  show "findCondition (ref_setStatusCondition cs c) t = findCondition cs t"
    if "t \<noteq> c_Type c" for t c cs
    using that unfolding findCondition_def by (induction cs) auto
qed

interpretation ref_ti: instants "(=)" "(<) :: Time \<Rightarrow> Time \<Rightarrow> bool"
  by unfold_locales auto

interpretation ref_cr: controller_references ref_isControlledBy ref_setControllerReference
proof unfold_locales
  note defs = ref_setControllerReference_def ref_isControlledBy_def the_controller_def Let_def
  fix owner owner' m m' :: ObjectMeta
  show "ref_isControlledBy m' owner" if "ref_setControllerReference owner m = Inr m'"
  proof -
    have "List.find or_Controller (upsert_reference (om_OwnerReferences m) (controller_ref owner))
        = Some (controller_ref owner)"
      using that by (intro find_upsert)
        (auto simp: defs controller_ref_def split: if_splits option.splits)
    with that show ?thesis
      by (auto simp: defs controller_ref_def split: if_splits option.splits)
  qed
  show "m'\<lparr>om_OwnerReferences := om_OwnerReferences m\<rparr> = m"
    if "ref_setControllerReference owner m = Inr m'"
    using that by (auto simp: defs split: if_splits option.splits)
  show "\<exists>m'. ref_setControllerReference owner m = Inr m'"
    if "om_OwnerReferences m = []" "om_Namespace m = om_Namespace owner"
    using that by (simp add: defs)
  show "om_UID owner = om_UID owner'" if "ref_isControlledBy m owner" "ref_isControlledBy m owner'"
    using that by (auto simp: defs split: option.splits)
qed

subsection \<open>The store\<close>

definition NotFoundError :: ApiError where "NotFoundError = StatusError ''NotFound'' ''not found''"
definition InvalidError :: ApiError where
  "InvalidError = StatusError ''Invalid'' ''only one reference can have controller set to true''"

text \<open>Reads: the object under a key, the objects of a namespace or of all of them.\<close>

definition get_from :: "('a \<Rightarrow> ObjectMeta) \<Rightarrow> 'a list \<Rightarrow> NamespacedName \<Rightarrow> ApiError + 'a" where
  "get_from meta xs key =
     (case List.find (\<lambda>x. meta_key (meta x) = key) xs of None \<Rightarrow> Inl NotFoundError | Some x \<Rightarrow> Inr x)"

definition list_from :: "('a \<Rightarrow> ObjectMeta) \<Rightarrow> 'a list \<Rightarrow> string option \<Rightarrow> 'a list" where
  "list_from meta xs ns =
     (case ns of None \<Rightarrow> xs | Some n \<Rightarrow> filter (\<lambda>x. om_Namespace (meta x) = n) xs)"

text \<open>Writes: an object under a key is replaced by what \<open>f\<close> makes of it.\<close>

definition put_to :: "('a \<Rightarrow> ObjectMeta) \<Rightarrow> 'a list \<Rightarrow> NamespacedName \<Rightarrow> ('a \<Rightarrow> 'a) \<Rightarrow> 'a list" where
  "put_to meta xs key f = map (\<lambda>x. if meta_key (meta x) = key then f x else x) xs"

definition has_key :: "('a \<Rightarrow> ObjectMeta) \<Rightarrow> 'a list \<Rightarrow> NamespacedName \<Rightarrow> bool" where
  "has_key meta xs key \<longleftrightarrow> List.find (\<lambda>x. meta_key (meta x) = key) xs \<noteq> None"

text \<open>
  Server-side apply with forced ownership: the applied fields win, owner references merge by
  UID, the status stays; an object with two controllers is refused.
\<close>

definition merge_refs :: "OwnerReference list \<Rightarrow> OwnerReference list \<Rightarrow> OwnerReference list" where
  "merge_refs old new = filter (\<lambda>r. or_UID r \<notin> or_UID ` set new) old @ new"

definition merge_meta :: "ObjectMeta \<Rightarrow> ObjectMeta \<Rightarrow> ObjectMeta" where
  "merge_meta old new =
     old\<lparr>om_Labels := om_Labels old ++ om_Labels new,
         om_Annotations := om_Annotations old ++ om_Annotations new,
         om_OwnerReferences := merge_refs (om_OwnerReferences old) (om_OwnerReferences new)\<rparr>"

definition one_controller_at_most :: "ObjectMeta \<Rightarrow> bool" where
  "one_controller_at_most m \<longleftrightarrow> length (filter or_Controller (om_OwnerReferences m)) \<le> 1"

definition merge_Deployment :: "Deployment \<Rightarrow> Deployment \<Rightarrow> Deployment" where
  "merge_Deployment old new =
     new\<lparr>d_Meta := merge_meta (d_Meta old) (d_Meta new), d_StatusConditions := d_StatusConditions old\<rparr>"

definition merge_Service :: "Service \<Rightarrow> Service \<Rightarrow> Service" where
  "merge_Service old new = new\<lparr>svc_Meta := merge_meta (svc_Meta old) (svc_Meta new)\<rparr>"

definition merge_ConfigMap :: "ConfigMap \<Rightarrow> ConfigMap \<Rightarrow> ConfigMap" where
  "merge_ConfigMap old new =
     new\<lparr>cm_Meta := merge_meta (cm_Meta old) (cm_Meta new), cm_Data := cm_Data old ++ cm_Data new\<rparr>"

definition apply_to ::
    "('a \<Rightarrow> ObjectMeta) \<Rightarrow> ('a \<Rightarrow> 'a \<Rightarrow> 'a) \<Rightarrow> 'a list \<Rightarrow> 'a \<Rightarrow> ApiError + ('a \<times> 'a list)" where
  "apply_to meta merge xs new =
     (let key = meta_key (meta new);
          res = (case List.find (\<lambda>x. meta_key (meta x) = key) xs of None \<Rightarrow> new | Some old \<Rightarrow> merge old new)
      in if \<not> one_controller_at_most (meta res) then Inl InvalidError
         else Inr (res, if has_key meta xs key then put_to meta xs key (\<lambda>_. res) else xs @ [res]))"

definition update_status ::
    "('a \<Rightarrow> ObjectMeta) \<Rightarrow> ('a \<Rightarrow> 'a \<Rightarrow> 'a) \<Rightarrow> 'a list \<Rightarrow> 'a \<Rightarrow> ApiError option \<times> 'a list" where
  "update_status meta set_status xs new =
     (let key = meta_key (meta new)
      in if has_key meta xs key then (None, put_to meta xs key (\<lambda>old. set_status old new))
         else (Some NotFoundError, xs))"

definition ref_kube :: "cluster kube" where
  "ref_kube =
     \<lparr>k_isNotFound = ref_isNotFound,
      k_ignoreNotFound = ref_ignoreNotFound,
      k_timeEqual = (=),
      k_timeBefore = (<),
      k_isControlledBy = ref_isControlledBy,
      k_setControllerReference = ref_setControllerReference,
      k_setStatusCondition = ref_setStatusCondition,
      k_getInferenceService = (\<lambda>key w. (get_from is_Meta (cl_InferenceServices w) key, w)),
      k_getBrukModel = (\<lambda>key w. (get_from bm_Meta (cl_BrukModels w) key, w)),
      k_getBrukTenant = (\<lambda>key w. (get_from bt_Meta (cl_BrukTenants w) key, w)),
      k_getSecret = (\<lambda>key w. (get_from sec_Meta (cl_Secrets w) key, w)),
      k_listInferenceServices = (\<lambda>ns w. (Inr (list_from is_Meta (cl_InferenceServices w) ns), w)),
      k_listDeployments = (\<lambda>ns w. (Inr (list_from d_Meta (cl_Deployments w) ns), w)),
      k_listPods = (\<lambda>ns w. (Inr (list_from pod_Meta (cl_Pods w) ns), w)),
      k_applyConfigMap = (\<lambda>cm w.
        (case apply_to cm_Meta merge_ConfigMap (cl_ConfigMaps w) cm of
           Inl e \<Rightarrow> (Inl e, w) | Inr (r, xs) \<Rightarrow> (Inr r, w\<lparr>cl_ConfigMaps := xs\<rparr>))),
      k_applyDeployment = (\<lambda>d w.
        (case apply_to d_Meta merge_Deployment (cl_Deployments w) d of
           Inl e \<Rightarrow> (Inl e, w) | Inr (r, xs) \<Rightarrow> (Inr r, w\<lparr>cl_Deployments := xs\<rparr>))),
      k_applyService = (\<lambda>s w.
        (case apply_to svc_Meta merge_Service (cl_Services w) s of
           Inl e \<Rightarrow> (Inl e, w) | Inr (r, xs) \<Rightarrow> (Inr r, w\<lparr>cl_Services := xs\<rparr>))),
      k_updateInferenceServiceStatus = (\<lambda>i w.
        (case update_status is_Meta (\<lambda>old new. old\<lparr>is_Status := is_Status new\<rparr>) (cl_InferenceServices w) i of
           (e, xs) \<Rightarrow> (e, w\<lparr>cl_InferenceServices := xs\<rparr>))),
      k_updateBrukModelStatus = (\<lambda>m w.
        (case update_status bm_Meta (\<lambda>old new. old\<lparr>bm_Status := bm_Status new\<rparr>) (cl_BrukModels w) m of
           (e, xs) \<Rightarrow> (e, w\<lparr>cl_BrukModels := xs\<rparr>))),
      k_updateBrukTenantStatus = (\<lambda>t w.
        (case update_status bt_Meta (\<lambda>old new. old\<lparr>bt_Status := bt_Status new\<rparr>) (cl_BrukTenants w) t of
           (e, xs) \<Rightarrow> (e, w\<lparr>cl_BrukTenants := xs\<rparr>)))\<rparr>"

lemma ref_kube_sels [simp]:
  "k_isNotFound ref_kube = ref_isNotFound"
  "k_ignoreNotFound ref_kube = ref_ignoreNotFound"
  "k_timeEqual ref_kube = (=)"
  "k_timeBefore ref_kube = (<)"
  "k_isControlledBy ref_kube = ref_isControlledBy"
  "k_setControllerReference ref_kube = ref_setControllerReference"
  "k_setStatusCondition ref_kube = ref_setStatusCondition"
  by (simp_all add: ref_kube_def)

text \<open>The contracts hold of the reference server together.\<close>

interpretation ref: kube_library ref_kube
  by (simp add: kube_library_def ref_nf.not_found_axioms ref_sc.status_conditions_axioms
      ref_ti.instants_axioms ref_cr.controller_references_axioms)

lemma kube_library_ref_kube: "kube_library ref_kube"
  by (rule ref.kube_library_axioms)

end
