(* ===== verification/ModelController.thy ===== *)
theory ModelController
  imports Client
begin

text \<open>
  \<open>internal/controller/brukmodel_controller.go\<close>: validation of a \<open>BrukModel\<close>. The reconciler
  reads the model, checks its source, and, when a token secret is named, that the secret has
  the key; the result is the \<open>Ready\<close> condition.
\<close>

definition setReadyModel :: "'w kube \<Rightarrow> BrukModel \<Rightarrow> string \<Rightarrow> string \<Rightarrow> string \<Rightarrow> BrukModel" where
  "setReadyModel K model status reason message =
     model\<lparr>bm_Status :=
       \<lparr>bmst_ObservedGeneration = om_Generation (bm_Meta model),
        bmst_Conditions = k_setStatusCondition K (bmst_Conditions (bm_Status model))
          \<lparr>c_Type = ''Ready'', c_Status = status, c_Reason = reason, c_Message = message,
           c_ObservedGeneration = om_Generation (bm_Meta model)\<rparr>\<rparr>\<rparr>"

definition setReady ::
    "'w kube \<Rightarrow> BrukModel \<Rightarrow> string \<Rightarrow> string \<Rightarrow> string \<Rightarrow> ('w sys, reconcile_outcome) state" where
  "setReady K model status reason message = do {
     err \<leftarrow> updateBrukModelStatus K (setReadyModel K model status reason message);
     State_Monad.return (Returned (map_option Api err))
   }"

text \<open>The bytes of a key in a secret; a missing key reads as the nil slice, whose length is 0.\<close>

definition secret_value :: "Secret \<Rightarrow> string \<Rightarrow> byte list" where
  "secret_value secret key = (case sec_Data secret key of None \<Rightarrow> [] | Some v \<Rightarrow> v)"

definition unpinnedMessage :: string where
  "unpinnedMessage = ''huggingFace.revision is not pinned; served weights may change after review ''
     @ ''(recommend pinning a commit SHA)''"

definition ReconcileModel ::
    "'w kube \<Rightarrow> NamespacedName \<Rightarrow> ('w sys, reconcile_outcome) state" where
  "ReconcileModel K req = do {
     r \<leftarrow> getBrukModel K req;
     case r of
       Inl err \<Rightarrow> State_Monad.return (Returned (map_option Api (k_ignoreNotFound K err)))
     | Inr model \<Rightarrow>
         (case model_HuggingFace model of
            None \<Rightarrow> setReady K model ConditionFalse ReasonInvalidConfig
                      ''BrukModel has no huggingFace source; v1alpha1 supports only huggingFace''
          | Some hf \<Rightarrow>
              (let reason = (if hf_Revision hf = [] then ReasonUnpinnedRevision else ReasonValid);
                   message = (if hf_Revision hf = [] then unpinnedMessage else ''model spec is valid'')
               in case hf_TokenSecretRef hf of
                    None \<Rightarrow> setReady K model ConditionTrue reason message
                  | Some ref \<Rightarrow> do {
                      s \<leftarrow> getSecret K \<lparr>nn_Namespace = om_Namespace (bm_Meta model),
                                       nn_Name = skr_Name ref\<rparr>;
                      case s of
                        Inl err \<Rightarrow>
                          (if k_isNotFound K err then
                             setReady K model ConditionFalse ReasonTokenSecretMissing
                               (''token Secret '' @ fmt_q (skr_Name ref) @ '' not found in namespace ''
                                @ om_Namespace (bm_Meta model)
                                @ '' (delivered out-of-band, never in Git)'')
                           else State_Monad.return (Returned (Some (Api err))))
                      | Inr secret \<Rightarrow>
                          (if length (secret_value secret (skr_Key ref)) = 0 then
                             setReady K model ConditionFalse ReasonTokenSecretMissing
                               (''token Secret '' @ fmt_q (skr_Name ref) @ '' has no key ''
                                @ fmt_q (skr_Key ref))
                           else setReady K model ConditionTrue reason message)
                    }))
   }"

end
