(* ===== verification/TenantController.thy ===== *)
theory TenantController
  imports Client
begin

text \<open>
  \<open>internal/controller/bruktenant_controller.go\<close>: validation of the cluster contract. The
  reconciler checks that the initdata blob is base64 of something with the gzip magic and
  records the result and the short hash of the blob.
\<close>

definition validateInitData :: "string \<Rightarrow> GoError option" where
  "validateInitData blob =
     (case DecodeString blob of
        Inl n \<Rightarrow> Some (Wrapf ''not valid base64: '' (Errorf (corrupt_input_text n)))
      | Inr raw \<Rightarrow>
          (if length raw < 2 \<or> raw ! 0 \<noteq> 0x1f \<or> raw ! 1 \<noteq> 0x8b then
             Some (Errorf ''decoded payload is not gzip (missing 1f 8b magic)'')
           else None))"

definition invalidInitDataMessage :: "GoError \<Rightarrow> string" where
  "invalidInitDataMessage err =
     ''initDataB64 invalid: '' @ error_text err
     @ '' (expected base64(gzip(initdata.toml)) from build-initdata.sh; ''
     @ ''an unsubstituted ${INITDATA_B64} placeholder fails CRD validation earlier)''"

definition tenantCondition :: "BrukTenant \<Rightarrow> Condition" where
  "tenantCondition tenant =
     (case validateInitData (cc_InitDataB64 (bts_Confidential (bt_Spec tenant))) of
        None \<Rightarrow>
          \<lparr>c_Type = ''Ready'', c_Status = ConditionTrue, c_Reason = ReasonValid,
           c_Message = ''cluster contract is valid'',
           c_ObservedGeneration = om_Generation (bt_Meta tenant)\<rparr>
      | Some err \<Rightarrow>
          \<lparr>c_Type = ''Ready'', c_Status = ConditionFalse, c_Reason = ReasonInvalidConfig,
           c_Message = invalidInitDataMessage err,
           c_ObservedGeneration = om_Generation (bt_Meta tenant)\<rparr>)"

definition reconciledTenant :: "'w kube \<Rightarrow> BrukTenant \<Rightarrow> BrukTenant" where
  "reconciledTenant K tenant =
     tenant\<lparr>bt_Status :=
       \<lparr>btst_ObservedGeneration = om_Generation (bt_Meta tenant),
        btst_Conditions =
          k_setStatusCondition K (btst_Conditions (bt_Status tenant)) (tenantCondition tenant),
        btst_AppliedInitDataHash =
          InitDataHash (cc_InitDataB64 (bts_Confidential (bt_Spec tenant)))\<rparr>\<rparr>"

definition ReconcileTenant ::
    "'w kube \<Rightarrow> NamespacedName \<Rightarrow> ('w sys, reconcile_outcome) state" where
  "ReconcileTenant K req = do {
     r \<leftarrow> getBrukTenant K req;
     case r of
       Inl err \<Rightarrow> State_Monad.return (Returned (map_option Api (k_ignoreNotFound K err)))
     | Inr tenant \<Rightarrow> do {
         err \<leftarrow> updateBrukTenantStatus K (reconciledTenant K tenant);
         State_Monad.return (Returned (map_option Api err))
       }
   }"

end
