(* ===== verification/Scenarios.thy ===== *)
theory Scenarios
  imports RenderProps ServiceRuns ApiServer ModelController TenantController
begin

text \<open>
  Complete runs on the reference server, evaluated: the production service of the fixtures is
  reconciled in a namespace where nothing else runs, and in one where the tenant is missing.
  They are the inputs of the witnesses of the reconciler's properties.
\<close>

definition prodTenant :: BrukTenant where
  "prodTenant =
     \<lparr>bt_Meta = zero_ObjectMeta\<lparr>om_Name := ''cluster''\<rparr>,
      bt_Spec =
        \<lparr>bts_TenantID = [], bts_DisplayName = [],
         bts_Infrastructure = \<lparr>ic_NodeHostname = ''gpu-node'', ic_StorageVolumeGroup = ''bruk''\<rparr>,
         bts_Engine = \<lparr>ed_DefaultImage = cfg_DefaultImage testConfig\<rparr>,
         bts_Confidential = \<lparr>cc_InitDataB64 = cfg_InitDataB64 testConfig\<rparr>\<rparr>,
      bt_Status = \<lparr>btst_ObservedGeneration = 0, btst_Conditions = [], btst_AppliedInitDataHash = []\<rparr>\<rparr>"

definition prodKey :: NamespacedName where
  "prodKey = \<lparr>nn_Namespace = ''default'', nn_Name = ''vllm-cc''\<rparr>"

definition prodCluster :: cluster where
  "prodCluster = empty_cluster
     \<lparr>cl_InferenceServices := [prodService], cl_BrukModels := [prodModel], cl_BrukTenants := [prodTenant]\<rparr>"

definition noTenantCluster :: cluster where
  "noTenantCluster = prodCluster\<lparr>cl_BrukTenants := []\<rparr>"

lemma prodCluster_sels [simp]:
  "cl_InferenceServices prodCluster = [prodService]" "cl_BrukModels prodCluster = [prodModel]"
  "cl_BrukTenants prodCluster = [prodTenant]" "cl_Deployments prodCluster = []"
  "cl_Pods prodCluster = []" "cl_Services prodCluster = []" "cl_ConfigMaps prodCluster = []"
  "cl_Secrets prodCluster = []"
  by (simp_all add: prodCluster_def empty_cluster_def)

lemma noTenantCluster_sels [simp]:
  "cl_InferenceServices noTenantCluster = [prodService]" "cl_BrukTenants noTenantCluster = []"
  by (simp_all add: noTenantCluster_def)

lemma prod_keys [simp]:
  "meta_key (is_Meta prodService) = prodKey"
  "meta_key (bm_Meta prodModel) = modelKey prodService"
  "meta_key (bt_Meta prodTenant) = tenantKey"
  by (simp_all add: meta_key_def prodKey_def modelKey_def tenantKey_def prodTenant_def
      prodModel_def prodService_def BrukTenantName_def zero_ObjectMeta_def)

lemma prod_metas:
  "om_Namespace (bm_Meta prodModel) = ''default''" "om_UID (is_Meta prodService) = ''u-prod''"
  "om_Generation (is_Meta prodService) = 0" "tenantConfig prodTenant = testConfig"
  by (simp_all add: prodModel_def prodService_def prodTenant_def tenantConfig_def zero_ObjectMeta_def)

lemma prod_specProblem: "specProblem prodService prodModel = None"
  by (simp add: specProblem_def prod_fields prodModel_fields)

text \<open>What the run sends.\<close>

definition prodChild :: Deployment where
  "prodChild = goldenDeployment
     \<lparr>d_TypeMeta := \<lparr>tm_APIVersion = ''apps/v1'', tm_Kind = ''Deployment''\<rparr>,
      d_Meta := (d_Meta goldenDeployment)
        \<lparr>om_OwnerReferences := [\<lparr>or_Kind = ''InferenceService'', or_Name = ''vllm-cc'',
                                 or_UID = ''u-prod'', or_Controller = True\<rparr>]\<rparr>\<rparr>"

definition prodChildService :: Service where
  "prodChildService = (renderService prodService)
     \<lparr>svc_TypeMeta := \<lparr>tm_APIVersion = ''v1'', tm_Kind = ''Service''\<rparr>,
      svc_Meta := (svc_Meta (renderService prodService))
        \<lparr>om_OwnerReferences := [\<lparr>or_Kind = ''InferenceService'', or_Name = ''vllm-cc'',
                                 or_UID = ''u-prod'', or_Controller = True\<rparr>]\<rparr>\<rparr>"

lemma owned_prod: "ownedDeployment ref_kube prodService goldenDeployment = Inr prodChild"
  by (simp add: ownedDeployment_def prodChild_def goldenDeployment_def ref_setControllerReference_def
      Let_def the_controller_def controller_ref_def prod_fields prod_metas zero_ObjectMeta_def)

lemma owned_prodService: "ownedService ref_kube prodService = Inr prodChildService"
  by (simp add: ownedService_def prodChildService_def renderService_def ref_setControllerReference_def
      Let_def the_controller_def controller_ref_def prod_fields prod_metas zero_ObjectMeta_def)

lemma prodChild_sels [simp]:
  "om_OwnerReferences (d_Meta prodChild) = [\<lparr>or_Kind = ''InferenceService'', or_Name = ''vllm-cc'',
      or_UID = ''u-prod'', or_Controller = True\<rparr>]"
  "meta_key (d_Meta prodChild) = prodKey" "d_StatusConditions prodChild = []"
  "d_Spec prodChild = d_Spec goldenDeployment"
  by (simp_all add: prodChild_def goldenDeployment_def meta_key_def prodKey_def)

lemma prodChildService_refs:
  "om_OwnerReferences (svc_Meta prodChildService) = [\<lparr>or_Kind = ''InferenceService'', or_Name = ''vllm-cc'',
      or_UID = ''u-prod'', or_Controller = True\<rparr>]"
  by (simp add: prodChildService_def)

lemma gaiObject_refs: "om_OwnerReferences (cm_Meta (gaiObject i)) = []"
  by (simp add: gaiObject_def renderGaiConfigMap_def zero_ObjectMeta_def)

lemmas ref_calls = ref_kube_def get_from_def list_from_def apply_to_def update_status_def has_key_def
  put_to_def one_controller_at_most_def

definition prodRead :: "call list" where
  "prodRead = [GetInferenceService prodKey, GetBrukTenant tenantKey, GetBrukModel (modelKey prodService),
     ListInferenceServices (Some ''default''), ListDeployments (Some ''default''), ListPods (Some ''default'')]"

definition prodStatus :: InferenceService where
  "prodStatus = readyService ref_kube prodService prodModel prodChild testConfig"

definition prodDone :: cluster where
  "prodDone = prodCluster
     \<lparr>cl_InferenceServices := [prodService\<lparr>is_Status := is_Status prodStatus\<rparr>],
      cl_Deployments := [prodChild], cl_Services := [prodChildService],
      cl_ConfigMaps := [gaiObject prodService]\<rparr>"

lemma prod_reads [simp]:
  "k_getInferenceService ref_kube prodKey prodCluster = (Inr prodService, prodCluster)"
  "k_getBrukTenant ref_kube tenantKey prodCluster = (Inr prodTenant, prodCluster)"
  "k_getBrukModel ref_kube (modelKey prodService) prodCluster = (Inr prodModel, prodCluster)"
  "k_listInferenceServices ref_kube (Some ''default'') prodCluster = (Inr [prodService], prodCluster)"
  "k_listDeployments ref_kube (Some ''default'') prodCluster = (Inr [], prodCluster)"
  "k_listPods ref_kube (Some ''default'') prodCluster = (Inr [], prodCluster)"
  by (simp_all add: ref_calls prod_fields)

lemma prod_applies [simp]:
  "k_applyConfigMap ref_kube (gaiObject prodService) prodCluster =
     (Inr (gaiObject prodService), prodCluster\<lparr>cl_ConfigMaps := [gaiObject prodService]\<rparr>)"
  "cl_Deployments w = [] \<Longrightarrow> k_applyDeployment ref_kube prodChild w =
     (Inr prodChild, w\<lparr>cl_Deployments := [prodChild]\<rparr>)"
  "cl_Services w = [] \<Longrightarrow> k_applyService ref_kube prodChildService w =
     (Inr prodChildService, w\<lparr>cl_Services := [prodChildService]\<rparr>)"
  by (simp_all add: ref_calls Let_def gaiObject_refs prodChildService_refs)

lemma prod_update [simp]:
  "cl_InferenceServices w = [prodService] \<Longrightarrow> is_Meta i = is_Meta prodService \<Longrightarrow>
     k_updateInferenceServiceStatus ref_kube i w =
     (None, w\<lparr>cl_InferenceServices := [prodService\<lparr>is_Status := is_Status i\<rparr>]\<rparr>)"
  by (simp add: ref_calls)

lemma guard_prod:
  "run_state (trustedStoreConflict ref_kube prodService) s =
     (Inr [], s\<lparr>calls := calls s @ guard_calls prodService\<rparr>)" if "world s = prodCluster"
  using that by (cases s) (simp add: trustedStoreConflict_def deploymentGuard_def podGuard_def client_call_defs
      go_simps prod_fields guard_calls_def)

lemma apply_prod:
  "run_state (reconcileApply ref_kube prodService prodModel testConfig) s =
     (Returned None, s\<lparr>world := prodDone, calls := calls s @ [ApplyConfigMap (gaiObject prodService),
        ApplyDeployment prodChild, ApplyService prodChildService,
        UpdateInferenceServiceStatus prodStatus]\<rparr>)" if "world s = prodCluster"
  using that
  by (simp add: reconcileApply_def applyGaiConfigMap_def applyOwnedDeployment_def applyOwnedService_def
      applyServiceAndStatus_def updateReadyStatus_def client_call_defs go_simps prod_fields render_prod
      owned_prod owned_prodService prodDone_def prodStatus_def)

lemma run_prod:
  "run (ReconcileISVC ref_kube prodKey) prodCluster =
     (Returned None, prodDone, prodRead @ [ApplyConfigMap (gaiObject prodService),
        ApplyDeployment prodChild, ApplyService prodChildService,
        UpdateInferenceServiceStatus prodStatus])"
  by (simp add: run_def ReconcileISVC_def reconcileTenantConfig_def reconcileModel_def
      reconcileChecked_def prod_specProblem client_call_defs go_simps guard_prod apply_prod
      prod_metas prodRead_def guard_calls_def prod_fields)

definition noTenantStatus :: InferenceService where
  "noTenantStatus = failedService ref_kube ReasonTenantConfigMissing tenantMissingMessage prodService"

lemma run_noTenant:
  "run (ReconcileISVC ref_kube prodKey) noTenantCluster =
     (Returned None,
      noTenantCluster\<lparr>cl_InferenceServices := [prodService\<lparr>is_Status := is_Status noTenantStatus\<rparr>]\<rparr>,
      [GetInferenceService prodKey, GetBrukTenant tenantKey, UpdateInferenceServiceStatus noTenantStatus])"
proof -
  have reads: "k_getInferenceService ref_kube prodKey noTenantCluster = (Inr prodService, noTenantCluster)"
    "k_getBrukTenant ref_kube tenantKey noTenantCluster = (Inl NotFoundError, noTenantCluster)"
    by (simp_all add: ref_calls)
  have "ref_isNotFound NotFoundError" by (simp add: ref_isNotFound_def NotFoundError_def)
  with reads show ?thesis
    by (simp add: run_def ReconcileISVC_def reconcileTenantConfig_def failConfigured_def
        client_call_defs go_simps noTenantStatus_def)
qed

end
