(* ===== verification/ServiceProps.thy ===== *)
theory ServiceProps
  imports Scenarios
begin

text \<open>
  What the \<open>InferenceService\<close> reconciler promises, over complete runs: no panic, what has been
  read and checked when a workload is applied, the order of its writes, what a failure leaves
  alone, and what the status it writes says. Most of it holds for every behaviour of the API
  server; the statements about conditions need the contract of \<open>meta.SetStatusCondition\<close>.
\<close>

subsection \<open>The five ways a run goes\<close>

text \<open>What a run that reaches the children has read and checked.\<close>

definition cleared ::
    "'w kube \<Rightarrow> NamespacedName \<Rightarrow> 'w \<Rightarrow> InferenceService \<Rightarrow> BrukTenant \<Rightarrow> BrukModel \<Rightarrow> bool" where
  "cleared K req w isvc tenant model \<longleftrightarrow>
     (\<exists>w3 sibs ds ps w4. objects_read K req w isvc tenant model w3 \<and>
        specProblem isvc model = None \<and> store_free K isvc w3 sibs ds ps w4)"

definition check_calls :: "NamespacedName \<Rightarrow> InferenceService \<Rightarrow> call list" where
  "check_calls req isvc = object_calls req isvc @ guard_calls isvc"

lemma check_calls_read: "list_all plain_read (check_calls req isvc)"
  by (simp add: check_calls_def object_calls_def guard_calls_def)

text \<open>The calls of an application that has sent nothing, the Deployment, or both children.\<close>

definition child_calls ::
    "'w kube \<Rightarrow> InferenceService \<Rightarrow> BrukModel \<Rightarrow> Config \<Rightarrow> call list \<Rightarrow> bool" where
  "child_calls K isvc model cfg cs \<longleftrightarrow>
     cs = [] \<or>
     (\<exists>d. child_deployment K isvc model cfg d \<and>
        (cs = [ApplyDeployment d] \<or>
         (\<exists>sv. ownedService K isvc = Inr sv \<and> cs = [ApplyDeployment d, ApplyService sv])))"

lemma run_failConfigured:
  "run_state (failConfigured K isvc reason msg) s =
     (case k_updateInferenceServiceStatus K (failedService K reason msg isvc) (world s) of
        (e, w) \<Rightarrow> (Returned (map_option Api e),
          s\<lparr>world := w, calls := calls s @ [UpdateInferenceServiceStatus (failedService K reason msg isvc)]\<rparr>))"
  by (simp add: failConfigured_def client_call_defs go_simps split: prod.splits)

lemma run_updateReadyStatus:
  "run_state (updateReadyStatus K isvc model d cfg) s =
     (case k_updateInferenceServiceStatus K (readyService K isvc model d cfg) (world s) of
        (e, w) \<Rightarrow> (Returned (map_option Api e),
          s\<lparr>world := w, calls := calls s @ [UpdateInferenceServiceStatus (readyService K isvc model d cfg)]\<rparr>))"
  by (simp add: updateReadyStatus_def client_call_defs go_simps split: prod.splits)

lemma run_simp: "run m w = (r, w', cs) \<longleftrightarrow> run_state m \<lparr>world = w, calls = []\<rparr> = (r, \<lparr>world = w', calls = cs\<rparr>)"
  by (auto simp: run_def split: prod.splits)

lemma reconcile_run_cases:
  assumes "run (ReconcileISVC K req) w = (r, w', cs)"
  obtains (gone) e where "fst (k_getInferenceService K req w) = Inl e" "k_ignoreNotFound K e = None"
      "r = Returned None" "cs = [GetInferenceService req]"
  | (quiet) err where "r = Returned (Some err)" "list_all plain_read cs"
  | (failed) isvc reason msg reads e where "fst (k_getInferenceService K req w) = Inr isvc"
      "reason \<in> failure_reasons" "list_all plain_read reads"
      "cs = reads @ [UpdateInferenceServiceStatus (failedService K reason msg isvc)]"
      "r = Returned (map_option Api e)"
  | (stopped) isvc tenant model err sent where "cleared K req w isvc tenant model"
      "r = Returned (Some err)" "child_calls K isvc model (tenantConfig tenant) sent"
      "cs = check_calls req isvc @ gai_calls isvc @ sent"
  | (unrendered) isvc tenant model err e where "cleared K req w isvc tenant model"
      "renderDeployment isvc model (tenantConfig tenant) = Some (Inl err)"
      "cs = check_calls req isvc @ gai_calls isvc
         @ [UpdateInferenceServiceStatus (failedService K ReasonInvalidConfig (error_text err) isvc)]"
      "r = Returned (map_option Api e)"
  | (applied) isvc tenant model d resp w1 w2 sv e sresp w3 where "cleared K req w isvc tenant model"
      "child_deployment K isvc model (tenantConfig tenant) d"
      "k_applyDeployment K d w1 = (Inr resp, w2)" "ownedService K isvc = Inr sv"
      "cs = check_calls req isvc @ gai_calls isvc @ [ApplyDeployment d, ApplyService sv,
         UpdateInferenceServiceStatus (readyService K isvc model resp (tenantConfig tenant))]"
      "r = Returned (map_option Api e)" "k_applyService K sv w2 = (Inr sresp, w3)"
proof -
  let ?s = "\<lparr>world = w, calls = []\<rparr>"
  from assms have run: "run_state (ReconcileISVC K req) ?s = (r, \<lparr>world = w', calls = cs\<rparr>)"
    by (simp add: run_simp)
  show thesis
  proof (cases rule: ReconcileISVC_cases [of K req ?s])
    case (gone e w1)
    with run that(1) show thesis by simp
  next
    case quiet
    with run that(2) show thesis by (auto simp: quiet_end_def)
  next
    case (failed isvc)
    then obtain reason msg w1 reads where f: "reason \<in> failure_reasons" "list_all plain_read reads"
      "run_state (ReconcileISVC K req) ?s = run_state (failConfigured K isvc reason msg)
         (?s\<lparr>world := w1, calls := reads\<rparr>)" "fst (k_getInferenceService K req w) = Inr isvc"
      by (auto simp: failed_end_def)
    obtain e w2 where "k_updateInferenceServiceStatus K (failedService K reason msg isvc) w1 = (e, w2)"
      by fastforce
    with run f have "r = Returned (map_option Api e)"
      "cs = reads @ [UpdateInferenceServiceStatus (failedService K reason msg isvc)]"
      by (simp_all add: run_failConfigured)
    from that(3) [OF f(4,1,2) this(2,1)] show thesis .
  next
    case (applied isvc tenant model w3 sibs ds ps w4)
    then have "objects_read K req w isvc tenant model w3" by simp
    with applied(3,4) have clear: "cleared K req w isvc tenant model" unfolding cleared_def by blast
    let ?cfg = "tenantConfig tenant" and ?s4 = "\<lparr>world = w4, calls = check_calls req isvc\<rparr>"
    from applied(1) run have run4: "run_state (reconcileApply K isvc model ?cfg) ?s4 = (r, \<lparr>world = w', calls = cs\<rparr>)"
      by (simp add: check_calls_def)
    show thesis
    proof (cases rule: reconcileApply_cases [of K isvc model ?cfg ?s4])
      case stopped
      then obtain err pre where end_eq: "r = Returned (Some err)" "cs = check_calls req isvc @ pre"
        and "pre = gai_calls isvc \<or> (\<exists>d. child_deployment K isvc model ?cfg d \<and>
            (pre = gai_calls isvc @ [ApplyDeployment d] \<or>
             (\<exists>sv. ownedService K isvc = Inr sv \<and>
                pre = gai_calls isvc @ [ApplyDeployment d, ApplyService sv])))"
        unfolding run4 by (auto simp: apply_stopped_def)
      then obtain sent where "pre = gai_calls isvc @ sent" "child_calls K isvc model ?cfg sent"
        unfolding child_calls_def by (metis append_Nil2)
      with end_eq clear that(4) show thesis by simp
    next
      case (unrendered err w5)
      obtain e w6 where "k_updateInferenceServiceStatus K
          (failedService K ReasonInvalidConfig (error_text err) isvc) w5 = (e, w6)" by fastforce
      with run4 unrendered have "r = Returned (map_option Api e)"
        "cs = check_calls req isvc @ gai_calls isvc
           @ [UpdateInferenceServiceStatus (failedService K ReasonInvalidConfig (error_text err) isvc)]"
        by (simp_all add: run_failConfigured)
      from that(5) [OF clear unrendered(1) this(2,1)] show thesis .
    next
      case (applied d resp w5 w6 sv sresp w7)
      obtain e w8 where "k_updateInferenceServiceStatus K (readyService K isvc model resp ?cfg) w7 = (e, w8)"
        by fastforce
      with run4 applied(5) have "r = Returned (map_option Api e)"
        "cs = check_calls req isvc @ gai_calls isvc @ [ApplyDeployment d, ApplyService sv,
           UpdateInferenceServiceStatus (readyService K isvc model resp ?cfg)]"
        by (simp_all add: run_updateReadyStatus)
      from that(6) [OF clear applied(1-3) this(2,1) applied(4)] show thesis .
    qed
  qed
qed

text \<open>What each call of the program is, and the two kinds of status the reconciler writes.\<close>

lemma writes_check [simp]: "writes (check_calls req isvc) = []"
  by (rule plain_read_writes [OF check_calls_read])

lemma plain_read_not_write:
  "list_all plain_read cs \<Longrightarrow> ApplyDeployment d \<notin> set cs"
  "list_all plain_read cs \<Longrightarrow> ApplyService sv \<notin> set cs"
  "list_all plain_read cs \<Longrightarrow> UpdateInferenceServiceStatus i \<notin> set cs"
  "list_all plain_read cs \<Longrightarrow> ApplyConfigMap cm \<notin> set cs"
  by (auto simp: list_all_iff)

lemma check_not_write [simp]:
  "ApplyDeployment d \<notin> set (check_calls req isvc)" "ApplyService sv \<notin> set (check_calls req isvc)"
  "UpdateInferenceServiceStatus i \<notin> set (check_calls req isvc)"
  "ApplyConfigMap cm \<notin> set (check_calls req isvc)"
  using plain_read_not_write [OF check_calls_read] by auto

lemma gai_not_child [simp]:
  "ApplyDeployment d \<notin> set (gai_calls isvc)" "ApplyService sv \<notin> set (gai_calls isvc)"
  "UpdateInferenceServiceStatus i \<notin> set (gai_calls isvc)"
  by (auto simp: gai_calls_def)

lemma writes_gai [simp]: "writes (gai_calls isvc) = gai_calls isvc"
  by (simp add: gai_calls_def)

lemma child_calls_status: "child_calls K isvc model cfg cs \<Longrightarrow> UpdateInferenceServiceStatus i \<notin> set cs"
  by (auto simp: child_calls_def)

lemma child_calls_deployment:
  "child_calls K isvc model cfg cs \<Longrightarrow> ApplyDeployment d \<in> set cs \<Longrightarrow> child_deployment K isvc model cfg d"
  by (auto simp: child_calls_def)

subsection \<open>Safety of a run\<close>

text \<open>C17: A reconcile never panics. Whatever the API server and the libraries answer, the run
  returns; no nil pointer of a decoded object is dereferenced on any path.\<close>

theorem reconcile_never_panics: "fst (run (ReconcileISVC K req) w) \<noteq> Panicked"
proof -
  obtain r w' cs where run: "run (ReconcileISVC K req) w = (r, w', cs)"
    by (cases "run (ReconcileISVC K req) w")
  then have "r \<noteq> Panicked" by (cases rule: reconcile_run_cases) simp_all
  with run show ?thesis by simp
qed

text \<open>C14: The guarded deployment. A run that applies a Deployment has, in this run, read the
  service, the tenant and the model; the service has no reserved local volume and asks for no
  longer context than the model has; listing the namespace has shown no service that precedes it
  on its claim, no Deployment of another controller and no standalone Pod that mounts the claim;
  and what it applies is the rendering of exactly these objects under the service's control.\<close>

theorem deployment_applied_guarded:
  assumes "run (ReconcileISVC K req) w = (r, w', cs)" and "ApplyDeployment d \<in> set cs"
  shows "\<exists>isvc tenant model w3 sibs ds ps w4. objects_read K req w isvc tenant model w3 \<and>
      isvc_LocalVolume isvc = None \<and> model_HuggingFace model \<noteq> None \<and>
      sint (es_MaxModelLen (iss_Engine (is_Spec isvc)))
        \<le> sint (cat_ContextLength (bms_Catalog (bm_Spec model))) \<and>
      store_free K isvc w3 sibs ds ps w4 \<and>
      child_deployment K isvc model (tenantConfig tenant) d"
proof -
  have spec: "specProblem isvc model = None \<Longrightarrow> isvc_LocalVolume isvc = None \<and>
      model_HuggingFace model \<noteq> None \<and> sint (es_MaxModelLen (iss_Engine (is_Spec isvc)))
        \<le> sint (cat_ContextLength (bms_Catalog (bm_Spec model)))" for isvc model
    by (auto simp: specProblem_def split: if_splits)
  from assms(1) show ?thesis
  proof (cases rule: reconcile_run_cases)
    case (stopped isvc tenant model err sent)
    with assms(2) have "child_deployment K isvc model (tenantConfig tenant) d"
      by (auto dest: child_calls_deployment)
    with stopped(1) spec show ?thesis unfolding cleared_def by blast
  next
    case (applied isvc tenant model d')
    with assms(2) have "d' = d" by auto
    with applied(1,2) spec show ?thesis unfolding cleared_def by blast
  qed (use assms(2) in \<open>auto dest: plain_read_not_write\<close>)
qed

theorem deployment_applied_guarded_witness:
  "\<exists>isvc tenant model. isvc_LocalVolume isvc = None \<and>
     child_deployment ref_kube isvc model (tenantConfig tenant) prodChild"
  using deployment_applied_guarded [OF run_prod, of prodChild] by auto



end
