(* ===== verification/StatusProps.thy ===== *)
theory StatusProps
  imports ServiceProps
begin

text \<open>
  What the status says. The conditions a run writes, read through \<open>meta.FindStatusCondition\<close>,
  under the contract of \<open>meta.SetStatusCondition\<close>; what a failure status keeps of the previous
  one; how a success status agrees with the workload that was applied; and that the initdata
  blob reaches the status only as its hash.
\<close>

subsection \<open>The conditions of the two statuses\<close>

abbreviation condition_of :: "InferenceService \<Rightarrow> string \<Rightarrow> Condition option" where
  "condition_of i t \<equiv> findCondition (ist_Conditions (is_Status i)) t"

definition condition_now :: "InferenceService \<Rightarrow> string \<Rightarrow> string \<Rightarrow> string \<Rightarrow> string \<Rightarrow> Condition" where
  "condition_now i t status reason message =
     \<lparr>c_Type = t, c_Status = status, c_Reason = reason, c_Message = message,
      c_ObservedGeneration = om_Generation (is_Meta i)\<rparr>"

lemma condition_of_setCondition:
  assumes "status_conditions (k_setStatusCondition K)"
  shows "condition_of (setCondition K t st reason msg i) t' =
    (if t' = t then Some (condition_now i t st reason msg) else condition_of i t')"
  using status_conditions.find_set [OF assms]
  by (simp add: setCondition_def condition_now_def)

lemma condition_of_frame [simp]:
  "condition_of (setObservedGeneration i) t = condition_of i t"
  "condition_now (setCondition K t st reason msg i) = condition_now i"
  by (simp_all add: setObservedGeneration_def condition_now_def fun_eq_iff)

lemma setCondition_frame [simp]:
  "ist_Endpoint (is_Status (setCondition K t st reason msg i)) = ist_Endpoint (is_Status i)"
  "ist_ServedModelName (is_Status (setCondition K t st reason msg i)) = ist_ServedModelName (is_Status i)"
  "ist_ResolvedImage (is_Status (setCondition K t st reason msg i)) = ist_ResolvedImage (is_Status i)"
  "ist_AppliedInitDataHash (is_Status (setCondition K t st reason msg i)) = ist_AppliedInitDataHash (is_Status i)"
  "ist_ObservedGeneration (is_Status (setCondition K t st reason msg i)) = ist_ObservedGeneration (is_Status i)"
  by (simp_all add: setCondition_def)

lemma setObservedGeneration_frame [simp]:
  "ist_Endpoint (is_Status (setObservedGeneration i)) = ist_Endpoint (is_Status i)"
  "ist_ServedModelName (is_Status (setObservedGeneration i)) = ist_ServedModelName (is_Status i)"
  "ist_ResolvedImage (is_Status (setObservedGeneration i)) = ist_ResolvedImage (is_Status i)"
  "ist_AppliedInitDataHash (is_Status (setObservedGeneration i)) = ist_AppliedInitDataHash (is_Status i)"
  "ist_ObservedGeneration (is_Status (setObservedGeneration i)) = om_Generation (is_Meta i)"
  by (simp_all add: setObservedGeneration_def)

lemma condition_types_distinct [simp]:
  "ConditionConfigured \<noteq> ConditionReady" "ConditionConfigured \<noteq> ConditionProgressing"
  "ConditionConfigured \<noteq> ConditionWorkloadAvailable" "ConditionReady \<noteq> ConditionProgressing"
  "ConditionReady \<noteq> ConditionWorkloadAvailable" "ConditionProgressing \<noteq> ConditionWorkloadAvailable"
  "ConditionReady \<noteq> ConditionConfigured" "ConditionProgressing \<noteq> ConditionConfigured"
  "ConditionWorkloadAvailable \<noteq> ConditionConfigured" "ConditionProgressing \<noteq> ConditionReady"
  "ConditionWorkloadAvailable \<noteq> ConditionReady" "ConditionWorkloadAvailable \<noteq> ConditionProgressing"
  by (simp_all add: condition_type_defs)

lemma ConditionStatus_distinct [simp]: "ConditionTrue \<noteq> ConditionFalse" "ConditionFalse \<noteq> ConditionTrue"
  by (simp_all add: ConditionTrue_def ConditionFalse_def)

lemma failed_conditions:
  assumes "status_conditions (k_setStatusCondition K)"
  shows "condition_of (failedService K reason msg i) t =
    (if t \<in> {ConditionConfigured, ConditionReady, ConditionProgressing}
     then Some (condition_now i t ConditionFalse reason msg) else condition_of i t)"
  by (simp add: failedService_def condition_of_setCondition [OF assms])

lemma failed_frame:
  "ist_Endpoint (is_Status (failedService K reason msg i)) = ist_Endpoint (is_Status i)"
  "ist_ServedModelName (is_Status (failedService K reason msg i)) = ist_ServedModelName (is_Status i)"
  "ist_ResolvedImage (is_Status (failedService K reason msg i)) = ist_ResolvedImage (is_Status i)"
  "ist_AppliedInitDataHash (is_Status (failedService K reason msg i)) = ist_AppliedInitDataHash (is_Status i)"
  "ist_ObservedGeneration (is_Status (failedService K reason msg i)) = om_Generation (is_Meta i)"
  by (simp_all add: failedService_def)

text \<open>The condition of each type after a successful application.\<close>

definition ready_condition :: "InferenceService \<Rightarrow> bool \<Rightarrow> string \<Rightarrow> Condition option" where
  "ready_condition i available t =
     (if t = ConditionConfigured then
        Some (condition_now i t ConditionTrue ReasonConfigured ''workload rendered and applied'')
      else if t = ConditionWorkloadAvailable then
        Some (if available then condition_now i t ConditionTrue ReasonWorkloadReady ''Deployment is Available''
              else condition_now i t ConditionFalse ReasonWorkloadPending pendingMessage)
      else if t = ConditionReady then
        Some (if available then condition_now i t ConditionTrue ReasonWorkloadReady ''workload is serving''
              else condition_now i t ConditionFalse ReasonWorkloadPending pendingMessage)
      else if t = ConditionProgressing then
        Some (if available then condition_now i t ConditionFalse ReasonWorkloadReady ''rollout complete''
              else condition_now i t ConditionTrue ReasonDeploying pendingMessage)
      else condition_of i t)"

lemma ready_conditions:
  assumes "status_conditions (k_setStatusCondition K)"
  shows "condition_of (readyService K i model d cfg) t = ready_condition i (deploymentAvailable d) t"
  by (simp add: readyService_def Let_def condition_of_setCondition [OF assms] ready_condition_def)

lemma ready_frame:
  "ist_Endpoint (is_Status (readyService K i model d cfg)) = Some \<lparr>ep_URL = EndpointURL i\<rparr>"
  "ist_ServedModelName (is_Status (readyService K i model d cfg)) = ServedModelName model"
  "ist_ResolvedImage (is_Status (readyService K i model d cfg)) = cfg_DefaultImage cfg"
  "ist_AppliedInitDataHash (is_Status (readyService K i model d cfg)) = InitDataHash (cfg_InitDataB64 cfg)"
  "ist_ObservedGeneration (is_Status (readyService K i model d cfg)) = om_Generation (is_Meta i)"
  by (simp_all add: readyService_def Let_def ResolveImage_def)

lemma condition_now_sels [simp]:
  "c_Status (condition_now i t st reason msg) = st" "c_Reason (condition_now i t st reason msg) = reason"
  "c_Type (condition_now i t st reason msg) = t" "c_Message (condition_now i t st reason msg) = msg"
  "c_ObservedGeneration (condition_now i t st reason msg) = om_Generation (is_Meta i)"
  by (simp_all add: condition_now_def)

definition condition_true :: "InferenceService \<Rightarrow> string \<Rightarrow> bool" where
  "condition_true i t \<longleftrightarrow> map_option c_Status (condition_of i t) = Some ConditionTrue"

lemma failed_true:
  assumes "status_conditions (k_setStatusCondition K)"
  shows "\<not> condition_true (failedService K reason msg i) ConditionConfigured"
    "\<not> condition_true (failedService K reason msg i) ConditionReady"
  by (simp_all add: condition_true_def failed_conditions [OF assms])

lemma ready_true:
  assumes "status_conditions (k_setStatusCondition K)"
  shows "condition_true (readyService K i model d cfg) ConditionConfigured"
    "condition_true (readyService K i model d cfg) ConditionWorkloadAvailable = deploymentAvailable d"
    "condition_true (readyService K i model d cfg) ConditionReady = deploymentAvailable d"
    "condition_true (readyService K i model d cfg) ConditionProgressing = (\<not> deploymentAvailable d)"
  by (simp_all add: condition_true_def ready_conditions [OF assms] ready_condition_def)

lemma cleared_service: "cleared K req w isvc tenant model \<Longrightarrow> fst (k_getInferenceService K req w) = Inr isvc"
  unfolding cleared_def objects_read_def
  by (elim exE conjE, cases "k_getInferenceService K req w") (auto split: prod.splits)

text \<open>The status a run writes is one of the two, and a success status closes a full application.\<close>

lemma status_write_cases:
  assumes "run (ReconcileISVC K req) w = (r, w', cs)" and "UpdateInferenceServiceStatus i \<in> set cs"
  obtains (failed) reason msg isvc where "i = failedService K reason msg isvc"
      "fst (k_getInferenceService K req w) = Inr isvc" "reason \<in> failure_reasons"
      "\<And>d. ApplyDeployment d \<notin> set cs" "\<And>sv. ApplyService sv \<notin> set cs"
  | (ready) isvc tenant model d resp w1 w2 sv sresp w3 where "cleared K req w isvc tenant model"
      "i = readyService K isvc model resp (tenantConfig tenant)"
      "child_deployment K isvc model (tenantConfig tenant) d"
      "k_applyDeployment K d w1 = (Inr resp, w2)" "ownedService K isvc = Inr sv"
      "cs = check_calls req isvc @ gai_calls isvc @ [ApplyDeployment d, ApplyService sv,
         UpdateInferenceServiceStatus i]"
      "k_applyService K sv w2 = (Inr sresp, w3)"
  using assms(1)
proof (cases rule: reconcile_run_cases)
  case (failed isvc reason msg reads)
  with assms(2) have "i = failedService K reason msg isvc" by (auto dest: plain_read_not_write)
  with failed show thesis by (intro that(1)) (auto dest: plain_read_not_write)
next
  case (stopped isvc tenant model err sent)
  with assms(2) show thesis by (auto dest: child_calls_status)
next
  case (unrendered isvc tenant model err)
  with assms(2) have "i = failedService K ReasonInvalidConfig (error_text err) isvc" by auto
  moreover note cleared_service [OF unrendered(1)]
  ultimately show thesis using unrendered(3) by (intro that(1)) (auto simp: failure_reasons_def)
next
  case (applied isvc tenant model d resp w1 w2 sv)
  with assms(2) have "i = readyService K isvc model resp (tenantConfig tenant)" by auto
  with applied show thesis by (intro that(2)) simp_all
qed (use assms(2) in \<open>auto dest: plain_read_not_write\<close>)

subsection \<open>Properties of the status\<close>

text \<open>C15: A failure touches no workload. A run that writes a status whose \<open>Configured\<close> condition is
  not true applies neither a Deployment nor a Service; the status is the service's own, with its
  metadata and spec, with \<open>Ready\<close> false for the same reason and message as \<open>Configured\<close>, and with
  the availability condition, the endpoint, the served name, the image and the initdata hash of
  the last successful run left in place.\<close>

theorem failure_touches_no_workload:
  assumes "status_conditions (k_setStatusCondition K)"
    and "run (ReconcileISVC K req) w = (r, w', cs)"
    and "UpdateInferenceServiceStatus i \<in> set cs" and "\<not> condition_true i ConditionConfigured"
  shows "(ApplyDeployment d \<notin> set cs \<and> ApplyService sv \<notin> set cs) \<and>
    (\<exists>isvc reason msg. fst (k_getInferenceService K req w) = Inr isvc \<and>
       is_Meta i = is_Meta isvc \<and> is_Spec i = is_Spec isvc \<and> reason \<in> failure_reasons \<and>
       condition_of i ConditionConfigured
         = Some (condition_now isvc ConditionConfigured ConditionFalse reason msg) \<and>
       condition_of i ConditionReady
         = Some (condition_now isvc ConditionReady ConditionFalse reason msg) \<and>
       condition_of i ConditionWorkloadAvailable = condition_of isvc ConditionWorkloadAvailable \<and>
       is_Status i = (is_Status isvc)\<lparr>ist_Conditions := ist_Conditions (is_Status i),
         ist_ObservedGeneration := om_Generation (is_Meta isvc)\<rparr>)"
  using assms(2,3)
proof (cases rule: status_write_cases)
  case (failed reason msg isvc)
  have "is_Status i = (is_Status isvc)\<lparr>ist_Conditions := ist_Conditions (is_Status i),
      ist_ObservedGeneration := om_Generation (is_Meta isvc)\<rparr>"
    unfolding failed(1) by (intro InferenceServiceStatus.equality) (simp_all add: failed_frame)
  with failed(2-5) show ?thesis
    unfolding failed(1) by (auto simp: failed_conditions [OF assms(1)])
next
  case ready
  with assms(4) ready_true(1) [OF assms(1)] show ?thesis by simp
qed

theorem failure_touches_no_workload_witness:
  "ApplyDeployment prodChild \<notin> set [GetInferenceService prodKey, GetBrukTenant tenantKey,
     UpdateInferenceServiceStatus noTenantStatus] \<and>
   ist_Endpoint (is_Status noTenantStatus) = None"
  using failure_touches_no_workload [of ref_kube, OF _ run_noTenant, of noTenantStatus]
    ref_sc.status_conditions_axioms failed_true(1) [of ref_kube]
  by (simp add: noTenantStatus_def failed_frame prodService_def)

text \<open>Status truth. In every status a run writes, \<open>Ready\<close> is true exactly when \<open>Configured\<close> and
  \<open>WorkloadAvailable\<close> both are; and the observed generation, of the status and of the
  \<open>Configured\<close>, \<open>Ready\<close> and \<open>Progressing\<close> conditions, is the generation of the service it
  was computed from.\<close>

theorem status_truth:
  assumes "status_conditions (k_setStatusCondition K)"
    and "run (ReconcileISVC K req) w = (r, w', cs)" and "UpdateInferenceServiceStatus i \<in> set cs"
  shows "(condition_true i ConditionReady \<longleftrightarrow>
      condition_true i ConditionConfigured \<and> condition_true i ConditionWorkloadAvailable) \<and>
    ist_ObservedGeneration (is_Status i) = om_Generation (is_Meta i) \<and>
    (\<lambda>t. map_option c_ObservedGeneration (condition_of i t))
        ` {ConditionConfigured, ConditionReady, ConditionProgressing}
      = {Some (om_Generation (is_Meta i))}"
  using assms(2,3)
proof (cases rule: status_write_cases)
  case failed
  then show ?thesis
    by (auto simp: failed_true [OF assms(1)] failed_conditions [OF assms(1)] failed_frame)
next
  case ready
  then show ?thesis
    by (auto simp: ready_true [OF assms(1)] ready_conditions [OF assms(1)] ready_condition_def ready_frame)
qed

theorem status_truth_witness:
  "condition_true prodStatus ConditionReady \<longleftrightarrow>
     condition_true prodStatus ConditionConfigured \<and> condition_true prodStatus ConditionWorkloadAvailable"
  using status_truth [of ref_kube, OF _ run_prod, of prodStatus] ref_sc.status_conditions_axioms
  by simp

lemma child_deployment_parts:
  assumes "child_deployment K isvc model cfg d"
  obtains rendered m where "renderDeployment isvc model cfg = Some (Inr rendered)"
    "k_setControllerReference K (is_Meta isvc) (d_Meta rendered) = Inr m"
    "d_Meta d = m" "d_Spec d = d_Spec rendered"
proof -
  from assms obtain rendered where r: "renderDeployment isvc model cfg = Some (Inr rendered)"
    and d: "ownedDeployment K isvc rendered = Inr d" by (auto simp: child_deployment_def)
  from d show thesis
    by (cases "k_setControllerReference K (is_Meta isvc) (d_Meta rendered)")
      (use that [OF r] in \<open>auto simp: ownedDeployment_def Let_def\<close>)
qed

lemma ownedService_parts:
  assumes "ownedService K isvc = Inr sv"
  obtains m where "k_setControllerReference K (is_Meta isvc) (svc_Meta (renderService isvc)) = Inr m"
    "svc_Meta sv = m" "svc_Ports sv = svc_Ports (renderService isvc)"
    "svc_Selector sv = svc_Selector (renderService isvc)"
  using assms that
  by (cases "k_setControllerReference K (is_Meta isvc) (svc_Meta (renderService isvc))")
    (auto simp: ownedService_def Let_def)

text \<open>The URL of a Service of that name and namespace.\<close>

definition service_url :: "Service \<Rightarrow> string" where
  "service_url sv = ''http://'' @ om_Name (svc_Meta sv) @ ''.'' @ om_Namespace (svc_Meta sv)
     @ ''.svc.cluster.local:'' @ fmt_d (sint (sp_Port (hd (svc_Ports sv)))) @ ''/v1''"

lemma renderService_fields [render_simps]:
  "om_Name (svc_Meta (renderService isvc)) = ServiceName isvc"
  "om_Namespace (svc_Meta (renderService isvc)) = isvc_Namespace isvc"
  "svc_Ports (renderService isvc) = [\<lparr>sp_Port = servingPort, sp_TargetPort = servingPort\<rparr>]"
  "om_OwnerReferences (svc_Meta (renderService isvc)) = []"
  by (simp_all add: renderService_def zero_ObjectMeta_def)

lemma served_name_in_args:
  "engineArgs isvc model = Some args \<Longrightarrow> ''--served-model-name='' @ ServedModelName model \<in> set args"
  by (cases "model_HuggingFace model") (auto simp: engineArgs_def Let_def)


lemma prodStatus_configured: "condition_true prodStatus ConditionConfigured"
  unfolding prodStatus_def by (rule ready_true(1)) (simp add: ref_sc.status_conditions_axioms)


text \<open>Success is recorded. A run that returns nil has either found the service gone and written
  nothing, or ended with the update of the service's status, which the server accepted last.\<close>

theorem nil_return_recorded:
  assumes "not_found (k_isNotFound K) (k_ignoreNotFound K)"
    and "run (ReconcileISVC K req) w = (Returned None, w', cs)"
  shows "(\<exists>e. fst (k_getInferenceService K req w) = Inl e \<and> k_isNotFound K e \<and> writes cs = []) \<or>
    (\<exists>i isvc. fst (k_getInferenceService K req w) = Inr isvc \<and> is_Meta i = is_Meta isvc \<and>
       is_Spec i = is_Spec isvc \<and> last cs = UpdateInferenceServiceStatus i)"
  using assms(2)
proof (cases rule: reconcile_run_cases)
  case (gone e)
  then show ?thesis using not_found.ignored [OF assms(1)] by simp
next
  case (failed isvc reason msg reads)
  then have "last cs = UpdateInferenceServiceStatus (failedService K reason msg isvc)" by simp
  with failed(1) show ?thesis by (intro disjI2 exI conjI) (rule failed, simp_all)
next
  case (unrendered isvc tenant model err)
  then have "last cs = UpdateInferenceServiceStatus (failedService K ReasonInvalidConfig (error_text err) isvc)"
    by simp
  with cleared_service [OF unrendered(1)] show ?thesis
    by (intro disjI2 exI conjI) (assumption, simp_all)
next
  case (applied isvc tenant model d resp)
  then have "last cs = UpdateInferenceServiceStatus (readyService K isvc model resp (tenantConfig tenant))"
    by simp
  with cleared_service [OF applied(1)] show ?thesis
    by (intro disjI2 exI conjI) (assumption, simp_all)
qed simp_all

theorem nil_return_recorded_witness:
  "is_Meta prodStatus = is_Meta prodService \<and> is_Spec prodStatus = is_Spec prodService"
  using nil_return_recorded [OF _ run_prod] ref_nf.not_found_axioms by simp

text \<open>The initdata blob reaches the status only as its hash. Changing the blob of the cluster's
  configuration changes, in the status a successful run writes, the recorded hash and nothing
  else.\<close>

theorem blob_only_as_hash:
  "readyService K isvc model d (cfg\<lparr>cfg_InitDataB64 := blob\<rparr>) =
   (let i = readyService K isvc model d cfg
    in i\<lparr>is_Status := (is_Status i)\<lparr>ist_AppliedInitDataHash := InitDataHash blob\<rparr>\<rparr>)"
  by (simp add: readyService_def Let_def ResolveImage_def setObservedGeneration_def setCondition_def)

text \<open>The shared ConfigMap. A run applies a ConfigMap exactly before it applies a workload that
  mounts it: the Deployment it sends has a ConfigMap volume only if the same run has sent, before,
  the ConfigMap of that name in that namespace, without owner references, so that deleting one
  service does not collect it from under another.\<close>

theorem configmap_before_use:
  assumes "controller_references (k_isControlledBy K) (k_setControllerReference K)"
    and "run (ReconcileISVC K req) w = (r, w', cs)" and "cs = pre @ ApplyDeployment d # post"
    and "v \<in> set (ps_Volumes (pod_of d))" and "v_ConfigMap v = Some name"
  shows "\<exists>cm. ApplyConfigMap cm \<in> set pre \<and> om_Name (cm_Meta cm) = name \<and>
      om_Namespace (cm_Meta cm) = om_Namespace (d_Meta d) \<and> om_OwnerReferences (cm_Meta cm) = []"
proof -
  have sent: "ApplyDeployment d \<in> set cs" using assms(3) by simp
  obtain isvc tenant model ds rest where cs: "cs = check_calls req isvc @ gai_calls isvc @ ApplyDeployment ds # rest"
    and child: "child_deployment K isvc model (tenantConfig tenant) ds"
    and rest: "\<And>d'. ApplyDeployment d' \<notin> set rest"
    using assms(2)
  proof (cases rule: reconcile_run_cases)
    case (stopped isvc tenant model err sent')
    with sent show thesis by (auto simp: child_calls_def intro: that)
  next
    case (applied isvc tenant model d')
    then show thesis by (intro that) auto
  qed (use sent in \<open>auto dest: plain_read_not_write\<close>)
  have "pre @ ApplyDeployment d # post = (check_calls req isvc @ gai_calls isvc) @ ApplyDeployment ds # rest"
    using cs assms(3) by simp
  then have "pre = check_calls req isvc @ gai_calls isvc \<and> ApplyDeployment d = ApplyDeployment ds"
    by (rule split_unique [where P = "\<lambda>c. \<exists>d. c = ApplyDeployment d"]) (use rest in auto)
  then have pre: "pre = check_calls req isvc @ gai_calls isvc" and d: "d = ds" by simp_all
  from child d obtain rendered m where r: "renderDeployment isvc model (tenantConfig tenant) = Some (Inr rendered)"
    "k_setControllerReference K (is_Meta isvc) (d_Meta rendered) = Inr m" "d_Meta d = m" "d_Spec d = d_Spec rendered"
    by (metis child_deployment_parts)
  obtain co vols where co: "rendered = deploymentOf isvc (tenantConfig tenant) co vols"
    and vols: "volumes isvc (isvc_WeightsCache isvc \<noteq> None) = Some vols"
    using r(1) by (rule rendered_deploymentOf)
  have ns: "om_Namespace (d_Meta d) = isvc_Namespace isvc"
    using controller_references.set_key(2) [OF assms(1) r(2)] r(3) by (simp add: co render_simps)
  have "isvc_WeightsCache isvc \<noteq> None \<and> name = GaiConfigMapName"
    using assms(4,5) unfolding r(4) co render_simps rendered_volumes [OF vols]
    by (auto simp: emptyDirVolume_def configMapVolume_def claimVolume_def split: option.splits if_splits)
  then show ?thesis
    by (intro exI [of _ "gaiObject isvc"])
      (simp add: pre gai_calls_def ns gaiObject_def renderGaiConfigMap_def zero_ObjectMeta_def)
qed

theorem configmap_before_use_witness:
  "\<exists>cm. ApplyConfigMap cm \<in> set (prodRead @ [ApplyConfigMap (gaiObject prodService)]) \<and>
     om_Name (cm_Meta cm) = GaiConfigMapName \<and> om_OwnerReferences (cm_Meta cm) = []"
proof -
  have "configMapVolume ''gai'' GaiConfigMapName \<in> set (ps_Volumes (pod_of prodChild))"
    by (simp add: goldenDeployment_def goldenVolumes_def GaiConfigMapName_def)
  then show ?thesis
    using configmap_before_use [of ref_kube, OF _ run_prod,
        of "prodRead @ [ApplyConfigMap (gaiObject prodService)]" prodChild _
          "configMapVolume ''gai'' GaiConfigMapName" GaiConfigMapName]
      ref_cr.controller_references_axioms
    by (simp add: configMapVolume_def) blast
qed

text \<open>The children are the service's. Every Deployment and every Service a run applies has the
  service that was read as its controller, lives in that service's namespace under the name
  derived from it, and the Service selects the pods of the Deployment.\<close>

theorem children_owned:
  assumes "controller_references (k_isControlledBy K) (k_setControllerReference K)"
    and "run (ReconcileISVC K req) w = (r, w', cs)"
    and "ApplyDeployment d \<in> set cs" and "ApplyService sv \<in> set cs"
  shows "\<exists>isvc. fst (k_getInferenceService K req w) = Inr isvc \<and>
      k_isControlledBy K (d_Meta d) (is_Meta isvc) \<and> k_isControlledBy K (svc_Meta sv) (is_Meta isvc) \<and>
      meta_key (d_Meta d) = meta_key (is_Meta isvc) \<and>
      om_Namespace (svc_Meta sv) = isvc_Namespace isvc \<and> om_Name (svc_Meta sv) = isvc_Name isvc @ ''-svc'' \<and>
      svc_Selector sv = pt_Labels (ds_Template (d_Spec d))"
proof -
  obtain isvc tenant model where clear: "cleared K req w isvc tenant model"
    and d: "child_deployment K isvc model (tenantConfig tenant) d" and sv: "ownedService K isvc = Inr sv"
    using assms(2)
  proof (cases rule: reconcile_run_cases)
    case (stopped isvc tenant model err sent)
    with assms(3,4) that [OF stopped(1)] show thesis by (auto simp: child_calls_def gai_calls_def)
  next
    case (applied isvc tenant model d')
    with assms(3,4) that [OF applied(1)] show thesis by auto
  qed (use assms(3) in \<open>auto dest: plain_read_not_write\<close>)
  from d obtain rendered m where r: "renderDeployment isvc model (tenantConfig tenant) = Some (Inr rendered)"
    "k_setControllerReference K (is_Meta isvc) (d_Meta rendered) = Inr m" "d_Meta d = m" "d_Spec d = d_Spec rendered"
    by (rule child_deployment_parts)
  obtain co vols where co: "rendered = deploymentOf isvc (tenantConfig tenant) co vols"
    using r(1) by (rule rendered_deploymentOf)
  from sv obtain ms where s: "k_setControllerReference K (is_Meta isvc) (svc_Meta (renderService isvc)) = Inr ms"
    "svc_Meta sv = ms" "svc_Selector sv = svc_Selector (renderService isvc)" by (rule ownedService_parts)
  note keys = controller_references.set_key [OF assms(1)]
  show ?thesis
    using cleared_service [OF clear] controller_references.set_controls [OF assms(1)] r(2,3) s(1,2)
      keys(1,2) [OF r(2)] keys(1,2) [OF s(1)]
    by (intro exI [of _ isvc])
      (simp add: meta_key_eq co r(4) s(3) render_simps ServiceName_def renderService_def)
qed

theorem children_owned_witness:
  "ref_isControlledBy (d_Meta prodChild) (is_Meta prodService) \<and>
   om_Name (svc_Meta prodChildService) = isvc_Name prodService @ ''-svc''"
  using children_owned [of ref_kube, OF _ run_prod, of prodChild prodChildService]
    ref_cr.controller_references_axioms
  by simp

end
