(* ===== verification/GuardProps.thy ===== *)
theory GuardProps
  imports StatusProps
begin

text \<open>
  The guard of the trusted store: one workload per claim. The order on services that decides
  who holds a claim is a contract of its own (\<open>claim_order\<close>: a strict order that compares any
  two services of different names), from which the winner among siblings is unique; the
  program's \<open>precedes\<close> is such an order. Then what exactly the guard lets pass, what it cannot
  see, and which services a changed model re-queues.
\<close>

subsection \<open>The order of claimants\<close>

locale claim_order =
  fixes before :: "'a \<Rightarrow> 'a \<Rightarrow> bool" and key :: "'a \<Rightarrow> string"
  assumes claim_irrefl: "\<not> before a a"
    and claim_trans: "before a b \<Longrightarrow> before b c \<Longrightarrow> before a c"
    and claim_decides: "key a \<noteq> key b \<Longrightarrow> before a b \<or> before b a"
begin

lemma first_exists: "xs \<noteq> [] \<Longrightarrow> \<exists>x \<in> set xs. \<forall>y \<in> set xs. \<not> before y x"
proof (induction xs)
  case (Cons a xs)
  show ?case
  proof (cases "xs = []")
    case True
    then show ?thesis by (simp add: claim_irrefl)
  next
    case False
    with Cons.IH obtain x where x: "x \<in> set xs" "\<forall>y \<in> set xs. \<not> before y x" by blast
    show ?thesis
    proof (cases "before a x")
      case True
      with x have "\<forall>y \<in> set (a # xs). \<not> before y a" by (auto simp: claim_irrefl dest: claim_trans)
      then show ?thesis by auto
    next
      case False
      with x show ?thesis by auto
    qed
  qed
qed simp

lemma first_unique:
  assumes "distinct (map key xs)" and "xs \<noteq> []"
  shows "\<exists>!x. x \<in> set xs \<and> (\<forall>y \<in> set xs. \<not> before y x)"
proof -
  have "x = y" if "x \<in> set xs" "y \<in> set xs" "\<not> before x y" "\<not> before y x" for x y
    using that assms(1) claim_decides by (blast intro: distinct_map_key_eq)
  with first_exists [OF assms(2)] show ?thesis by blast
qed

end

lemma claim_order_precedes:
  assumes "instants (k_timeEqual K) (k_timeBefore K)"
  shows "claim_order (precedes K) isvc_Name"
proof -
  note eq = instants.equal_iff [OF assms] and tr = instants.before_trans [OF assms] and tot = instants.before_total [OF assms]
  let ?t = "\<lambda>i. om_CreationTimestamp (is_Meta i)"
  show ?thesis
  proof
    show "\<not> precedes K a a" for a by (simp add: precedes_def eq)
    show "precedes K a c" if ab: "precedes K a b" and bc: "precedes K b c" for a b c
    proof (cases "?t a = ?t b \<or> ?t b = ?t c")
      case True
      with ab bc show ?thesis by (auto simp: precedes_def eq Let_def split: if_splits)
    next
      case False
      with ab bc have "k_timeBefore K (?t a) (?t b)" "k_timeBefore K (?t b) (?t c)"
        by (simp_all add: precedes_def eq)
      then have "k_timeBefore K (?t a) (?t c)" "?t a \<noteq> ?t c"
        using tr instants.before_asym [OF assms] by metis+
      then show ?thesis by (simp add: precedes_def eq)
    qed
    show "precedes K a b \<or> precedes K b a" if "isvc_Name a \<noteq> isvc_Name b" for a b
      using that tot by (auto simp: precedes_def eq Let_def)
  qed
qed

sublocale kube_library \<subseteq> co: claim_order "precedes K" isvc_Name
  by (rule claim_order_precedes) (rule ti.instants_axioms)

interpretation ref_co: claim_order "precedes ref_kube" isvc_Name
  by (rule ref.co.claim_order_axioms)

text \<open>C20: One winner per claim. Among the services of a namespace (their names are distinct) that
  name a claim, exactly one finds no sibling that precedes it, whatever order the server lists them
  in; all the others report the conflict.\<close>

theorem sibling_winner:
  assumes "instants (k_timeEqual K) (k_timeBefore K)"
    and "distinct (map isvc_Name sibs)" and "isvc \<in> set sibs"
  shows "\<exists>!i. i \<in> set sibs \<and> isvc_Claim i = isvc_Claim isvc \<and> siblingConflict K i sibs = None"
proof -
  note order = claim_order_precedes [OF assms(1)]
  let ?rivals = "filter (\<lambda>i. isvc_Claim i = isvc_Claim isvc) sibs"
  have "siblingConflict K i sibs = None \<longleftrightarrow> (\<forall>j \<in> set ?rivals. \<not> precedes K j i)"
    if "i \<in> set sibs" "isvc_Claim i = isvc_Claim isvc" for i
  proof -
    have "isvc_Name j = isvc_Name i \<Longrightarrow> \<not> precedes K j i" if "j \<in> set sibs" for j
      using distinct_map_key_eq [OF assms(2) that \<open>i \<in> set sibs\<close>] claim_order.claim_irrefl [OF order] by auto
    with that(2) show ?thesis unfolding siblingConflict_None by auto
  qed
  then have "(i \<in> set sibs \<and> isvc_Claim i = isvc_Claim isvc \<and> siblingConflict K i sibs = None)
      \<longleftrightarrow> (i \<in> set ?rivals \<and> (\<forall>j \<in> set ?rivals. \<not> precedes K j i))" for i
    by auto
  moreover have "\<exists>!i. i \<in> set ?rivals \<and> (\<forall>j \<in> set ?rivals. \<not> precedes K j i)"
    using assms(2,3) by (intro claim_order.first_unique [OF order])
      (auto simp: distinct_map inj_on_def filter_empty_conv)
  ultimately show ?thesis by presburger
qed

theorem sibling_winner_witness:
  "\<exists>!i. i \<in> set [prodService, smokeService] \<and> isvc_Claim i = ''trusted-image-24b'' \<and>
     siblingConflict ref_kube i [prodService, smokeService] = None"
  using sibling_winner [of ref_kube "[prodService, smokeService]" prodService] ref_ti.instants_axioms
  by (simp add: prod_fields smokeService_def zero_ObjectMeta_def)

lemma volumesMountClaim_claims: "volumesMountClaim vs claim \<longleftrightarrow> claim \<in> set (claims_of vs)"
  by (induction vs) (auto split: option.splits)

text \<open>C19: What the guard lets pass. When the three lists are read, the guard finds no conflict exactly
  when no sibling of another name with the same claim precedes the service, every Deployment of the
  namespace that mounts the claim is controlled by the service, and no Pod without owner mounts it;
  and then it has made the three list calls, on the namespace of the service, and nothing else.\<close>

theorem guard_decision:
  assumes "k_listInferenceServices K (Some (isvc_Namespace isvc)) w = (Inr sibs, w1)"
    and "k_listDeployments K (Some (isvc_Namespace isvc)) w1 = (Inr ds, w2)"
    and "k_listPods K (Some (isvc_Namespace isvc)) w2 = (Inr ps, w3)"
  shows "run (trustedStoreConflict K isvc) w = (Inr [], w3, guard_calls isvc) \<longleftrightarrow>
    ({s \<in> set sibs. isvc_Name s \<noteq> isvc_Name isvc \<and> isvc_Claim s = isvc_Claim isvc \<and> precedes K s isvc} = {} \<and>
    {d \<in> set ds. isvc_Claim isvc \<in> set (claims_of (ps_Volumes (pod_of d)))}
      \<subseteq> {d. k_isControlledBy K (d_Meta d) (is_Meta isvc)} \<and>
    {p \<in> set ps. isvc_Claim isvc \<in> set (claims_of (ps_Volumes (pod_Spec p)))}
      \<subseteq> {p. om_OwnerReferences (pod_Meta p) \<noteq> []})"
  (is "_ \<longleftrightarrow> ?rhs")
proof -
  have "run (trustedStoreConflict K isvc) w = (Inr [], w3, guard_calls isvc) \<longleftrightarrow>
      siblingConflict K isvc sibs = None \<and> deploymentConflict K isvc ds = None \<and> podConflict isvc ps = None"
    using assms siblingConflict_nonempty deploymentConflict_nonempty podConflict_nonempty
    by (auto simp: run_def trustedStoreConflict_def deploymentGuard_def podGuard_def client_call_defs
        go_simps guard_calls_def split: option.splits)
  also have "\<dots> \<longleftrightarrow> ?rhs"
    unfolding siblingConflict_None deploymentConflict_None podConflict_None podSpecMountsClaim_def
      volumesMountClaim_claims by auto
  finally show ?thesis .
qed

theorem guard_decision_witness:
  "run (trustedStoreConflict ref_kube prodService) prodCluster = (Inr [], prodCluster, guard_calls prodService)"
  using guard_decision [of ref_kube prodService prodCluster "[prodService]" prodCluster "[]" prodCluster "[]" prodCluster]
  by (simp add: prod_fields)


definition laterService :: InferenceService where
  "laterService = prodService
     \<lparr>is_Meta := zero_ObjectMeta\<lparr>om_Name := ''vllm-new'', om_Namespace := ''default'',
                                om_UID := ''u-new'', om_CreationTimestamp := 5\<rparr>\<rparr>"

definition laterChild :: Deployment where
  "laterChild = prodChild\<lparr>d_Meta := (d_Meta prodChild)
     \<lparr>om_OwnerReferences := [controller_ref (is_Meta laterService)]\<rparr>\<rparr>"


subsection \<open>Watches\<close>

text \<open>A changed model re-queues exactly its services. The requests for a model are the keys of
  the services whose reconcile would read that model; the map function only lists, and only in the
  model's namespace.\<close>

theorem servicesForModel_exact:
  assumes "k_listInferenceServices K (Some (nn_Namespace obj)) w = (Inr items, w')"
    and "isvc_Namespace ` set items \<subseteq> {nn_Namespace obj}"
  shows "\<exists>reqs. run (servicesForModel K obj) w
        = (reqs, w', [ListInferenceServices (Some (nn_Namespace obj))]) \<and>
      set reqs = (\<lambda>i. meta_key (is_Meta i)) ` {i \<in> set items. modelKey i = obj}"
proof -
  have "modelKey i = obj \<longleftrightarrow> lr_Name (iss_ModelRef (is_Spec i)) = nn_Name obj" if "i \<in> set items" for i
    using assms(2) that by (cases obj) (auto simp: modelKey_def)
  then show ?thesis
    using assms(1) by (auto simp: run_def servicesForModel_def client_call_defs go_simps)
qed

theorem servicesForModel_exact_witness:
  "\<exists>reqs. run (servicesForModel ref_kube (modelKey prodService)) prodCluster
        = (reqs, prodCluster, [ListInferenceServices (Some ''default'')]) \<and> set reqs = {prodKey}"
proof -
  have "nn_Namespace (modelKey prodService) = ''default''" by (simp add: modelKey_def prod_fields)
  moreover have "{i \<in> set [prodService]. modelKey i = modelKey prodService} = {prodService}" by auto
  ultimately show ?thesis
    using servicesForModel_exact [of ref_kube "modelKey prodService" prodCluster "[prodService]" prodCluster]
    by (simp add: prod_fields)
qed

text \<open>A changed tenant re-queues every service. The requests are the keys of all services of the
  cluster, in every namespace.\<close>

theorem allServices_complete:
  assumes "k_listInferenceServices K None w = (Inr items, w')"
  shows "run (allServices K) w = (map (\<lambda>i. meta_key (is_Meta i)) items, w', [ListInferenceServices None])"
  using assms by (simp add: run_def allServices_def client_call_defs go_simps)

theorem allServices_complete_witness:
  "run (allServices ref_kube) prodCluster = ([prodKey], prodCluster, [ListInferenceServices None])"
  using allServices_complete [of ref_kube prodCluster "[prodService]" prodCluster]
  by (simp add: ref_calls)

end
