(* ===== verification/ContractProps.thy ===== *)
theory ContractProps
  imports GuardProps
begin

text \<open>
  The two validating reconcilers. For \<open>BrukModel\<close>: what the \<open>Ready\<close> condition means and that
  the value of a token is never looked at. For \<open>BrukTenant\<close>: which blobs are accepted, that
  the error names an offset and not the blob, and that the hashes of the tenant's and the
  services' status can be compared.
\<close>

subsection \<open>\<open>BrukModel\<close>\<close>

definition token_key :: "BrukModel \<Rightarrow> SecretKeyRef \<Rightarrow> NamespacedName" where
  "token_key model ref = \<lparr>nn_Namespace = om_Namespace (bm_Meta model), nn_Name = skr_Name ref\<rparr>"

text \<open>The token a model needs is there: it needs none, or the secret has a value under the key.\<close>

definition token_present :: "'w kube \<Rightarrow> BrukModel \<Rightarrow> HuggingFaceSource \<Rightarrow> 'w \<Rightarrow> bool" where
  "token_present K model hf w =
     (case hf_TokenSecretRef hf of
        None \<Rightarrow> True
      | Some ref \<Rightarrow>
          (case fst (k_getSecret K (token_key model ref) w) of
             Inl _ \<Rightarrow> False
           | Inr secret \<Rightarrow> secret_value secret (skr_Key ref) \<noteq> []))"

lemma setReadyModel_frame [simp]:
  "bm_Meta (setReadyModel K model st reason msg) = bm_Meta model"
  "bm_Spec (setReadyModel K model st reason msg) = bm_Spec model"
  "bmst_ObservedGeneration (bm_Status (setReadyModel K model st reason msg)) = om_Generation (bm_Meta model)"
  by (simp_all add: setReadyModel_def)

lemma setReadyModel_ready:
  assumes "status_conditions (k_setStatusCondition K)"
  shows "findCondition (bmst_Conditions (bm_Status (setReadyModel K model st reason msg))) ''Ready'' =
    Some \<lparr>c_Type = ''Ready'', c_Status = st, c_Reason = reason, c_Message = msg,
          c_ObservedGeneration = om_Generation (bm_Meta model)\<rparr>"
  using status_conditions.find_set [OF assms] by (simp add: setReadyModel_def)

text \<open>The runs of the reconciler: nothing read, a transient error, or one status at the end.\<close>

definition model_reads :: "NamespacedName \<Rightarrow> BrukModel \<Rightarrow> call list \<Rightarrow> bool" where
  "model_reads req model cs \<longleftrightarrow>
     cs = [GetBrukModel req] \<or>
     (\<exists>ref hf. model_HuggingFace model = Some hf \<and> hf_TokenSecretRef hf = Some ref \<and>
        cs = [GetBrukModel req, GetSecret (token_key model ref)])"

definition model_verdict ::
    "'w kube \<Rightarrow> BrukModel \<Rightarrow> 'w \<Rightarrow> string \<Rightarrow> string \<Rightarrow> bool" where
  "model_verdict K model w st reason =
     (case model_HuggingFace model of
        None \<Rightarrow> st = ConditionFalse \<and> reason = ReasonInvalidConfig
      | Some hf \<Rightarrow>
          if \<not> token_present K model hf w then st = ConditionFalse \<and> reason = ReasonTokenSecretMissing
          else st = ConditionTrue \<and>
               reason = (if hf_Revision hf = [] then ReasonUnpinnedRevision else ReasonValid))"

lemma run_setReady:
  "run_state (setReady K model st reason msg) s =
     (case k_updateBrukModelStatus K (setReadyModel K model st reason msg) (world s) of
        (e, w) \<Rightarrow> (Returned (map_option Api e),
          s\<lparr>world := w, calls := calls s @ [UpdateBrukModelStatus (setReadyModel K model st reason msg)]\<rparr>))"
  by (simp add: setReady_def client_call_defs go_simps split: prod.splits)

lemma ReconcileModel_cases:
  assumes "run (ReconcileModel K req) w = (r, w', cs)"
  obtains (gone) e where "fst (k_getBrukModel K req w) = Inl e" "cs = [GetBrukModel req]"
      "r = Returned (map_option Api (k_ignoreNotFound K e))"
  | (quiet) model err where "fst (k_getBrukModel K req w) = Inr model" "r = Returned (Some err)"
      "model_reads req model cs"
  | (recorded) model w1 reads st reason msg e where "k_getBrukModel K req w = (Inr model, w1)"
      "model_reads req model reads" "model_verdict K model w1 st reason"
      "cs = reads @ [UpdateBrukModelStatus (setReadyModel K model st reason msg)]"
      "r = Returned (map_option Api e)"
proof -
  obtain rm w1 where rm: "k_getBrukModel K req w = (rm, w1)" by fastforce
  note defs = ReconcileModel_def client_call_defs go_simps run_simp
  have ends: thesis
    if "run_state (setReady K model st reason msg) \<lparr>world = w2, calls = reads\<rparr> = (r, \<lparr>world = w', calls = cs\<rparr>)"
      "rm = Inr model" "model_reads req model reads" "model_verdict K model w1 st reason"
    for model st reason msg w2 reads
  proof -
    obtain e w3 where "k_updateBrukModelStatus K (setReadyModel K model st reason msg) w2 = (e, w3)"
      by fastforce
    with that(1) have "r = Returned (map_option Api e)"
      "cs = reads @ [UpdateBrukModelStatus (setReadyModel K model st reason msg)]"
      by (simp_all add: run_setReady)
    with recorded rm that(2-4) show thesis by blast
  qed
  show thesis
  proof (cases rm)
    case (Inl e)
    with rm assms gone show thesis by (simp add: defs)
  next
    case (Inr model)
    have base: "model_reads req model [GetBrukModel req]" by (simp add: model_reads_def)
    show thesis
    proof (cases "model_HuggingFace model")
      case None
      with assms rm Inr show thesis
        by (intro ends [OF _ Inr base]) (simp_all add: defs model_verdict_def)
    next
      case (Some hf)
      show thesis
      proof (cases "hf_TokenSecretRef hf")
        case None
        with assms rm Inr Some show thesis
          by (intro ends [OF _ Inr base]) (simp_all add: defs model_verdict_def token_present_def)
      next
        case ref: (Some ref)
        obtain rs w2 where rs: "k_getSecret K (token_key model ref) w1 = (rs, w2)" by fastforce
        have reads: "model_reads req model [GetBrukModel req, GetSecret (token_key model ref)]"
          using Some ref by (simp add: model_reads_def)
        note ctx = assms rm Inr Some ref rs [unfolded token_key_def]
        show thesis
        proof (cases rs)
          case err: (Inl e)
          show thesis
          proof (cases "k_isNotFound K e")
            case True
            with ctx err rs show thesis
              by (intro ends [OF _ Inr reads])
                (simp_all add: defs model_verdict_def token_present_def token_key_def)
          next
            case False
            with ctx err have "r = Returned (Some (Api e))"
              "cs = [GetBrukModel req, GetSecret (token_key model ref)]"
              by (simp_all add: defs token_key_def)
            with rm Inr reads quiet show thesis by simp
          qed
        next
          case secret: (Inr secret)
          show thesis
          proof (cases "secret_value secret (skr_Key ref) = []")
            case True
            with ctx secret rs show thesis
              by (intro ends [OF _ Inr reads])
                (simp_all add: defs model_verdict_def token_present_def token_key_def)
          next
            case False
            with ctx secret rs show thesis
              by (intro ends [OF _ Inr reads])
                (simp_all add: defs model_verdict_def token_present_def token_key_def)
          qed
        qed
      qed
    qed
  qed
qed

text \<open>C29: What a model's \<open>Ready\<close> means. Every status the reconciler writes is that of the model it
  read, observed at its generation, and its \<open>Ready\<close> condition is true exactly when the model has
  a Hugging Face source and the token secret it names, if any, has a non-empty value under the
  key; a true condition has the reason \<open>UnpinnedRevision\<close> exactly when no revision is pinned.\<close>

theorem model_ready_meaning:
  assumes "status_conditions (k_setStatusCondition K)"
    and "run (ReconcileModel K req) w = (r, w', cs)" and "UpdateBrukModelStatus m \<in> set cs"
  shows "\<exists>model w1 c. k_getBrukModel K req w = (Inr model, w1) \<and>
      bm_Meta m = bm_Meta model \<and> bm_Spec m = bm_Spec model \<and>
      bmst_ObservedGeneration (bm_Status m) = om_Generation (bm_Meta model) \<and>
      findCondition (bmst_Conditions (bm_Status m)) ''Ready'' = Some c \<and>
      (c_Status c = ConditionTrue \<longleftrightarrow>
         (\<exists>hf. model_HuggingFace model = Some hf \<and> token_present K model hf w1)) \<and>
      (c_Reason c = ReasonUnpinnedRevision \<longleftrightarrow>
         (\<exists>hf. model_HuggingFace model = Some hf \<and> token_present K model hf w1 \<and> hf_Revision hf = []))"
  using assms(2)
proof (cases rule: ReconcileModel_cases)
  case (recorded model w1 reads st reason msg e)
  with assms(3) have m: "m = setReadyModel K model st reason msg"
    by (auto simp: model_reads_def)
  have reasons: "ReasonInvalidConfig \<noteq> ReasonUnpinnedRevision"
    "ReasonTokenSecretMissing \<noteq> ReasonUnpinnedRevision" "ReasonValid \<noteq> ReasonUnpinnedRevision"
    by (simp_all add: ReasonInvalidConfig_def ReasonUnpinnedRevision_def ReasonTokenSecretMissing_def
        ReasonValid_def)
  show ?thesis
    using recorded(1,3) reasons
    by (intro exI conjI) (rule recorded(1), auto simp: m setReadyModel_ready [OF assms(1)] model_verdict_def
        split: option.splits if_splits)
qed (use assms(3) in \<open>auto simp: model_reads_def\<close>)

text \<open>The production model with its secret delivered.\<close>

definition secretCluster :: cluster where
  "secretCluster = prodCluster\<lparr>cl_Secrets :=
     [\<lparr>sec_Meta = zero_ObjectMeta\<lparr>om_Name := ''hf-token'', om_Namespace := ''default''\<rparr>,
       sec_Data = [''token'' \<mapsto> [104, 102]]\<rparr>]\<rparr>"

definition secretStatus :: BrukModel where
  "secretStatus = setReadyModel ref_kube prodModel ConditionTrue ReasonUnpinnedRevision unpinnedMessage"

lemma run_secret:
  "\<exists>w'. run (ReconcileModel ref_kube (modelKey prodService)) secretCluster =
     (Returned None, w', [GetBrukModel (modelKey prodService),
        GetSecret \<lparr>nn_Namespace = ''default'', nn_Name = ''hf-token''\<rparr>, UpdateBrukModelStatus secretStatus])"
  by (simp add: run_def ReconcileModel_def setReady_def client_call_defs go_simps ref_calls secretCluster_def
      prodModel_fields prod_metas meta_key_def [of "zero_ObjectMeta\<lparr>om_Name := _, om_Namespace := _\<rparr>"]
      secret_value_def secretStatus_def)

theorem model_ready_meaning_witness:
  "\<exists>c. findCondition (bmst_Conditions (bm_Status secretStatus)) ''Ready'' = Some c"
proof -
  from run_secret obtain w' where run: "run (ReconcileModel ref_kube (modelKey prodService)) secretCluster =
     (Returned None, w', [GetBrukModel (modelKey prodService),
        GetSecret \<lparr>nn_Namespace = ''default'', nn_Name = ''hf-token''\<rparr>, UpdateBrukModelStatus secretStatus])" ..
  show ?thesis
    using model_ready_meaning [of ref_kube, OF _ run, of secretStatus] ref_sc.status_conditions_axioms by auto
qed

text \<open>One write of its own kind. Whatever the server answers, a run of the \<open>BrukModel\<close> reconciler
  returns (it never panics, although a model may come without a source), and it writes at most the
  status of a model, once, as its last call.\<close>

theorem model_run_shape:
  "fst (run (ReconcileModel K req) w) \<noteq> Panicked \<and>
   (\<exists>reads m. writes reads = [] \<and>
      snd (snd (run (ReconcileModel K req) w)) \<in> {reads, reads @ [UpdateBrukModelStatus m]})"
proof -
  obtain r w' cs where run: "run (ReconcileModel K req) w = (r, w', cs)"
    by (cases "run (ReconcileModel K req) w")
  have reads: "writes cs = []" if "model_reads q model cs" for q model cs
    using that by (auto simp: model_reads_def)
  from run have "r \<noteq> Panicked \<and> (\<exists>reads m. writes reads = [] \<and> cs \<in> {reads, reads @ [UpdateBrukModelStatus m]})"
  proof (cases rule: ReconcileModel_cases)
    case (quiet model err)
    then show ?thesis using reads [OF quiet(3)] by (intro conjI exI [of _ cs]) simp_all
  next
    case (recorded model w1 rd st reason msg e)
    then show ?thesis using reads [OF recorded(2)] by auto
  qed auto
  with run show ?thesis by simp
qed

text \<open>The server as it looks through a change of the values of all secrets.\<close>

definition mask_secret :: "(byte list \<Rightarrow> byte list) \<Rightarrow> Secret \<Rightarrow> Secret" where
  "mask_secret f secret = secret\<lparr>sec_Data := (\<lambda>k. map_option f (sec_Data secret k))\<rparr>"

definition mask_secrets :: "(byte list \<Rightarrow> byte list) \<Rightarrow> 'w kube \<Rightarrow> 'w kube" where
  "mask_secrets f K = K\<lparr>k_getSecret := (\<lambda>key w.
     case k_getSecret K key w of (rs, w') \<Rightarrow> (map_sum id (mask_secret f) rs, w'))\<rparr>"

lemma mask_secrets_sels [simp]:
  "k_isNotFound (mask_secrets f K) = k_isNotFound K"
  "k_ignoreNotFound (mask_secrets f K) = k_ignoreNotFound K"
  "k_setStatusCondition (mask_secrets f K) = k_setStatusCondition K"
  "k_getBrukModel (mask_secrets f K) = k_getBrukModel K"
  "k_updateBrukModelStatus (mask_secrets f K) = k_updateBrukModelStatus K"
  "k_getSecret (mask_secrets f K) key w =
     (case k_getSecret K key w of (rs, w') \<Rightarrow> (map_sum id (mask_secret f) rs, w'))"
  by (simp_all add: mask_secrets_def)

lemma secret_value_mask:
  "(\<And>v. f v = [] \<longleftrightarrow> v = []) \<Longrightarrow>
     secret_value (mask_secret f secret) key = [] \<longleftrightarrow> secret_value secret key = []"
  by (simp add: secret_value_def mask_secret_def split: option.splits)

lemma setReady_mask: "setReady (mask_secrets f K) = setReady K"
  by (simp add: setReady_def updateBrukModelStatus_def setReadyModel_def fun_eq_iff)

text \<open>C27: Token values are never looked at. Replacing the value of every key of every secret by any
  other, as long as empty values stay empty, changes nothing in a run of the \<open>BrukModel\<close>
  reconciler: not its result, not its calls, not the status it writes.\<close>

theorem token_value_not_read:
  assumes "\<And>v. f v = [] \<longleftrightarrow> v = []"
  shows "run (ReconcileModel (mask_secrets f K) req) w = run (ReconcileModel K req) w"
proof -
  have "run_state (ReconcileModel (mask_secrets f K) req) s = run_state (ReconcileModel K req) s" for s
    by (simp add: ReconcileModel_def client_call_defs go_simps setReady_mask secret_value_mask [OF assms] Let_def
        split: prod.split sum.split option.split)
  then show ?thesis by (simp add: run_def)
qed

theorem token_value_not_read_witness:
  "run (ReconcileModel (mask_secrets (map (\<lambda>_. 42)) ref_kube) (modelKey prodService)) prodCluster =
   run (ReconcileModel ref_kube (modelKey prodService)) prodCluster"
  by (rule token_value_not_read) simp

subsection \<open>\<open>BrukTenant\<close>\<close>

text \<open>C30: Which blobs are accepted. \<open>validateInitData\<close> accepts exactly the strings that decode, as
  standard base64, to bytes that start with the gzip magic 1f 8b; in particular, of the payloads
  the build script encodes, exactly the gzip ones.\<close>

theorem validateInitData_exact:
  "(validateInitData blob = None \<longleftrightarrow> (\<exists>payload. DecodeString blob = Inr (0x1f # 0x8b # payload))) \<and>
   (validateInitData (b64_encode bytes) = None \<longleftrightarrow> take 2 bytes = [0x1f, 0x8b])"
proof -
  have magic: "length raw < 2 \<or> raw ! 0 \<noteq> 0x1f \<or> raw ! 1 \<noteq> 0x8b \<longleftrightarrow> \<not> (\<exists>payload. raw = 0x1f # 0x8b # payload)"
    for raw :: "byte list"
    by (cases raw; cases "tl raw") auto
  have "take 2 bytes = [0x1f, 0x8b] \<longleftrightarrow> (\<exists>payload. bytes = 0x1f # 0x8b # payload)"
    by (cases bytes; cases "tl bytes") auto
  then show ?thesis
    unfolding validateInitData_def magic by (simp add: DecodeString_encode split: sum.split)
qed

text \<open>The error does not show the blob. When the blob is refused, the message is one of the two
  the code can build: not gzip, or not base64 with the offset of the offending byte, which lies in
  the blob; no other part of the blob is in it.\<close>

theorem invalid_blob_message:
  assumes "validateInitData blob = Some err"
  shows "err = Errorf ''decoded payload is not gzip (missing 1f 8b magic)'' \<or>
    (\<exists>n. n \<le> length blob \<and> err = Wrapf ''not valid base64: ''
        (Errorf (''illegal base64 data at input byte '' @ fmt_d (int n))))"
  using assms DecodeString_offset [of blob]
  by (auto simp: validateInitData_def corrupt_input_text_def split: sum.splits if_splits)

text \<open>The placeholder of the tenant's Git, when Flux has not substituted it.\<close>

lemma placeholder_refused: "validateInitData ''${INITDATA_B64}'' =
    Some (Wrapf ''not valid base64: '' (Errorf (corrupt_input_text 0)))"
  by (simp add: validateInitData_def DecodeString_def b64_value_def is_newline_def)

theorem invalid_blob_message_witness:
  "\<exists>n. n \<le> 15 \<and> corrupt_input_text 0 = ''illegal base64 data at input byte '' @ fmt_d (int n)"
  using invalid_blob_message [OF placeholder_refused] by (elim disjE exE conjE) (simp, intro exI conjI, auto)

text \<open>The hashes correlate. The hash a tenant's status records is the one that a service applied
  under that tenant records, so two different hashes mean that the service was rolled out under
  another blob.\<close>

theorem hashes_correlate:
  "btst_AppliedInitDataHash (bt_Status (reconciledTenant K tenant)) =
     ist_AppliedInitDataHash (is_Status (readyService K' isvc model d (tenantConfig tenant)))"
  by (simp add: reconciledTenant_def ready_frame tenantConfig_def)

text \<open>C31: The tenant's verdict. Every run of the \<open>BrukTenant\<close> reconciler that writes writes one
  status, of the tenant it read: observed at its generation, with the hash of its blob, and \<open>Ready\<close>
  exactly when the blob is accepted; and no run panics.\<close>

theorem tenant_verdict:
  assumes "status_conditions (k_setStatusCondition K)" and "run (ReconcileTenant K req) w = (r, w', cs)"
  shows "r \<noteq> Panicked \<and>
    (writes cs = [] \<or>
     (\<exists>tenant t c. fst (k_getBrukTenant K req w) = Inr tenant \<and> cs = [GetBrukTenant req, UpdateBrukTenantStatus t] \<and>
        bt_Meta t = bt_Meta tenant \<and> bt_Spec t = bt_Spec tenant \<and>
        btst_ObservedGeneration (bt_Status t) = om_Generation (bt_Meta tenant) \<and>
        btst_AppliedInitDataHash (bt_Status t) = InitDataHash (cc_InitDataB64 (bts_Confidential (bt_Spec tenant))) \<and>
        findCondition (btst_Conditions (bt_Status t)) ''Ready'' = Some c \<and>
        (c_Status c = ConditionTrue \<longleftrightarrow>
           validateInitData (cc_InitDataB64 (bts_Confidential (bt_Spec tenant))) = None)))"
proof -
  obtain rt w1 where rt: "k_getBrukTenant K req w = (rt, w1)" by fastforce
  note defs = ReconcileTenant_def client_call_defs go_simps run_simp
  show ?thesis
  proof (cases rt)
    case (Inl e)
    with assms(2) rt show ?thesis by (auto simp: defs)
  next
    case (Inr tenant)
    obtain e w2 where "k_updateBrukTenantStatus K (reconciledTenant K tenant) w1 = (e, w2)" by fastforce
    with assms(2) rt Inr have "r = Returned (map_option Api e)"
      "cs = [GetBrukTenant req, UpdateBrukTenantStatus (reconciledTenant K tenant)]"
      by (simp_all add: defs)
    moreover have "c_Type (tenantCondition tenant) = ''Ready''"
      by (simp add: tenantCondition_def split: option.splits)
    ultimately show ?thesis
      using rt Inr status_conditions.find_set [OF assms(1)]
      by (simp add: reconciledTenant_def) (simp add: tenantCondition_def split: option.splits)
  qed
qed

lemma run_tenant:
  "\<exists>w'. run (ReconcileTenant ref_kube tenantKey) prodCluster =
     (Returned None, w', [GetBrukTenant tenantKey, UpdateBrukTenantStatus (reconciledTenant ref_kube prodTenant)])"
  by (simp add: run_def ReconcileTenant_def client_call_defs go_simps ref_calls reconciledTenant_def)

theorem tenant_verdict_witness:
  "\<exists>c. findCondition (btst_Conditions (bt_Status (reconciledTenant ref_kube prodTenant))) ''Ready'' = Some c"
proof -
  from run_tenant obtain w' where run: "run (ReconcileTenant ref_kube tenantKey) prodCluster =
     (Returned None, w', [GetBrukTenant tenantKey, UpdateBrukTenantStatus (reconciledTenant ref_kube prodTenant)])" ..
  show ?thesis using tenant_verdict [of ref_kube, OF _ run] ref_sc.status_conditions_axioms by auto
qed

end
