(* ===== verification/StoreExclusion.thy ===== *)
theory StoreExclusion
  imports ContractProps
begin

text \<open>
  The purpose of the guard, over time: no two services ever have Deployments that mount the
  same trusted store. The operator is a transition system on the worlds of the API server: a
  step is a complete reconcile (controller-runtime runs one at a time), or anything the
  environment does to the cluster, which is also free to act between any two calls of a
  reconcile. What is asked of the two is stated as a contract (\<open>deployment_server\<close>): a list of
  Deployments is current when it is answered, an applied Deployment keeps its controller and
  its volumes, and nobody but the operator makes or edits a Deployment under the control of a
  service; Deployments may vanish, change status, or appear without a controller at any time.
\<close>

subsection \<open>Workloads and their claims\<close>

definition claims_of_deployment :: "Deployment \<Rightarrow> string set" where
  "claims_of_deployment d = set (claims_of (ps_Volumes (pod_of d)))"

definition controlled :: "'w kube \<Rightarrow> Deployment \<Rightarrow> bool" where
  "controlled K d \<longleftrightarrow> (\<exists>owner. k_isControlledBy K (d_Meta d) owner)"

definition same_workload :: "'w kube \<Rightarrow> Deployment \<Rightarrow> Deployment \<Rightarrow> bool" where
  "same_workload K d e \<longleftrightarrow>
     om_Namespace (d_Meta d) = om_Namespace (d_Meta e) \<and>
     k_isControlledBy K (d_Meta d) = k_isControlledBy K (d_Meta e) \<and>
     claims_of_deployment d = claims_of_deployment e"

text \<open>The controlled Deployments of \<open>ds'\<close> are among those of \<open>ds\<close>.\<close>

definition kept :: "'w kube \<Rightarrow> Deployment list \<Rightarrow> Deployment list \<Rightarrow> bool" where
  "kept K ds ds' \<longleftrightarrow> (\<forall>e \<in> set ds'. controlled K e \<longrightarrow> (\<exists>d \<in> set ds. same_workload K d e))"

text \<open>No claim is mounted by the Deployments of two owners in one namespace.\<close>

definition exclusive :: "'w kube \<Rightarrow> Deployment list \<Rightarrow> bool" where
  "exclusive K ds \<longleftrightarrow>
     (\<forall>d \<in> set ds. \<forall>e \<in> set ds. controlled K d \<longrightarrow> controlled K e \<longrightarrow>
        om_Namespace (d_Meta d) = om_Namespace (d_Meta e) \<longrightarrow>
        claims_of_deployment d \<inter> claims_of_deployment e \<noteq> {} \<longrightarrow>
        (\<exists>owner. k_isControlledBy K (d_Meta d) owner \<and> k_isControlledBy K (d_Meta e) owner))"

text \<open>The claim of a service is mounted by no Deployment of another owner.\<close>

definition claim_free :: "'w kube \<Rightarrow> InferenceService \<Rightarrow> Deployment list \<Rightarrow> bool" where
  "claim_free K isvc ds \<longleftrightarrow>
     (\<forall>e \<in> set ds. controlled K e \<longrightarrow> om_Namespace (d_Meta e) = isvc_Namespace isvc \<longrightarrow>
        isvc_Claim isvc \<in> claims_of_deployment e \<longrightarrow> k_isControlledBy K (d_Meta e) (is_Meta isvc))"

lemma same_workload_refl [simp]: "same_workload K d d"
  by (simp add: same_workload_def)

lemma same_workload_trans: "same_workload K c d \<Longrightarrow> same_workload K d e \<Longrightarrow> same_workload K c e"
  by (simp add: same_workload_def)

lemma same_workload_controlled: "same_workload K d e \<Longrightarrow> controlled K d \<longleftrightarrow> controlled K e"
  by (simp add: same_workload_def controlled_def)

lemma kept_subset: "set ds' \<subseteq> set ds \<Longrightarrow> kept K ds ds'"
  unfolding kept_def using same_workload_refl by blast

lemma kept_refl [simp, intro]: "kept K ds ds"
  by (rule kept_subset) simp

lemma kept_trans:
  assumes "kept K ds es" and "kept K es fs"
  shows "kept K ds fs"
  unfolding kept_def
proof (intro ballI impI)
  fix f assume "f \<in> set fs" "controlled K f"
  with assms(2) obtain e where e: "e \<in> set es" "same_workload K e f" unfolding kept_def by blast
  with \<open>controlled K f\<close> have "controlled K e" by (simp add: same_workload_controlled)
  with assms(1) e(1) obtain d where "d \<in> set ds" "same_workload K d e" unfolding kept_def by blast
  with e(2) show "\<exists>d \<in> set ds. same_workload K d f" by (blast intro: same_workload_trans)
qed

lemma exclusive_kept:
  assumes "exclusive K ds" and "kept K ds ds'"
  shows "exclusive K ds'"
  unfolding exclusive_def
proof (intro ballI impI)
  fix d e
  assume in_ds': "d \<in> set ds'" "e \<in> set ds'" and ctl: "controlled K d" "controlled K e"
    and clash: "om_Namespace (d_Meta d) = om_Namespace (d_Meta e)"
      "claims_of_deployment d \<inter> claims_of_deployment e \<noteq> {}"
  from assms(2) in_ds' ctl obtain d0 e0 where "d0 \<in> set ds" "e0 \<in> set ds"
    "same_workload K d0 d" "same_workload K e0 e" unfolding kept_def by blast
  moreover from this ctl have "controlled K d0" "controlled K e0"
    by (simp_all add: same_workload_controlled)
  ultimately show "\<exists>owner. k_isControlledBy K (d_Meta d) owner \<and> k_isControlledBy K (d_Meta e) owner"
    using assms(1) clash unfolding exclusive_def same_workload_def by metis
qed

lemma claim_free_kept:
  assumes "claim_free K isvc ds" and "kept K ds ds'"
  shows "claim_free K isvc ds'"
  unfolding claim_free_def
proof (intro ballI impI)
  fix e assume e: "e \<in> set ds'" "controlled K e" "om_Namespace (d_Meta e) = isvc_Namespace isvc"
    "isvc_Claim isvc \<in> claims_of_deployment e"
  with assms(2) obtain d where d: "d \<in> set ds" "same_workload K d e" unfolding kept_def by blast
  with e have "controlled K d" by (simp add: same_workload_controlled)
  with assms(1) d e(3,4) show "k_isControlledBy K (d_Meta e) (is_Meta isvc)"
    unfolding claim_free_def same_workload_def by auto
qed

subsection \<open>The contract of the server and the environment\<close>

locale deployment_server =
  fixes K :: "'w kube" and deployments :: "'w \<Rightarrow> Deployment list"
  assumes list_current: "k_listDeployments K (Some ns) w = (Inr ds, w') \<Longrightarrow>
      kept K ds (filter (\<lambda>d. om_Namespace (d_Meta d) = ns) (deployments w'))"
    and apply_Deployment: "controlled K d \<Longrightarrow>
      kept K (d # deployments w) (deployments (snd (k_applyDeployment K d w)))"
    and list_Deployments: "kept K (deployments w) (deployments (snd (k_listDeployments K nso w)))"
    and list_InferenceServices: "kept K (deployments w) (deployments (snd (k_listInferenceServices K nso w)))"
    and list_Pods: "kept K (deployments w) (deployments (snd (k_listPods K nso w)))"
    and get_InferenceService: "kept K (deployments w) (deployments (snd (k_getInferenceService K key w)))"
    and get_BrukModel: "kept K (deployments w) (deployments (snd (k_getBrukModel K key w)))"
    and get_BrukTenant: "kept K (deployments w) (deployments (snd (k_getBrukTenant K key w)))"
    and get_Secret: "kept K (deployments w) (deployments (snd (k_getSecret K key w)))"
    and apply_ConfigMap: "kept K (deployments w) (deployments (snd (k_applyConfigMap K cm w)))"
    and apply_Service: "kept K (deployments w) (deployments (snd (k_applyService K sv w)))"
    and update_InferenceService: "kept K (deployments w) (deployments (snd (k_updateInferenceServiceStatus K i w)))"
    and update_BrukModel: "kept K (deployments w) (deployments (snd (k_updateBrukModelStatus K m w)))"
    and update_BrukTenant: "kept K (deployments w) (deployments (snd (k_updateBrukTenantStatus K t w)))"
    and controllers: "controller_references (k_isControlledBy K) (k_setControllerReference K)"
begin

text \<open>A program that leaves the controlled Deployments alone.\<close>

definition keeps :: "('w sys, 'a) state \<Rightarrow> bool" where
  "keeps m \<longleftrightarrow> (\<forall>s. kept K (deployments (world s)) (deployments (world (snd (run_state m s)))))"

lemma keeps_return [simp]: "keeps (State_Monad.return x)"
  by (simp add: keeps_def)

lemma keeps_bind:
  assumes "keeps m" and "\<And>r. keeps (f r)"
  shows "keeps (State_Monad.bind m f)"
  unfolding keeps_def
proof
  fix s
  obtain r s1 where m: "run_state m s = (r, s1)" by fastforce
  have "kept K (deployments (world s)) (deployments (world s1))"
    using assms(1) m unfolding keeps_def by (metis snd_conv)
  moreover have "kept K (deployments (world s1)) (deployments (world (snd (run_state (f r) s1))))"
    using assms(2) unfolding keeps_def by blast
  ultimately show "kept K (deployments (world s)) (deployments (world (snd (run_state (State_Monad.bind m f) s))))"
    using m by (auto intro: kept_trans)
qed

lemma keeps_invoke:
  assumes "\<And>w. kept K (deployments w) (deployments (snd (f w)))"
  shows "keeps (invoke c f)"
  unfolding keeps_def
proof
  fix s
  show "kept K (deployments (world s)) (deployments (world (snd (run_state (invoke c f) s))))"
    using assms [of "world s"] by (cases "f (world s)") (simp add: run_state_invoke)
qed

lemma keeps_calls [simp]:
  "keeps (getInferenceService K key)" "keeps (getBrukModel K key)" "keeps (getBrukTenant K key)"
  "keeps (getSecret K key)" "keeps (listInferenceServices K nso)" "keeps (listDeployments K nso)"
  "keeps (listPods K nso)" "keeps (applyConfigMap K cm)" "keeps (applyService K sv)"
  "keeps (updateInferenceServiceStatus K i)" "keeps (updateBrukModelStatus K m)"
  "keeps (updateBrukTenantStatus K t)"
  by (simp_all add: client_call_defs keeps_invoke list_Deployments list_InferenceServices list_Pods
      get_InferenceService get_BrukModel get_BrukTenant get_Secret apply_ConfigMap apply_Service
      update_InferenceService update_BrukModel update_BrukTenant)

lemma keeps_failConfigured [simp]: "keeps (failConfigured K isvc reason msg)"
  unfolding failConfigured_def by (intro keeps_bind) simp_all

lemma keeps_guard [simp]:
  "keeps (podGuard K isvc)" "keeps (deploymentGuard K isvc)" "keeps (trustedStoreConflict K isvc)"
proof -
  show pod: "keeps (podGuard K isvc)"
    unfolding podGuard_def by (intro keeps_bind) simp_all
  show dep: "keeps (deploymentGuard K isvc)"
    unfolding deploymentGuard_def by (intro keeps_bind) (simp_all add: pod split: sum.split option.split)
  show "keeps (trustedStoreConflict K isvc)"
    unfolding trustedStoreConflict_def by (intro keeps_bind) (simp_all add: dep split: sum.split option.split)
qed

lemma keeps_apply [simp]:
  "keeps (applyGaiConfigMap K isvc)" "keeps (applyServiceAndStatus K isvc model cfg d)"
proof -
  show "keeps (applyGaiConfigMap K isvc)"
    unfolding applyGaiConfigMap_def by (simp, intro impI keeps_bind) (simp_all split: sum.split)
  have "keeps (applyOwnedService K isvc)"
    unfolding applyOwnedService_def by (cases "ownedService K isvc") (auto intro!: keeps_bind)
  then show "keeps (applyServiceAndStatus K isvc model cfg d)"
    unfolding applyServiceAndStatus_def updateReadyStatus_def
    by (intro keeps_bind) (auto intro!: keeps_bind split: option.split)
qed

lemma keeps_other_reconcilers [simp]: "keeps (ReconcileModel K req)" "keeps (ReconcileTenant K req)"
proof -
  have set_ready: "keeps (setReady K model st reason msg)" for model st reason msg
    unfolding setReady_def by (intro keeps_bind) simp_all
  show "keeps (ReconcileModel K req)"
    unfolding ReconcileModel_def Let_def
    by (intro keeps_bind) (auto intro!: keeps_bind simp: set_ready split: sum.split option.split)
  show "keeps (ReconcileTenant K req)"
    unfolding ReconcileTenant_def by (intro keeps_bind) (auto intro!: keeps_bind split: sum.split)
qed

text \<open>A program that, started where \<open>P\<close> holds, ends with exclusive stores.\<close>

definition yields :: "(Deployment list \<Rightarrow> bool) \<Rightarrow> ('w sys, 'a) state \<Rightarrow> bool" where
  "yields P m \<longleftrightarrow> (\<forall>s. P (deployments (world s)) \<longrightarrow> exclusive K (deployments (world (snd (run_state m s)))))"

definition stable :: "(Deployment list \<Rightarrow> bool) \<Rightarrow> bool" where
  "stable P \<longleftrightarrow> (\<forall>ds ds'. P ds \<longrightarrow> kept K ds ds' \<longrightarrow> P ds') \<and> (\<forall>ds. P ds \<longrightarrow> exclusive K ds)"

lemma stable_exclusive [simp]: "stable (exclusive K)"
  by (auto simp: stable_def intro: exclusive_kept)

lemma stable_free [simp]: "stable (\<lambda>ds. exclusive K ds \<and> claim_free K isvc ds)"
  by (auto simp: stable_def intro: exclusive_kept claim_free_kept)

lemma yields_keeps: "stable P \<Longrightarrow> keeps m \<Longrightarrow> yields P m"
  unfolding yields_def keeps_def stable_def by blast

lemma yields_bind:
  assumes "stable P" and "keeps m" and "\<And>r. yields P (f r)"
  shows "yields P (State_Monad.bind m f)"
  unfolding yields_def
proof (intro allI impI)
  fix s :: "'w sys" assume "P (deployments (world s))"
  moreover obtain r s1 where m: "run_state m s = (r, s1)" by fastforce
  moreover have "kept K (deployments (world s)) (deployments (world s1))"
    using assms(2) m unfolding keeps_def by (metis snd_conv)
  ultimately have "P (deployments (world s1))" using assms(1) unfolding stable_def by blast
  with assms(3) m show "exclusive K (deployments (world (snd (run_state (State_Monad.bind m f) s))))"
    unfolding yields_def by simp
qed

lemma yields_then:
  assumes "yields P m" and "\<And>r. keeps (f r)"
  shows "yields P (State_Monad.bind m f)"
  unfolding yields_def
proof (intro allI impI)
  fix s :: "'w sys" assume "P (deployments (world s))"
  moreover obtain r s1 where m: "run_state m s = (r, s1)" by fastforce
  ultimately have "exclusive K (deployments (world s1))" using assms(1) unfolding yields_def by (metis snd_conv)
  moreover have "kept K (deployments (world s1)) (deployments (world (snd (run_state (f r) s1))))"
    using assms(2) unfolding keeps_def by blast
  ultimately show "exclusive K (deployments (world (snd (run_state (State_Monad.bind m f) s))))"
    using m by (auto intro: exclusive_kept)
qed

text \<open>The guard, when it passes, has seen that the claim is free, and it still is.\<close>

lemma guard_claim_free:
  assumes "run_state (trustedStoreConflict K isvc) s = (Inr [], s')"
  shows "claim_free K isvc (deployments (world s'))"
proof (cases rule: trustedStoreConflict_cases [of isvc s K])
  case ended
  with assms show ?thesis by (simp add: guard_end_def)
next
  case (free sibs ds ps w)
  then obtain w1 w2 where lists: "k_listDeployments K (Some (isvc_Namespace isvc)) w1 = (Inr ds, w2)"
    "k_listPods K (Some (isvc_Namespace isvc)) w2 = (Inr ps, w)" and none: "deploymentConflict K isvc ds = None"
    by (auto simp: store_free_def split: prod.splits)
  have "claim_free K isvc ds"
    using none unfolding claim_free_def deploymentConflict_None podSpecMountsClaim_def
      volumesMountClaim_claims claims_of_deployment_def by blast
  from claim_free_kept [OF this list_current [OF lists(1)]]
  have "claim_free K isvc (deployments w2)" by (simp add: claim_free_def)
  then have "claim_free K isvc (deployments w)"
    using list_Pods [of w2 "Some (isvc_Namespace isvc)"] lists(2) by (auto intro: claim_free_kept)
  with assms free(1) show ?thesis by auto
qed

lemma child_claims:
  assumes "child_deployment K isvc model cfg d"
  shows "claims_of_deployment d = {isvc_Claim isvc}" and "om_Namespace (d_Meta d) = isvc_Namespace isvc"
    and "k_isControlledBy K (d_Meta d) (is_Meta isvc)"
proof -
  from assms obtain rendered m where r: "renderDeployment isvc model cfg = Some (Inr rendered)"
    "k_setControllerReference K (is_Meta isvc) (d_Meta rendered) = Inr m" "d_Meta d = m" "d_Spec d = d_Spec rendered"
    by (rule child_deployment_parts)
  obtain co vols where co: "rendered = deploymentOf isvc cfg co vols"
    and vols: "volumes isvc (isvc_WeightsCache isvc \<noteq> None) = Some vols"
    using r(1) by (rule rendered_deploymentOf)
  show "claims_of_deployment d = {isvc_Claim isvc}"
    unfolding claims_of_deployment_def r(4) co render_simps rendered_volumes [OF vols]
    by (auto split: option.splits)
  show "om_Namespace (d_Meta d) = isvc_Namespace isvc"
    using controller_references.set_key(2) [OF controllers r(2)] r(3) by (simp add: co render_simps)
  show "k_isControlledBy K (d_Meta d) (is_Meta isvc)"
    using controller_references.set_controls [OF controllers r(2)] r(3) by simp
qed

lemma exclusive_child:
  assumes "child_deployment K isvc model cfg d" and "exclusive K ds" and "claim_free K isvc ds"
  shows "exclusive K (d # ds)"
proof -
  note child = child_claims [OF assms(1)]
  have with_child: "k_isControlledBy K (d_Meta e) (is_Meta isvc)"
    if "e \<in> set (d # ds)" "controlled K e" "om_Namespace (d_Meta e) = om_Namespace (d_Meta d)"
      "claims_of_deployment d \<inter> claims_of_deployment e \<noteq> {}" for e
    using that assms(3) child unfolding claim_free_def by auto
  show ?thesis
    unfolding exclusive_def
  proof (intro ballI impI)
    fix x y
    assume xy: "x \<in> set (d # ds)" "y \<in> set (d # ds)" "controlled K x" "controlled K y"
      "om_Namespace (d_Meta x) = om_Namespace (d_Meta y)"
      "claims_of_deployment x \<inter> claims_of_deployment y \<noteq> {}"
    show "\<exists>owner. k_isControlledBy K (d_Meta x) owner \<and> k_isControlledBy K (d_Meta y) owner"
    proof (cases "x = d \<or> y = d")
      case True
      then show ?thesis
      proof
        assume "x = d"
        with xy with_child [of y] child(3) show ?thesis by auto
      next
        assume "y = d"
        with xy with_child [of x] child(3) show ?thesis by (auto simp: Int_commute)
      qed
    next
      case False
      with xy assms(2) show ?thesis unfolding exclusive_def by simp
    qed
  qed
qed

lemma yields_applyOwnedDeployment:
  assumes "renderDeployment isvc model cfg = Some (Inr rendered)"
  shows "yields (\<lambda>ds. exclusive K ds \<and> claim_free K isvc ds) (applyOwnedDeployment K isvc rendered)"
proof (cases "ownedDeployment K isvc rendered")
  case (Inl err)
  then show ?thesis by (simp add: applyOwnedDeployment_def yields_def)
next
  case (Inr d)
  with assms have child: "child_deployment K isvc model cfg d" by (auto simp: child_deployment_def)
  have "exclusive K (deployments (snd (k_applyDeployment K d w)))"
    if "exclusive K (deployments w)" "claim_free K isvc (deployments w)" for w
    using exclusive_kept [OF exclusive_child [OF child that] apply_Deployment] child_claims(3) [OF child]
    unfolding controlled_def by blast
  moreover have "world (snd (run_state (applyOwnedDeployment K isvc rendered) s))
      = snd (k_applyDeployment K d (world s))" for s :: "'w sys"
    by (cases "k_applyDeployment K d (world s)")
      (simp add: applyOwnedDeployment_def Inr client_call_defs go_simps)
  ultimately show ?thesis unfolding yields_def by simp
qed

lemma yields_reconcileApply:
  "yields (\<lambda>ds. exclusive K ds \<and> claim_free K isvc ds) (reconcileApply K isvc model cfg)"
  unfolding reconcileApply_def
proof (intro yields_bind)
  fix cm
  show "yields (\<lambda>ds. exclusive K ds \<and> claim_free K isvc ds)
    (case cm of Some err \<Rightarrow> State_Monad.return (Returned (Some err))
     | None \<Rightarrow> (case renderDeployment isvc model cfg of
            None \<Rightarrow> State_Monad.return Panicked
          | Some (Inl err) \<Rightarrow> failConfigured K isvc ReasonInvalidConfig (error_text err)
          | Some (Inr rendered) \<Rightarrow> do {
              dr \<leftarrow> applyOwnedDeployment K isvc rendered;
              case dr of
                Inl err \<Rightarrow> State_Monad.return (Returned (Some err))
              | Inr deployment \<Rightarrow> applyServiceAndStatus K isvc model cfg deployment
            }))"
    by (auto simp: yields_keeps yields_applyOwnedDeployment intro!: yields_then split: option.split sum.split)
qed simp_all

lemma yields_reconcileChecked: "yields (exclusive K) (reconcileChecked K isvc tenant model)"
proof (cases "specProblem isvc model")
  case (Some p)
  then show ?thesis by (cases p) (simp add: reconcileChecked_def yields_keeps)
next
  case None
  show ?thesis
    unfolding yields_def
  proof (intro allI impI)
    fix s :: "'w sys" assume before: "exclusive K (deployments (world s))"
    obtain r s1 where guard: "run_state (trustedStoreConflict K isvc) s = (r, s1)" by fastforce
    have "keeps (trustedStoreConflict K isvc)" by simp
    then have "kept K (deployments (world s)) (deployments (world s1))"
      using guard unfolding keeps_def by (metis snd_conv)
    with before have s1: "exclusive K (deployments (world s1))" by (rule exclusive_kept)
    show "exclusive K (deployments (world (snd (run_state (reconcileChecked K isvc tenant model) s))))"
    proof (cases "r = Inr []")
      case True
      with guard have "claim_free K isvc (deployments (world s1))" by (simp add: guard_claim_free)
      with s1 have "exclusive K (deployments (world (snd (run_state
          (reconcileApply K isvc model (tenantConfig tenant)) s1))))"
        using yields_reconcileApply [of isvc model "tenantConfig tenant"] unfolding yields_def by blast
      with None guard True show ?thesis by (simp add: reconcileChecked_def)
    next
      case False
      have "yields (exclusive K) (failConfigured K isvc reason msg)" for reason msg
        by (simp add: yields_keeps)
      with None guard False s1 show ?thesis
        by (cases r) (auto simp: reconcileChecked_def yields_def)
    qed
  qed
qed

lemma yields_ReconcileISVC: "yields (exclusive K) (ReconcileISVC K req)"
proof -
  have model: "yields (exclusive K) (reconcileModel K isvc tenant)" for isvc tenant
    unfolding reconcileModel_def
    by (intro yields_bind) (auto simp: yields_keeps yields_reconcileChecked split: sum.split)
  have tenant: "yields (exclusive K) (reconcileTenantConfig K isvc)" for isvc
    unfolding reconcileTenantConfig_def
    by (intro yields_bind) (auto simp: yields_keeps model split: sum.split)
  show ?thesis
    unfolding ReconcileISVC_def
    by (intro yields_bind) (auto simp: yields_keeps tenant split: sum.split)
qed

lemma yields_run:
  assumes "yields (exclusive K) m" and "run m w = (r, w', cs)" and "exclusive K (deployments w)"
  shows "exclusive K (deployments w')"
  using assms unfolding yields_def run_simp by (metis snd_conv sys.select_convs(1))

end

subsection \<open>The operator in its environment\<close>

text \<open>
  A step: one of the three reconcilers runs to its end on some request, whatever it is and
  however it ends, or the environment changes the world without making or editing a controlled
  Deployment. Requests may come in any order, be lost or be repeated.
\<close>

inductive operator_step :: "'w kube \<Rightarrow> ('w \<Rightarrow> Deployment list) \<Rightarrow> 'w \<Rightarrow> 'w \<Rightarrow> bool"
  for K :: "'w kube" and deployments :: "'w \<Rightarrow> Deployment list" where
  service_reconciled: "run (ReconcileISVC K req) w = (r, w', cs) \<Longrightarrow> operator_step K deployments w w'"
| model_reconciled: "run (ReconcileModel K req) w = (r, w', cs) \<Longrightarrow> operator_step K deployments w w'"
| tenant_reconciled: "run (ReconcileTenant K req) w = (r, w', cs) \<Longrightarrow> operator_step K deployments w w'"
| environment: "kept K (deployments w) (deployments w') \<Longrightarrow> operator_step K deployments w w'"

inductive_cases operator_stepE: "operator_step K deployments w w'"

inductive reachable :: "'w kube \<Rightarrow> ('w \<Rightarrow> Deployment list) \<Rightarrow> 'w \<Rightarrow> 'w \<Rightarrow> bool"
  for K :: "'w kube" and deployments :: "'w \<Rightarrow> Deployment list" and w0 :: 'w where
  start: "reachable K deployments w0 w0"
| step: "reachable K deployments w0 w \<Longrightarrow> operator_step K deployments w w' \<Longrightarrow> reachable K deployments w0 w'"

inductive_simps reachable_from_start: "reachable K deployments w0 w"

lemma step_exclusive:
  assumes "deployment_server K deployments" and "operator_step K deployments w w'"
    and "exclusive K (deployments w)"
  shows "exclusive K (deployments w')"
proof -
  note yields = deployment_server.yields_run [OF assms(1) _ _ assms(3)]
    and keeps = deployment_server.yields_keeps [OF assms(1) deployment_server.stable_exclusive [OF assms(1)]]
  show ?thesis
    using assms(2)
    by (elim operator_stepE)
      (rule yields [OF deployment_server.yields_ReconcileISVC [OF assms(1)]]
        yields [OF keeps [OF deployment_server.keeps_other_reconcilers(1) [OF assms(1)]]]
        yields [OF keeps [OF deployment_server.keeps_other_reconcilers(2) [OF assms(1)]]]
        exclusive_kept [OF assms(3)], assumption)+
qed


subsection \<open>The reference server keeps the contract\<close>

lemma the_controller_merge:
  assumes "the_controller new = Some c" and "one_controller_at_most (merge_meta old new)"
  shows "the_controller (merge_meta old new) = Some c"
proof -
  let ?olds = "filter (\<lambda>r. or_UID r \<notin> or_UID ` set (om_OwnerReferences new)) (om_OwnerReferences old)"
  from assms(1) have "c \<in> set (filter or_Controller (om_OwnerReferences new))"
    by (auto simp: the_controller_def dest: find_Some_set)
  then have "1 \<le> length (filter or_Controller (om_OwnerReferences new))"
    by (metis length_pos_if_in_set One_nat_def Suc_leI)
  moreover have "length (filter or_Controller ?olds) + length (filter or_Controller (om_OwnerReferences new)) \<le> 1"
    using assms(2) by (simp add: one_controller_at_most_def merge_meta_def merge_refs_def del: filter_filter)
  ultimately have "length (filter or_Controller ?olds) \<le> 0" by linarith
  then have "filter or_Controller ?olds = []" by (simp only: le_zero_eq length_0_conv)
  then have "List.find or_Controller ?olds = None" by (auto simp: find_None_set filter_empty_conv)
  with assms(1) show ?thesis by (simp add: the_controller_def merge_meta_def merge_refs_def find_append)
qed

lemma apply_Deployment_kept:
  assumes "controlled ref_kube d"
  shows "kept ref_kube (d # cl_Deployments w) (cl_Deployments (snd (k_applyDeployment ref_kube d w)))"
proof (cases "apply_to d_Meta merge_Deployment (cl_Deployments w) d")
  case (Inl e)
  then show ?thesis by (simp add: ref_kube_def) (rule kept_subset, auto)
next
  case (Inr p)
  obtain res ds where p: "p = (res, ds)" by fastforce
  let ?old = "List.find (\<lambda>x. meta_key (d_Meta x) = meta_key (d_Meta d)) (cl_Deployments w)"
  from Inr p have res: "res = (case ?old of None \<Rightarrow> d | Some old \<Rightarrow> merge_Deployment old d)"
    and one: "one_controller_at_most (d_Meta res)" and ds: "set ds \<subseteq> insert res (set (cl_Deployments w))"
    by (auto simp: apply_to_def Let_def put_to_def split: if_splits)
  have "same_workload ref_kube d res"
  proof (cases ?old)
    case None
    with res show ?thesis by simp
  next
    case (Some old)
    from assms obtain c where c: "the_controller (d_Meta d) = Some c"
      by (auto simp: controlled_def ref_isControlledBy_def split: option.splits)
    from Some res have r: "res = merge_Deployment old d" by simp
    from find_Some_set [OF Some] have "om_Namespace (d_Meta old) = om_Namespace (d_Meta d)"
      by (simp add: meta_key_eq)
    moreover have "the_controller (d_Meta res) = Some c"
      using one c unfolding r merge_Deployment_def by (simp add: the_controller_merge)
    ultimately show ?thesis
      using c by (simp add: same_workload_def r merge_Deployment_def merge_meta_def
          ref_isControlledBy_def claims_of_deployment_def fun_eq_iff)
  qed
  with ds have "kept ref_kube (d # cl_Deployments w) ds"
    unfolding kept_def using same_workload_refl by fastforce
  with Inr p show ?thesis by (simp add: ref_kube_def)
qed

lemma ref_kube_frames [simp]:
  "cl_Deployments (snd (k_applyConfigMap ref_kube cm w)) = cl_Deployments w"
  "cl_Deployments (snd (k_applyService ref_kube sv w)) = cl_Deployments w"
  "cl_Deployments (snd (k_updateInferenceServiceStatus ref_kube i w)) = cl_Deployments w"
  "cl_Deployments (snd (k_updateBrukModelStatus ref_kube m w)) = cl_Deployments w"
  "cl_Deployments (snd (k_updateBrukTenantStatus ref_kube t w)) = cl_Deployments w"
  by (simp_all add: ref_kube_def split: sum.split prod.split)

interpretation ref_ds: deployment_server ref_kube cl_Deployments
proof (rule deployment_server.intro)
  show "kept ref_kube ds (filter (\<lambda>d. om_Namespace (d_Meta d) = ns) (cl_Deployments w'))"
    if "k_listDeployments ref_kube (Some ns) w = (Inr ds, w')" for ns w ds w'
    using that by (auto simp: ref_kube_def list_from_def)
  show "kept ref_kube (d # cl_Deployments w) (cl_Deployments (snd (k_applyDeployment ref_kube d w)))"
    if "controlled ref_kube d" for d w
    using that by (rule apply_Deployment_kept)
  show "controller_references (k_isControlledBy ref_kube) (k_setControllerReference ref_kube)"
    using ref_cr.controller_references_axioms by simp
qed (simp_all, simp_all add: ref_kube_def)


end
