(* ===== verification/Operator.thy ===== *)
theory Operator
  imports StoreExclusion
begin

text \<open>
  The three reconcilers as one program: the permissions their RBAC markers ask for and the
  permissions their calls need, the contract that all three keep (\<open>reconciler\<close>), and what
  follows for any sequence of requests the manager hands to them.
\<close>

subsection \<open>Permissions\<close>

type_synonym permission = "string \<times> string \<times> string"

text \<open>The \<open>+kubebuilder:rbac\<close> markers of the three controllers: group, resource, verbs.\<close>

definition bruk_group :: string where "bruk_group = ''bruk.airon.ai''"

definition service_rbac :: "(string \<times> string \<times> string list) list" where
  "service_rbac =
     [(bruk_group, ''inferenceservices'', [''get'', ''list'', ''watch'']),
      (bruk_group, ''inferenceservices/status'', [''get'', ''update'', ''patch'']),
      (bruk_group, ''brukmodels'', [''get'', ''list'', ''watch'']),
      (bruk_group, ''bruktenants'', [''get'', ''list'', ''watch'']),
      (''apps'', ''deployments'', [''get'', ''list'', ''watch'', ''create'', ''update'', ''patch'', ''delete'']),
      ('''', ''services'', [''get'', ''list'', ''watch'', ''create'', ''update'', ''patch'', ''delete'']),
      ('''', ''configmaps'', [''get'', ''list'', ''watch'', ''create'', ''update'', ''patch'']),
      ('''', ''pods'', [''get'', ''list'', ''watch''])]"

definition model_rbac :: "(string \<times> string \<times> string list) list" where
  "model_rbac =
     [(bruk_group, ''brukmodels'', [''get'', ''list'', ''watch'']),
      (bruk_group, ''brukmodels/status'', [''get'', ''update'', ''patch'']),
      ('''', ''secrets'', [''get''])]"

definition tenant_rbac :: "(string \<times> string \<times> string list) list" where
  "tenant_rbac =
     [(bruk_group, ''bruktenants'', [''get'', ''list'', ''watch'']),
      (bruk_group, ''bruktenants/status'', [''get'', ''update'', ''patch''])]"

definition granted :: "(string \<times> string \<times> string list) list \<Rightarrow> permission set" where
  "granted rules = (\<Union>(g, r, vs) \<in> set rules. (\<lambda>v. (g, r, v)) ` set vs)"

text \<open>
  \<open>clientOptions\<close> of \<open>cmd/main.go\<close>: the resources the client does not cache. A cached read is
  served by an informer, which lists and watches; a read that is not cached asks the server
  directly; a server-side apply patches and may create.
\<close>

definition clientOptions_DisableFor :: "string list" where
  "clientOptions_DisableFor = [''secrets'']"

definition read_needs :: "string list \<Rightarrow> string \<Rightarrow> string \<Rightarrow> string \<Rightarrow> permission set" where
  "read_needs uncached g r verb =
     (if r \<in> set uncached then {(g, r, verb)} else {(g, r, verb), (g, r, ''list''), (g, r, ''watch'')})"

fun needs :: "string list \<Rightarrow> call \<Rightarrow> permission set" where
  "needs uncached (GetInferenceService _) = read_needs uncached bruk_group ''inferenceservices'' ''get''"
| "needs uncached (GetBrukModel _) = read_needs uncached bruk_group ''brukmodels'' ''get''"
| "needs uncached (GetBrukTenant _) = read_needs uncached bruk_group ''bruktenants'' ''get''"
| "needs uncached (GetSecret _) = read_needs uncached '''' ''secrets'' ''get''"
| "needs uncached (ListInferenceServices _) = read_needs uncached bruk_group ''inferenceservices'' ''list''"
| "needs uncached (ListDeployments _) = read_needs uncached ''apps'' ''deployments'' ''list''"
| "needs uncached (ListPods _) = read_needs uncached '''' ''pods'' ''list''"
| "needs uncached (ApplyConfigMap _) = {('''', ''configmaps'', ''patch''), ('''', ''configmaps'', ''create'')}"
| "needs uncached (ApplyDeployment _) = {(''apps'', ''deployments'', ''patch''), (''apps'', ''deployments'', ''create'')}"
| "needs uncached (ApplyService _) = {('''', ''services'', ''patch''), ('''', ''services'', ''create'')}"
| "needs uncached (UpdateInferenceServiceStatus _) = {(bruk_group, ''inferenceservices/status'', ''update'')}"
| "needs uncached (UpdateBrukModelStatus _) = {(bruk_group, ''brukmodels/status'', ''update'')}"
| "needs uncached (UpdateBrukTenantStatus _) = {(bruk_group, ''bruktenants/status'', ''update'')}"

definition calls_need :: "call list \<Rightarrow> permission set" where
  "calls_need cs = (\<Union>c \<in> set cs. needs clientOptions_DisableFor c)"

lemma calls_need_simps [simp]:
  "calls_need [] = {}" "calls_need (c # cs) = needs clientOptions_DisableFor c \<union> calls_need cs"
  "calls_need (cs @ cs') = calls_need cs \<union> calls_need cs'"
  by (auto simp: calls_need_def)

lemma granted_simps [simp]:
  "granted [] = {}" "granted ((g, r, vs) # rules) = (\<lambda>v. (g, r, v)) ` set vs \<union> granted rules"
  "granted (rules @ rules') = granted rules \<union> granted rules'"
  by (simp_all add: granted_def)

lemmas rbac_defs = service_rbac_def model_rbac_def tenant_rbac_def

subsection \<open>The contract of a reconciler\<close>

text \<open>
  What each of the three promises: its run returns, asks only for permissions of its own
  markers, and writes a status only as its last call.
\<close>

fun is_status :: "call \<Rightarrow> bool" where
  "is_status (UpdateInferenceServiceStatus _) = True"
| "is_status (UpdateBrukModelStatus _) = True"
| "is_status (UpdateBrukTenantStatus _) = True"
| "is_status _ = False"

locale reconciler =
  fixes reconcile :: "'w kube \<Rightarrow> NamespacedName \<Rightarrow> ('w sys, reconcile_outcome) state"
    and rules :: "(string \<times> string \<times> string list) list"
  assumes returns: "run (reconcile K req) w = (r, w', cs) \<Longrightarrow> r \<noteq> Panicked"
    and authorised: "run (reconcile K req) w = (r, w', cs) \<Longrightarrow> calls_need cs \<subseteq> granted rules"
    and status_last: "run (reconcile K req) w = (r, w', cs) \<Longrightarrow> filter is_status (butlast cs) = []"
begin

lemma one_status:
  assumes "run (reconcile K req) w = (r, w', cs)"
  shows "length (filter is_status cs) \<le> 1"
proof (cases cs rule: rev_cases)
  case (snoc pre c)
  with status_last [OF assms] show ?thesis by (simp del: filter_empty_conv)
qed simp

end

lemma service_calls_need:
  assumes "run (ReconcileISVC K req) w = (r, w', cs)"
  shows "calls_need cs \<subseteq> granted service_rbac"
proof -
  have reads: "calls_need rs \<subseteq> granted service_rbac" if "list_all plain_read rs" for rs
    using that
  proof (induction rs)
    case (Cons c rs)
    then show ?case by (cases c) (simp_all add: service_rbac_def read_needs_def)
  qed simp
  have gai: "calls_need (gai_calls i) \<subseteq> granted service_rbac" for i
    by (simp add: gai_calls_def service_rbac_def)
  have writes: "needs u (ApplyDeployment d) \<subseteq> granted service_rbac"
    "needs u (ApplyService sv) \<subseteq> granted service_rbac"
    "needs u (UpdateInferenceServiceStatus i) \<subseteq> granted service_rbac" for u d sv i
    by (simp_all add: service_rbac_def)
  note check = reads [OF check_calls_read]
  from assms show ?thesis
  proof (cases rule: reconcile_run_cases)
    case gone
    then show ?thesis using reads [of "[GetInferenceService req]"] by simp
  next
    case quiet
    then show ?thesis by (intro reads)
  next
    case failed
    with reads writes show ?thesis by simp
  next
    case (stopped isvc tenant model err sent)
    then have "calls_need sent \<subseteq> granted service_rbac" using writes by (auto simp: child_calls_def)
    with stopped check gai show ?thesis by simp
  qed (use check gai writes in simp_all)
qed

lemma model_calls_need:
  assumes "run (ReconcileModel K req) w = (r, w', cs)"
  shows "calls_need cs \<subseteq> granted model_rbac"
proof -
  have reads: "calls_need rs \<subseteq> granted model_rbac" if "model_reads req model rs" for model rs
    using that unfolding model_reads_def
    by (elim disjE exE conjE) (simp_all add: model_rbac_def read_needs_def clientOptions_DisableFor_def)
  from assms show ?thesis
  proof (cases rule: ReconcileModel_cases)
    case gone
    with reads [of undefined "[GetBrukModel req]"] show ?thesis by (simp add: model_reads_def)
  next
    case (quiet model)
    then show ?thesis by (intro reads)
  next
    case (recorded model w1 rs)
    with reads [OF recorded(2)] show ?thesis by (simp add: model_rbac_def)
  qed
qed

lemma tenant_run_calls:
  assumes "run (ReconcileTenant K req) w = (r, w', cs)"
  shows "r \<noteq> Panicked" and "cs = [GetBrukTenant req] \<or> (\<exists>t. cs = [GetBrukTenant req, UpdateBrukTenantStatus t])"
  using assms
  by (auto simp: ReconcileTenant_def client_call_defs go_simps run_simp split: prod.splits sum.splits)

lemma tenant_calls_need:
  assumes "run (ReconcileTenant K req) w = (r, w', cs)"
  shows "calls_need cs \<subseteq> granted tenant_rbac"
  using tenant_run_calls(2) [OF assms]
  by (elim disjE exE) (simp_all add: tenant_rbac_def read_needs_def)

lemma service_run_outcome:
  assumes "run (ReconcileISVC K req) w = (r, w', cs)"
  shows "r \<noteq> Panicked" and "filter is_status (butlast cs) = []"
proof -
  have reads: "filter is_status rs = []" if "list_all plain_read rs" for rs
    using that
  proof (induction rs)
    case (Cons c rs)
    then show ?case by (cases c) simp_all
  qed simp
  note check = reads [OF check_calls_read]
  have gai: "filter is_status (gai_calls i) = []" for i by (simp add: gai_calls_def)
  have last: "filter P cs' = [] \<Longrightarrow> filter P (butlast cs') = []" for P and cs' :: "call list"
    by (auto simp: filter_empty_conv dest: in_set_butlastD)
  from assms show "r \<noteq> Panicked" by (cases rule: reconcile_run_cases) simp_all
  from assms show "filter is_status (butlast cs) = []"
  proof (cases rule: reconcile_run_cases)
    case quiet
    then show ?thesis by (intro last reads)
  next
    case (stopped isvc tenant model err sent)
    then have "filter is_status cs = []"
      using check gai by (auto simp: child_calls_def)
    then show ?thesis by (rule last)
  qed (use check gai reads in \<open>simp_all add: butlast_append\<close>)
qed

interpretation service: reconciler ReconcileISVC service_rbac
  by unfold_locales (simp_all add: service_run_outcome service_calls_need)

interpretation model: reconciler ReconcileModel model_rbac
proof unfold_locales
  fix K :: "'a kube" and req w r w' cs
  assume run: "run (ReconcileModel K req) w = (r, w', cs)"
  then show "calls_need cs \<subseteq> granted model_rbac" by (rule model_calls_need)
  from run show "r \<noteq> Panicked" by (cases rule: ReconcileModel_cases) simp_all
  have "filter is_status rs = []" if "model_reads req m rs" for m rs
    using that by (auto simp: model_reads_def)
  with run show "filter is_status (butlast cs) = []"
    by (cases rule: ReconcileModel_cases) (auto simp: model_reads_def)
qed

interpretation tenant: reconciler ReconcileTenant tenant_rbac
  by unfold_locales (auto simp: tenant_run_calls(1) tenant_calls_need dest: tenant_run_calls(2))

subsection \<open>The manager's sequence of requests\<close>

text \<open>
  \<open>main\<close> registers the three reconcilers with one manager, which hands each of them requests; a
  sequence of requests is processed by running them one after the other.
\<close>

datatype controller = BrukTenantController | BrukModelController | InferenceServiceController

text \<open>The controllers in the order \<open>main\<close> registers them.\<close>

instantiation controller :: linorder
begin

primrec controller_rank :: "controller \<Rightarrow> nat" where
  "controller_rank BrukTenantController = 0"
| "controller_rank BrukModelController = 1"
| "controller_rank InferenceServiceController = 2"

definition less_eq_controller :: "controller \<Rightarrow> controller \<Rightarrow> bool" where
  "less_eq_controller a b \<longleftrightarrow> controller_rank a \<le> controller_rank b"

definition less_controller :: "controller \<Rightarrow> controller \<Rightarrow> bool" where
  "less_controller a b \<longleftrightarrow> controller_rank a < controller_rank b"

instance
proof
  have inj: "controller_rank a = controller_rank b \<Longrightarrow> a = b" for a b
    by (cases a; cases b) simp_all
  fix a b c :: controller
  show "a < b \<longleftrightarrow> a \<le> b \<and> \<not> b \<le> a" by (auto simp: less_eq_controller_def less_controller_def)
  show "a \<le> a" by (simp add: less_eq_controller_def)
  show "a \<le> b \<Longrightarrow> b \<le> c \<Longrightarrow> a \<le> c" by (simp add: less_eq_controller_def)
  show "a \<le> b \<Longrightarrow> b \<le> a \<Longrightarrow> a = b" using inj by (simp add: less_eq_controller_def)
  show "a \<le> b \<or> b \<le> a" by (auto simp: less_eq_controller_def)
qed

end

fun reconcile_of :: "'w kube \<Rightarrow> controller \<Rightarrow> NamespacedName \<Rightarrow> ('w sys, reconcile_outcome) state" where
  "reconcile_of K BrukTenantController = ReconcileTenant K"
| "reconcile_of K BrukModelController = ReconcileModel K"
| "reconcile_of K InferenceServiceController = ReconcileISVC K"

primrec process ::
    "'w kube \<Rightarrow> (controller \<times> NamespacedName) list \<Rightarrow> 'w
      \<Rightarrow> reconcile_outcome list \<times> 'w \<times> call list" where
  "process K [] w = ([], w, [])"
| "process K (q # qs) w =
     (case run (reconcile_of K (fst q) (snd q)) w of (r, w1, cs) \<Rightarrow>
      case process K qs w1 of (rs, w2, cs') \<Rightarrow> (r # rs, w2, cs @ cs'))"

lemma reconcile_of_contract:
  assumes "run (reconcile_of K c req) w = (r, w', cs)"
  shows "r \<noteq> Panicked" and "calls_need cs \<subseteq> granted (service_rbac @ model_rbac @ tenant_rbac)"
    and "length (filter is_status cs) \<le> 1"
proof -
  have "r \<noteq> Panicked \<and> calls_need cs \<subseteq> granted service_rbac \<union> granted model_rbac \<union> granted tenant_rbac \<and>
      length (filter is_status cs) \<le> 1"
  proof (cases c)
    case BrukTenantController
    with assms have "run (ReconcileTenant K req) w = (r, w', cs)" by simp
    from tenant.returns [OF this] tenant.authorised [OF this] tenant.one_status [OF this] show ?thesis by blast
  next
    case BrukModelController
    with assms have "run (ReconcileModel K req) w = (r, w', cs)" by simp
    from model.returns [OF this] model.authorised [OF this] model.one_status [OF this] show ?thesis by blast
  next
    case InferenceServiceController
    with assms have "run (ReconcileISVC K req) w = (r, w', cs)" by simp
    from service.returns [OF this] service.authorised [OF this] service.one_status [OF this] show ?thesis by blast
  qed
  then show "r \<noteq> Panicked" "calls_need cs \<subseteq> granted (service_rbac @ model_rbac @ tenant_rbac)"
    "length (filter is_status cs) \<le> 1"
    by auto
qed

text \<open>C28: The RBAC markers suffice. Whatever the manager asks of the three reconcilers, in any order
  and number, and whatever the server answers, no run panics, a request costs at most one write of
  a status, and every call needs only permissions that the markers grant; of secrets, only \<open>get\<close>.\<close>

theorem rbac_sufficient:
  "Panicked \<notin> set (fst (process K qs w)) \<and>
   length (filter is_status (snd (snd (process K qs w)))) \<le> length qs \<and>
   calls_need (snd (snd (process K qs w))) \<subseteq> granted (service_rbac @ model_rbac @ tenant_rbac) \<and>
   calls_need (snd (snd (process K qs w))) \<inter> {p. fst (snd p) = ''secrets''} \<subseteq> {('''', ''secrets'', ''get'')}"
proof -
  have main: "Panicked \<notin> set (fst (process K qs w)) \<and>
      length (filter is_status (snd (snd (process K qs w)))) \<le> length qs \<and>
      calls_need (snd (snd (process K qs w))) \<subseteq> granted (service_rbac @ model_rbac @ tenant_rbac)"
  proof (induction qs arbitrary: w)
    case (Cons q qs)
    obtain r w1 cs where run: "run (reconcile_of K (fst q) (snd q)) w = (r, w1, cs)"
      by (cases "run (reconcile_of K (fst q) (snd q)) w")
    obtain rs w2 cs' where "process K qs w1 = (rs, w2, cs')" by (cases "process K qs w1")
    with run reconcile_of_contract [OF run] Cons.IH [of w1] show ?case by auto
  qed simp
  have "granted (service_rbac @ model_rbac @ tenant_rbac) \<inter> {p. fst (snd p) = ''secrets''}
      = {('''', ''secrets'', ''get'')}"
    by (simp add: rbac_defs Int_insert_left)
  with main show ?thesis by blast
qed

text \<open>The client option is needed. With secrets cached like everything else, the point read of a
  token would need to list and watch secrets, which no marker grants.\<close>

theorem uncached_secrets_needed:
  "needs [] (GetSecret key) - granted (service_rbac @ model_rbac @ tenant_rbac) =
     {('''', ''secrets'', ''list''), ('''', ''secrets'', ''watch'')} \<and>
   needs clientOptions_DisableFor (GetSecret key) \<subseteq> granted model_rbac"
  by (simp add: rbac_defs read_needs_def clientOptions_DisableFor_def insert_Diff_if bruk_group_def)

end
