(* ===== verification/Manager.thy ===== *)
theory Manager
  imports Operator
begin

text \<open>
  \<open>cmd/main.go\<close>: the options of the two servers and of the manager as functions of the parsed
  flags, and the start sequence, in which every step may fail and a failure exits with status 1.
  The command line is read in \<open>CommandLine\<close>, the scheme is filled in \<open>Scheme\<close>; the logger and what
  the servers do with their options are the libraries'; a step's outcome is a parameter.
\<close>

subsection \<open>Flags and options\<close>

record Flags =
  fl_metricsAddr :: string
  fl_probeAddr :: string
  fl_enableLeaderElection :: bool
  fl_secureMetrics :: bool
  fl_webhookCertPath :: string
  fl_webhookCertName :: string
  fl_webhookCertKey :: string
  fl_metricsCertPath :: string
  fl_metricsCertName :: string
  fl_metricsCertKey :: string
  fl_enableHTTP2 :: bool

definition default_flags :: Flags where
  "default_flags =
     \<lparr>fl_metricsAddr = ''0'', fl_probeAddr = '':8081'', fl_enableLeaderElection = False,
      fl_secureMetrics = True, fl_webhookCertPath = [], fl_webhookCertName = ''tls.crt'',
      fl_webhookCertKey = ''tls.key'', fl_metricsCertPath = [], fl_metricsCertName = ''tls.crt'',
      fl_metricsCertKey = ''tls.key'', fl_enableHTTP2 = False\<rparr>"

text \<open>Of a TLS configuration only the protocols matter here (\<open>tls.Config.NextProtos\<close>).\<close>

record TLSConfig =
  tls_NextProtos :: "string list"

definition disableHTTP2 :: "TLSConfig \<Rightarrow> TLSConfig" where
  "disableHTTP2 c = c\<lparr>tls_NextProtos := [''http/1.1'']\<rparr>"

definition tlsOpts :: "Flags \<Rightarrow> (TLSConfig \<Rightarrow> TLSConfig) list" where
  "tlsOpts fl = (if \<not> fl_enableHTTP2 fl then [disableHTTP2] else [])"

record WebhookOptions =
  wo_TLSOpts :: "(TLSConfig \<Rightarrow> TLSConfig) list"
  wo_CertDir :: string
  wo_CertName :: string
  wo_KeyName :: string

definition webhookServerOptions :: "Flags \<Rightarrow> WebhookOptions" where
  "webhookServerOptions fl =
     (let opts = \<lparr>wo_TLSOpts = tlsOpts fl, wo_CertDir = [], wo_CertName = [], wo_KeyName = []\<rparr> in
      if length (fl_webhookCertPath fl) > 0 then
        opts\<lparr>wo_CertDir := fl_webhookCertPath fl, wo_CertName := fl_webhookCertName fl,
             wo_KeyName := fl_webhookCertKey fl\<rparr>
      else opts)"

datatype FilterProvider = WithAuthenticationAndAuthorization

record MetricsOptions =
  mo_BindAddress :: string
  mo_SecureServing :: bool
  mo_TLSOpts :: "(TLSConfig \<Rightarrow> TLSConfig) list"
  mo_FilterProvider :: "FilterProvider option"
  mo_CertDir :: string
  mo_CertName :: string
  mo_KeyName :: string

definition metricsServerOptions :: "Flags \<Rightarrow> MetricsOptions" where
  "metricsServerOptions fl =
     (let opts = \<lparr>mo_BindAddress = fl_metricsAddr fl, mo_SecureServing = fl_secureMetrics fl,
                  mo_TLSOpts = tlsOpts fl, mo_FilterProvider = None, mo_CertDir = [],
                  mo_CertName = [], mo_KeyName = []\<rparr>;
          opts = (if fl_secureMetrics fl
                  then opts\<lparr>mo_FilterProvider := Some WithAuthenticationAndAuthorization\<rparr> else opts)
      in if length (fl_metricsCertPath fl) > 0 then
           opts\<lparr>mo_CertDir := fl_metricsCertPath fl, mo_CertName := fl_metricsCertName fl,
                mo_KeyName := fl_metricsCertKey fl\<rparr>
         else opts)"

record ManagerOptions =
  mg_Metrics :: MetricsOptions
  mg_WebhookServer :: WebhookOptions
  mg_HealthProbeBindAddress :: string
  mg_LeaderElection :: bool
  mg_LeaderElectionID :: string
  mg_DisableFor :: "string list"

definition managerOptions :: "Flags \<Rightarrow> ManagerOptions" where
  "managerOptions fl =
     \<lparr>mg_Metrics = metricsServerOptions fl, mg_WebhookServer = webhookServerOptions fl,
      mg_HealthProbeBindAddress = fl_probeAddr fl, mg_LeaderElection = fl_enableLeaderElection fl,
      mg_LeaderElectionID = ''c6f50ef7.airon.ai'', mg_DisableFor = clientOptions_DisableFor\<rparr>"

subsection \<open>The start sequence\<close>

datatype startup =
    NewManager ManagerOptions
  | SetupWithManager controller
  | AddHealthzCheck string
  | AddReadyzCheck string
  | Start

text \<open>
  Each step calls the library; \<open>fails\<close> says which call returns an error. The log lists the
  steps that were made; the result is the exit status, 0 when \<open>main\<close> returns.
\<close>

primrec startup_run :: "(startup \<Rightarrow> bool) \<Rightarrow> startup list \<Rightarrow> nat \<times> startup list" where
  "startup_run fails [] = (0, [])"
| "startup_run fails (x # xs) =
     (if fails x then (1, [x])
      else case startup_run fails xs of (status, log) \<Rightarrow> (status, x # log))"

definition main_steps :: "Flags \<Rightarrow> startup list" where
  "main_steps fl =
     [NewManager (managerOptions fl), SetupWithManager BrukTenantController,
      SetupWithManager BrukModelController, SetupWithManager InferenceServiceController,
      AddHealthzCheck ''healthz'', AddReadyzCheck ''readyz'', Start]"

definition main :: "(startup \<Rightarrow> bool) \<Rightarrow> Flags \<Rightarrow> nat \<times> startup list" where
  "main fails fl = startup_run fails (main_steps fl)"

text \<open>The controllers that a log of steps registers.\<close>

definition registered :: "startup list \<Rightarrow> controller list" where
  "registered log = List.map_filter (\<lambda>x. case x of SetupWithManager c \<Rightarrow> Some c | _ \<Rightarrow> None) log"

lemma registered_append: "registered (xs @ ys) = registered xs @ registered ys"
  by (simp add: registered_def map_filter_def)

lemma startup_run_status: "fst (startup_run fails xs) = (if list_ex fails xs then 1 else 0)"
  by (induction xs) (auto split: prod.splits)

lemma startup_run_prefix: "\<exists>rest. xs = snd (startup_run fails xs) @ rest"
proof (induction xs)
  case (Cons x xs)
  then show ?case by (auto split: prod.splits)
qed simp

lemma startup_run_before:
  "x \<in> set (snd (startup_run fails xs)) \<Longrightarrow>
   list_all (\<lambda>y. \<not> fails y \<and> y \<in> set (snd (startup_run fails xs))) (takeWhile (\<lambda>y. y \<noteq> x) xs)"
proof (induction xs)
  case (Cons a xs)
  obtain st log where run: "startup_run fails xs = (st, log)" by fastforce
  show ?case
  proof (cases "a = x \<or> fails a")
    case True
    with Cons.prems show ?thesis by (auto split: if_splits)
  next
    case False
    with Cons.prems run have "x \<in> set log" by auto
    with Cons.IH run have "list_all (\<lambda>y. \<not> fails y \<and> y \<in> set log) (takeWhile (\<lambda>y. y \<noteq> x) xs)" by simp
    then have "list_all (\<lambda>y. \<not> fails y \<and> y \<in> set (a # log)) (takeWhile (\<lambda>y. y \<noteq> x) xs)"
      by (rule list.pred_mono_strong) simp
    with False run show ?thesis by simp
  qed
qed simp

text \<open>The manager never starts half built. \<open>main\<close> makes its steps in order and stops at the first
  that fails, with exit status 1, which it has exactly when a step fails; so when the manager is
  started, it has been created, the three controllers are registered and both checks installed,
  none of them with an error; no controller is registered twice, and they come in the order tenant,
  model, service.\<close>

theorem main_starts_complete:
  "fst (main fails fl) = (if list_ex fails (main_steps fl) then 1 else 0) \<and>
   (\<exists>rest. main_steps fl = snd (main fails fl) @ rest) \<and>
   sorted_wrt (<) (registered (snd (main fails fl))) \<and>
   (Start \<in> set (snd (main fails fl)) \<longrightarrow>
      list_all (\<lambda>y. \<not> fails y \<and> y \<in> set (snd (main fails fl)))
        (NewManager (managerOptions fl) # AddHealthzCheck ''healthz'' # AddReadyzCheck ''readyz''
          # map SetupWithManager [BrukTenantController, BrukModelController, InferenceServiceController]))"
proof -
  let ?log = "snd (startup_run fails (main_steps fl))"
  obtain rest where "main_steps fl = ?log @ rest" using startup_run_prefix by blast
  then have "registered (main_steps fl) = registered ?log @ registered rest" by (metis registered_append)
  moreover have "sorted_wrt (<) (registered (main_steps fl))"
    by (simp add: main_steps_def registered_def map_filter_def less_controller_def)
  ultimately have sorted: "sorted_wrt (<) (registered ?log)" by (simp add: sorted_wrt_append)
  from startup_run_before [of Start fails "main_steps fl"] sorted show ?thesis
    unfolding main_def startup_run_status
    by (intro conjI impI startup_run_prefix refl) (auto simp: main_steps_def)
qed

theorem main_starts_complete_witness:
  "Start \<in> set (snd (main (\<lambda>_. False) default_flags)) \<and>
   SetupWithManager InferenceServiceController \<in> set (snd (main (\<lambda>_. False) default_flags))"
proof -
  have "Start \<in> set (snd (main (\<lambda>_. False) default_flags))" by (simp add: main_def main_steps_def)
  with main_starts_complete [of "\<lambda>_. False" default_flags] show ?thesis by simp
qed

text \<open>HTTP/2 stays off. Unless the flag enables it, the TLS options of both servers leave, of any
  configuration, only HTTP/1.1; with the flag they change nothing.\<close>

theorem http2_disabled:
  "fold (\<lambda>f. f) (mo_TLSOpts (metricsServerOptions fl)) c =
     (if fl_enableHTTP2 fl then c else c\<lparr>tls_NextProtos := [''http/1.1'']\<rparr>) \<and>
   wo_TLSOpts (mg_WebhookServer (managerOptions fl)) = mo_TLSOpts (mg_Metrics (managerOptions fl))"
  by (simp add: metricsServerOptions_def webhookServerOptions_def managerOptions_def tlsOpts_def
      disableHTTP2_def Let_def)

text \<open>Secure metrics are authorised. The metrics endpoint has the authentication and authorisation
  filter exactly when it is served over TLS; by default it is, is not bound to an address, and
  secrets are read past the cache.\<close>

theorem metrics_protected:
  "(mo_FilterProvider (metricsServerOptions fl) = Some WithAuthenticationAndAuthorization
      \<longleftrightarrow> mo_SecureServing (metricsServerOptions fl)) \<and>
   mo_SecureServing (metricsServerOptions default_flags) \<and>
   mo_BindAddress (metricsServerOptions default_flags) = ''0'' \<and>
   mg_DisableFor (managerOptions fl) = [''secrets'']"
  by (simp add: metricsServerOptions_def managerOptions_def default_flags_def Let_def
      clientOptions_DisableFor_def)

end
