(* ===== verification/CommandLine.thy ===== *)
theory CommandLine
  imports Manager
begin

text \<open>
  The command line of \<open>cmd/main.go\<close>: the flags \<open>main\<close> declares and how Go's package \<open>flag\<close> reads
  them. One or two dashes, a value after \<open>=\<close> or, for a flag that is not boolean, in the next
  argument; the first argument that is no flag ends the parsing, and so does \<open>--\<close>. An error
  exits with status 2, a request for help with status 0. The logger's flags
  (\<open>zap.Options.BindFlags\<close>) are a parameter: for each of their names, whether it is boolean and
  which values it takes.
\<close>

subsection \<open>Arguments\<close>

datatype token =
    NotAFlag
  | Terminator
  | Malformed
  | FlagToken string "string option"

definition cut_value :: "string \<Rightarrow> token" where
  "cut_value name =
     (let n = takeWhile (\<lambda>c. c \<noteq> CHR ''='') name; rest = dropWhile (\<lambda>c. c \<noteq> CHR ''='') name
      in FlagToken n (case rest of [] \<Rightarrow> None | _ # v \<Rightarrow> Some v))"

definition token_of :: "string \<Rightarrow> token" where
  "token_of s =
     (if length s < 2 \<or> s ! 0 \<noteq> CHR ''-'' then NotAFlag
      else if s = ''--'' then Terminator
      else let name = drop (if s ! 1 = CHR ''-'' then 2 else 1) s in
           if name = [] \<or> hd name = CHR ''-'' \<or> hd name = CHR ''='' then Malformed else cut_value name)"

text \<open>\<open>strconv.ParseBool\<close>.\<close>

definition ParseBool :: "string \<Rightarrow> bool option" where
  "ParseBool s =
     (if s \<in> set [''1'', ''t'', ''T'', ''true'', ''TRUE'', ''True''] then Some True
      else if s \<in> set [''0'', ''f'', ''F'', ''false'', ''FALSE'', ''False''] then Some False
      else None)"

subsection \<open>The declared flags\<close>

definition string_flags :: "(string \<times> (string \<Rightarrow> Flags \<Rightarrow> Flags)) list" where
  "string_flags =
     [(''metrics-bind-address'', \<lambda>v fl. fl\<lparr>fl_metricsAddr := v\<rparr>),
      (''health-probe-bind-address'', \<lambda>v fl. fl\<lparr>fl_probeAddr := v\<rparr>),
      (''webhook-cert-path'', \<lambda>v fl. fl\<lparr>fl_webhookCertPath := v\<rparr>),
      (''webhook-cert-name'', \<lambda>v fl. fl\<lparr>fl_webhookCertName := v\<rparr>),
      (''webhook-cert-key'', \<lambda>v fl. fl\<lparr>fl_webhookCertKey := v\<rparr>),
      (''metrics-cert-path'', \<lambda>v fl. fl\<lparr>fl_metricsCertPath := v\<rparr>),
      (''metrics-cert-name'', \<lambda>v fl. fl\<lparr>fl_metricsCertName := v\<rparr>),
      (''metrics-cert-key'', \<lambda>v fl. fl\<lparr>fl_metricsCertKey := v\<rparr>)]"

definition bool_flags :: "(string \<times> (bool \<Rightarrow> Flags \<Rightarrow> Flags)) list" where
  "bool_flags =
     [(''leader-elect'', \<lambda>b fl. fl\<lparr>fl_enableLeaderElection := b\<rparr>),
      (''metrics-secure'', \<lambda>b fl. fl\<lparr>fl_secureMetrics := b\<rparr>),
      (''enable-http2'', \<lambda>b fl. fl\<lparr>fl_enableHTTP2 := b\<rparr>)]"

type_synonym logger_flags = "string \<Rightarrow> (bool \<times> (string \<Rightarrow> bool)) option"

text \<open>
  What to do with a flag: how a value acts on the flags, \<open>None\<close> for a value it refuses, and
  whether it is boolean, so that it stands for \<open>true\<close> alone and never takes the next argument.
\<close>

definition flag_action :: "logger_flags \<Rightarrow> string \<Rightarrow> (bool \<times> (string \<Rightarrow> Flags \<Rightarrow> Flags option)) option" where
  "flag_action Z name =
     (case map_of bool_flags name of
        Some upd \<Rightarrow> Some (True, \<lambda>v fl. map_option (\<lambda>b. upd b fl) (ParseBool v))
      | None \<Rightarrow>
     (case map_of string_flags name of
        Some upd \<Rightarrow> Some (False, \<lambda>v fl. Some (upd v fl))
      | None \<Rightarrow>
     (case Z name of
        Some (boolean, accepts) \<Rightarrow> Some (boolean, \<lambda>v fl. if accepts v then Some fl else None)
      | None \<Rightarrow> None)))"

text \<open>\<open>flag.Parse\<close>: the exit status of a failure, or the flags.\<close>

function parse_flags :: "logger_flags \<Rightarrow> string list \<Rightarrow> Flags \<Rightarrow> nat + Flags" where
  "parse_flags Z [] fl = Inr fl"
| "parse_flags Z (s # args) fl =
     (case token_of s of
        NotAFlag \<Rightarrow> Inr fl
      | Terminator \<Rightarrow> Inr fl
      | Malformed \<Rightarrow> Inl 2
      | FlagToken name value \<Rightarrow>
          (case flag_action Z name of
             None \<Rightarrow> Inl (if name = ''help'' \<or> name = ''h'' then 0 else 2)
           | Some (boolean, act) \<Rightarrow>
               (case value of
                  Some v \<Rightarrow> (case act v fl of None \<Rightarrow> Inl 2 | Some fl' \<Rightarrow> parse_flags Z args fl')
                | None \<Rightarrow>
                    (if boolean then
                       (case act ''true'' fl of None \<Rightarrow> Inl 2 | Some fl' \<Rightarrow> parse_flags Z args fl')
                     else
                       (case args of
                          [] \<Rightarrow> Inl 2
                        | v # rest \<Rightarrow>
                            (case act v fl of None \<Rightarrow> Inl 2 | Some fl' \<Rightarrow> parse_flags Z rest fl'))))))"
  by pat_completeness auto
termination by (relation "measure (\<lambda>(Z, args, fl). length args)") auto

text \<open>The process: its arguments are read, then \<open>main\<close> goes on with the flags.\<close>

definition main_process :: "logger_flags \<Rightarrow> (startup \<Rightarrow> bool) \<Rightarrow> string list \<Rightarrow> nat \<times> startup list" where
  "main_process Z fails args =
     (case parse_flags Z args default_flags of
        Inl status \<Rightarrow> (status, [])
      | Inr fl \<Rightarrow> main fails fl)"

subsection \<open>Printing flags\<close>

definition print_bool :: "bool \<Rightarrow> string" where
  "print_bool b = (if b then ''true'' else ''false'')"

definition print_flag :: "string \<times> string \<Rightarrow> string" where
  "print_flag p = ''--'' @ fst p @ ''='' @ snd p"

definition print_flags :: "Flags \<Rightarrow> string list" where
  "print_flags fl = map print_flag
     [(''metrics-bind-address'', fl_metricsAddr fl), (''health-probe-bind-address'', fl_probeAddr fl),
      (''leader-elect'', print_bool (fl_enableLeaderElection fl)), (''metrics-secure'', print_bool (fl_secureMetrics fl)),
      (''webhook-cert-path'', fl_webhookCertPath fl), (''webhook-cert-name'', fl_webhookCertName fl),
      (''webhook-cert-key'', fl_webhookCertKey fl), (''metrics-cert-path'', fl_metricsCertPath fl),
      (''metrics-cert-name'', fl_metricsCertName fl), (''metrics-cert-key'', fl_metricsCertKey fl),
      (''enable-http2'', print_bool (fl_enableHTTP2 fl))]"

lemma cut_name:
  assumes "c \<notin> set name"
  shows "takeWhile (\<lambda>x. x \<noteq> c) (name @ c # v) = name" and "dropWhile (\<lambda>x. x \<noteq> c) (name @ c # v) = c # v"
  using assms by (induction name) auto

lemma token_print:
  assumes "name \<noteq> []" and "CHR ''='' \<notin> set name" and "hd name \<noteq> CHR ''-''"
  shows "token_of (print_flag (name, v)) = FlagToken name (Some v)"
  using assms cut_name [OF assms(2), of v]
  by (cases name) (auto simp: token_of_def print_flag_def cut_value_def)

lemma ParseBool_print [simp]: "ParseBool (print_bool b) = Some b"
  by (simp add: ParseBool_def print_bool_def)

lemma parse_print_flag:
  assumes "name \<noteq> []" and "CHR ''='' \<notin> set name" and "hd name \<noteq> CHR ''-''"
  shows "parse_flags Z (print_flag (name, v) # args) g =
    (case flag_action Z name of
       None \<Rightarrow> Inl (if name = ''help'' \<or> name = ''h'' then 0 else 2)
     | Some (boolean, act) \<Rightarrow> (case act v g of None \<Rightarrow> Inl 2 | Some g' \<Rightarrow> parse_flags Z args g'))"
  unfolding parse_flags.simps(2) token_print [OF assms] token.case option.case ..

text \<open>C34: Flags survive the command line. Written out as \<open>--name=value\<close>, any flags are read back as they
  are, whatever the values hold (dashes, equals signs, nothing at all), from whatever flags
  parsing starts with, and nothing the logger declares interferes.\<close>

theorem parse_print_flags: "parse_flags Z (print_flags fl) fl0 = Inr fl"
  by (cases fl)
    (simp add: print_flags_def parse_print_flag flag_action_def bool_flags_def string_flags_def
      del: parse_flags.simps(2))

subsection \<open>What an argument can change\<close>

text \<open>
  An argument either ends the parsing or is a flag whose value, its own, \<open>true\<close> or the next
  argument, is accepted; parsing then goes on behind it.
\<close>

lemma parse_flags_cases:
  obtains (stop) "parse_flags Z (s # args) fl \<in> {Inr fl, Inl 0, Inl 2}"
  | (flag) name given v boolean act fl' rest where
      "token_of s = FlagToken name given" and "flag_action Z name = Some (boolean, act)"
      and "act v fl = Some fl'" and "given = Some v \<or> given = None \<and> (boolean \<longrightarrow> v = ''true'')"
      and "parse_flags Z (s # args) fl = parse_flags Z rest fl'"
      and "set rest \<subseteq> set args" and "length rest \<le> length args"
proof (cases "token_of s")
  case (FlagToken name given)
  show thesis
  proof (cases "flag_action Z name")
    case None
    with FlagToken stop show thesis by simp
  next
    case (Some p)
    obtain boolean act where p: "p = (boolean, act)" by fastforce
    have go: thesis
      if "parse_flags Z (s # args) fl = (case act v fl of None \<Rightarrow> Inl 2 | Some fl' \<Rightarrow> parse_flags Z rest fl')"
        and "given = Some v \<or> given = None \<and> (boolean \<longrightarrow> v = ''true'')"
        and "set rest \<subseteq> set args" and "length rest \<le> length args" for v rest
      using that flag [OF FlagToken Some [unfolded p] _ that(2) _ that(3,4)] stop
      by (cases "act v fl") simp_all
    show thesis
    proof (cases given)
      case None
      show thesis
      proof (cases boolean)
        case True
        then show thesis using FlagToken Some p None by (intro go [where v = "''true''" and rest = args]) simp_all
      next
        case False
        show thesis
        proof (cases args)
          case Nil
          then show thesis using FlagToken Some p None False stop by simp
        next
          case (Cons v rest)
          then show thesis using FlagToken Some p None False by (intro go [where v = v and rest = rest]) auto
        qed
      qed
    next
      case (Some v)
      then show thesis using FlagToken \<open>flag_action Z name = Some p\<close> p by (intro go [where v = v and rest = args]) simp_all
    qed
  qed
qed (use stop in simp_all)

text \<open>Any exit before the start is the parser's: status 2 for an error, 0 for help.\<close>

lemma parse_failure: "parse_flags Z args fl = Inl status \<Longrightarrow> status \<in> {0, 2}"
proof (induction args arbitrary: fl rule: length_induct)
  case (1 args)
  show ?case
  proof (cases args)
    case Nil
    with 1 show ?thesis by simp
  next
    case (Cons s rest)
    show ?thesis
    proof (cases rule: parse_flags_cases [of Z s rest fl])
      case stop
      with 1 Cons show ?thesis by auto
    next
      case (flag name given v boolean act fl' rest')
      then have "length rest' < length args" "parse_flags Z rest' fl' = Inl status" using 1(2) Cons by auto
      with 1(1) show ?thesis by blast
    qed
  qed
qed

text \<open>A boolean flag that no argument names with a value keeps its own.\<close>

lemma kept_bool:
  assumes keep: "\<And>name boolean act v fl fl'. flag_action Z name = Some (boolean, act) \<Longrightarrow> act v fl = Some fl' \<Longrightarrow>
      fld fl' \<noteq> fld fl \<Longrightarrow> name = n \<and> boolean \<and> ParseBool v = Some (fld fl')"
    and "parse_flags Z args fl0 = Inr fl" and "fld fl \<noteq> fld fl0"
  shows "\<exists>s\<in>set args. \<exists>given. token_of s = FlagToken n given \<and>
           (case given of None \<Rightarrow> fld fl | Some v \<Rightarrow> ParseBool v = Some (fld fl))"
  using assms(2,3)
proof (induction args arbitrary: fl0 rule: length_induct)
  case (1 args)
  show ?case
  proof (cases args)
    case Nil
    with 1 show ?thesis by simp
  next
    case (Cons s rest0)
    show ?thesis
    proof (cases rule: parse_flags_cases [of Z s rest0 fl0])
      case stop
      with 1 Cons show ?thesis by auto
    next
      case (flag name given v boolean act fl' rest)
      show ?thesis
      proof (cases "fld fl \<noteq> fld fl'")
        case True
        with 1 Cons flag have "\<exists>s\<in>set rest. \<exists>given. token_of s = FlagToken n given \<and>
           (case given of None \<Rightarrow> fld fl | Some v \<Rightarrow> ParseBool v = Some (fld fl))" by auto
        with Cons flag show ?thesis by auto
      next
        case False
        with 1 have "fld fl' \<noteq> fld fl0" by simp
        from keep [OF flag(2,3) this] False flag(1,4) have
          "token_of s = FlagToken n given \<and> (case given of None \<Rightarrow> fld fl | Some v \<Rightarrow> ParseBool v = Some (fld fl))"
          by (auto simp: ParseBool_def)
        with Cons show ?thesis by auto
      qed
    qed
  qed
qed

lemma flag_action_bool:
  assumes "flag_action Z name = Some (boolean, act)" and "act v fl = Some fl'"
  shows "fl_enableHTTP2 fl' \<noteq> fl_enableHTTP2 fl \<Longrightarrow>
           name = ''enable-http2'' \<and> boolean \<and> ParseBool v = Some (fl_enableHTTP2 fl')"
    and "fl_secureMetrics fl' \<noteq> fl_secureMetrics fl \<Longrightarrow>
           name = ''metrics-secure'' \<and> boolean \<and> ParseBool v = Some (fl_secureMetrics fl')"
  using assms by (auto simp: flag_action_def bool_flags_def string_flags_def split: option.splits if_splits)

text \<open>C33: Insecure settings are only ever asked for. If the process that reads its arguments offers more than
  HTTP/1.1 on one of its servers, an argument names \<open>enable-http2\<close>, with no value or a true one;
  if the metrics endpoint lacks its authorisation filter or TLS, an argument says
  \<open>metrics-secure\<close> with a false value. No other flag, no order of arguments and no flag of the
  logger leads there.\<close>

theorem insecure_only_if_asked:
  assumes "main_process Z fails args = (status, NewManager mo # log)"
  shows "(fold (\<lambda>f. f) (mo_TLSOpts (mg_Metrics mo)) c \<noteq> c\<lparr>tls_NextProtos := [''http/1.1'']\<rparr> \<or>
          fold (\<lambda>f. f) (wo_TLSOpts (mg_WebhookServer mo)) c \<noteq> c\<lparr>tls_NextProtos := [''http/1.1'']\<rparr> \<longrightarrow>
            (\<exists>s\<in>set args. \<exists>given. token_of s = FlagToken ''enable-http2'' given \<and>
              (case given of None \<Rightarrow> True | Some v \<Rightarrow> ParseBool v = Some True))) \<and>
         (mo_FilterProvider (mg_Metrics mo) = None \<or> \<not> mo_SecureServing (mg_Metrics mo) \<longrightarrow>
            (\<exists>s\<in>set args. \<exists>v. token_of s = FlagToken ''metrics-secure'' (Some v) \<and> ParseBool v = Some False))"
proof -
  obtain fl where parsed: "parse_flags Z args default_flags = Inr fl" and mo: "mo = managerOptions fl"
    using assms by (auto simp: main_process_def main_def main_steps_def split: sum.splits if_splits prod.splits)
  have default: "\<not> fl_enableHTTP2 default_flags" "fl_secureMetrics default_flags" by (simp_all add: default_flags_def)
  have "\<exists>s\<in>set args. \<exists>given. token_of s = FlagToken ''enable-http2'' given \<and>
      (case given of None \<Rightarrow> fl_enableHTTP2 fl | Some v \<Rightarrow> ParseBool v = Some (fl_enableHTTP2 fl))"
    if "fl_enableHTTP2 fl"
    by (rule kept_bool [OF _ parsed], rule flag_action_bool(1); (assumption | simp add: that default))
  then have "fl_enableHTTP2 fl \<longrightarrow> (\<exists>s\<in>set args. \<exists>given. token_of s = FlagToken ''enable-http2'' given \<and>
      (case given of None \<Rightarrow> True | Some v \<Rightarrow> ParseBool v = Some True))"
    by (auto cong: option.case_cong)
  moreover have "\<exists>s\<in>set args. \<exists>given. token_of s = FlagToken ''metrics-secure'' given \<and>
      (case given of None \<Rightarrow> fl_secureMetrics fl | Some v \<Rightarrow> ParseBool v = Some (fl_secureMetrics fl))"
    if "\<not> fl_secureMetrics fl"
    by (rule kept_bool [OF _ parsed], rule flag_action_bool(2); (assumption | simp add: that default))
  then have "\<not> fl_secureMetrics fl \<longrightarrow>
      (\<exists>s\<in>set args. \<exists>v. token_of s = FlagToken ''metrics-secure'' (Some v) \<and> ParseBool v = Some False)"
    by (fastforce split: option.splits)
  moreover have "fl_enableHTTP2 fl \<or> fold (\<lambda>f. f) (tlsOpts fl) c = c\<lparr>tls_NextProtos := [''http/1.1'']\<rparr>"
    by (simp add: tlsOpts_def disableHTTP2_def)
  moreover have "mo_TLSOpts (mg_Metrics mo) = tlsOpts fl" "wo_TLSOpts (mg_WebhookServer mo) = tlsOpts fl"
    "mo_FilterProvider (mg_Metrics mo) = None \<longleftrightarrow> \<not> fl_secureMetrics fl"
    "mo_SecureServing (mg_Metrics mo) = fl_secureMetrics fl"
    by (simp_all add: mo managerOptions_def metricsServerOptions_def webhookServerOptions_def Let_def)
  ultimately show ?thesis by metis
qed

theorem insecure_only_if_asked_witness:
  "\<exists>status mo log. main_process (\<lambda>_. None) (\<lambda>_. False) [''--metrics-bind-address'', '':8080'', ''-metrics-secure=0'', ''x''] =
       (status, NewManager mo # log) \<and>
     \<not> mo_SecureServing (mg_Metrics mo) \<and> mo_BindAddress (mg_Metrics mo) = '':8080'' \<and>
     (\<exists>s\<in>set [''--metrics-bind-address'', '':8080'', ''-metrics-secure=0'', ''x'']. \<exists>v.
        token_of s = FlagToken ''metrics-secure'' (Some v) \<and> ParseBool v = Some False)"
proof -
  let ?args = "[''--metrics-bind-address'', '':8080'', ''-metrics-secure=0'', ''x'']"
  let ?fl = "default_flags\<lparr>fl_metricsAddr := '':8080'', fl_secureMetrics := False\<rparr>"
  have "parse_flags (\<lambda>_. None) ?args default_flags = Inr ?fl"
    by (simp add: token_of_def cut_value_def flag_action_def bool_flags_def string_flags_def ParseBool_def)
  then obtain status log where run: "main_process (\<lambda>_. None) (\<lambda>_. False) ?args = (status, NewManager (managerOptions ?fl) # log)"
    by (simp add: main_process_def main_def main_steps_def)
  have "\<not> mo_SecureServing (mg_Metrics (managerOptions ?fl)) \<and> mo_BindAddress (mg_Metrics (managerOptions ?fl)) = '':8080''"
    by (simp add: managerOptions_def metricsServerOptions_def Let_def)
  with run insecure_only_if_asked [OF run] show ?thesis by blast
qed

end
