(* ===== verification/Verdict.thy ===== *)
theory Verdict
  imports GuardProps
begin

text \<open>
  An abstract specification of the \<open>InferenceService\<close> reconciler and the refinement. The
  specification is a table: what must hold before a workload may run, in order of precedence,
  each line with the reason and message under which its failure is reported. It is a pure
  function of a snapshot of the cluster; it knows nothing of calls, their order or their errors.
  Against a server that answers every read from the snapshot, the reconciler writes exactly
  what the table says, and its own writes leave the verdict as it is.
\<close>

record snapshot =
  sn_Service :: InferenceService
  sn_Tenant :: "BrukTenant option"
  sn_Model :: "BrukModel option"
  sn_Siblings :: "InferenceService list"
  sn_Deployments :: "Deployment list"
  sn_Pods :: "Pod list"

text \<open>The first line of a table that applies.\<close>

primrec first_failure :: "(string \<times> string option) list \<Rightarrow> (string \<times> string) option" where
  "first_failure [] = None"
| "first_failure (x # xs) =
     (case snd x of Some message \<Rightarrow> Some (fst x, message) | None \<Rightarrow> first_failure xs)"

definition unless :: "bool \<Rightarrow> string \<Rightarrow> string option" where
  "unless b message = (if b then None else Some message)"

text \<open>The lines that need the tenant and the model.\<close>

definition workload_checks ::
    "'w kube \<Rightarrow> snapshot \<Rightarrow> BrukModel \<Rightarrow> (string \<times> string option) list" where
  "workload_checks K sn model =
     (let isvc = sn_Service sn;
          wanted = sint (es_MaxModelLen (iss_Engine (is_Spec isvc)));
          native = sint (cat_ContextLength (bms_Catalog (bm_Spec model)))
      in [(ReasonNotImplemented, unless (isvc_LocalVolume isvc = None)
             ''storage.trustedStore.localVolume is reserved; use existingClaim in v1alpha1''),
          (ReasonInvalidConfig, unless (model_HuggingFace model \<noteq> None)
             (''BrukModel '' @ fmt_q (om_Name (bm_Meta model)) @ '' has no huggingFace source'')),
          (ReasonInvalidConfig, unless (wanted \<le> native)
             (''engine.maxModelLen '' @ fmt_d wanted @ '' exceeds the model's native contextLength ''
              @ fmt_d native)),
          (ReasonTrustedStoreConflict, siblingConflict K isvc (sn_Siblings sn)),
          (ReasonTrustedStoreConflict, deploymentConflict K isvc (sn_Deployments sn)),
          (ReasonTrustedStoreConflict, podConflict isvc (sn_Pods sn))])"

definition failure_of :: "'w kube \<Rightarrow> snapshot \<Rightarrow> (string \<times> string) option" where
  "failure_of K sn =
     (case sn_Tenant sn of
        None \<Rightarrow> Some (ReasonTenantConfigMissing, tenantMissingMessage)
      | Some tenant \<Rightarrow>
          (case sn_Model sn of
             None \<Rightarrow> Some (ReasonModelNotFound, modelNotFoundMessage (sn_Service sn))
           | Some model \<Rightarrow> first_failure (workload_checks K sn model)))"

text \<open>
  What must be written: the failure status alone; or the ConfigMap, if any, and then a failure
  status where the renderer refuses, or the two children and the success status.
\<close>

definition writes_of ::
    "'w kube \<Rightarrow> (Deployment \<Rightarrow> Deployment) \<Rightarrow> snapshot \<Rightarrow> call list \<Rightarrow> bool" where
  "writes_of K answer sn ws \<longleftrightarrow>
     (let isvc = sn_Service sn in
      case failure_of K sn of
        Some (reason, message) \<Rightarrow> ws = [UpdateInferenceServiceStatus (failedService K reason message isvc)]
      | None \<Rightarrow>
          (\<exists>tenant model. sn_Tenant sn = Some tenant \<and> sn_Model sn = Some model \<and>
             (case renderDeployment isvc model (tenantConfig tenant) of
                Some (Inr rendered) \<Rightarrow>
                  (\<exists>d sv. ownedDeployment K isvc rendered = Inr d \<and> ownedService K isvc = Inr sv \<and>
                     ws = gai_calls isvc @ [ApplyDeployment d, ApplyService sv,
                       UpdateInferenceServiceStatus
                         (readyService K isvc model (answer d) (tenantConfig tenant))])
              | Some (Inl err) \<Rightarrow>
                  ws = gai_calls isvc @ [UpdateInferenceServiceStatus
                         (failedService K ReasonInvalidConfig (error_text err) isvc)]
              | None \<Rightarrow> False)))"

text \<open>
  A server that answers every read from the snapshot, whatever the world, and accepts every
  write; \<open>answer\<close> is the Deployment it returns for one that is applied.
\<close>

locale snapshot_server =
  fixes K :: "'w kube" and sn :: snapshot and answer :: "Deployment \<Rightarrow> Deployment"
  assumes read_service: "fst (k_getInferenceService K (meta_key (is_Meta (sn_Service sn))) w) = Inr (sn_Service sn)"
    and read_tenant: "case sn_Tenant sn of
        Some t \<Rightarrow> fst (k_getBrukTenant K tenantKey w) = Inr t
      | None \<Rightarrow> (\<exists>e. fst (k_getBrukTenant K tenantKey w) = Inl e \<and> k_isNotFound K e)"
    and read_model: "case sn_Model sn of
        Some m \<Rightarrow> fst (k_getBrukModel K (modelKey (sn_Service sn)) w) = Inr m
      | None \<Rightarrow> (\<exists>e. fst (k_getBrukModel K (modelKey (sn_Service sn)) w) = Inl e \<and> k_isNotFound K e)"
    and read_siblings: "fst (k_listInferenceServices K (Some (isvc_Namespace (sn_Service sn))) w) = Inr (sn_Siblings sn)"
    and read_deployments: "fst (k_listDeployments K (Some (isvc_Namespace (sn_Service sn))) w) = Inr (sn_Deployments sn)"
    and read_pods: "fst (k_listPods K (Some (isvc_Namespace (sn_Service sn))) w) = Inr (sn_Pods sn)"
    and accept_ConfigMap: "\<exists>r. fst (k_applyConfigMap K cm w) = Inr r"
    and accept_Deployment: "fst (k_applyDeployment K d w) = Inr (answer d)"
    and accept_Service: "\<exists>r. fst (k_applyService K sv w) = Inr r"
    and accept_status: "fst (k_updateInferenceServiceStatus K i w) = None"
    and references: "controller_references (k_isControlledBy K) (k_setControllerReference K)"
begin

text \<open>The effects of a stage: its result and what it wrote.\<close>

definition effect :: "('w sys, 'a) state \<Rightarrow> 'a \<Rightarrow> call list \<Rightarrow> bool" where
  "effect m r ws \<longleftrightarrow> (\<forall>s. \<exists>w cs. run_state m s = (r, s\<lparr>world := w, calls := calls s @ cs\<rparr>) \<and> writes cs = ws)"

lemma effect_return: "effect (State_Monad.return r) r []"
  unfolding effect_def
proof
  fix s :: "'w sys"
  show "\<exists>w cs. run_state (State_Monad.return r) s = (r, s\<lparr>world := w, calls := calls s @ cs\<rparr>) \<and> writes cs = []"
    by (intro exI [of _ "world s"] exI [of _ "[]"]) simp
qed

lemma effect_bind:
  assumes "effect m r ws" and "effect (f r) q ws'"
  shows "effect (State_Monad.bind m f) q (ws @ ws')"
  unfolding effect_def
proof
  fix s :: "'w sys"
  from assms(1) obtain w cs where m: "run_state m s = (r, s\<lparr>world := w, calls := calls s @ cs\<rparr>)"
    and ws: "writes cs = ws" unfolding effect_def by blast
  from assms(2) [unfolded effect_def, rule_format, of "s\<lparr>world := w, calls := calls s @ cs\<rparr>"]
  obtain w' cs' where "run_state (f r) (s\<lparr>world := w, calls := calls s @ cs\<rparr>) =
      (q, s\<lparr>world := w', calls := calls s @ cs @ cs'\<rparr>)" and "writes cs' = ws'"
    by auto
  with m ws show "\<exists>w cs. run_state (State_Monad.bind m f) s = (q, s\<lparr>world := w, calls := calls s @ cs\<rparr>)
      \<and> writes cs = ws @ ws'"
    by (intro exI [of _ w'] exI [of _ "cs @ cs'"]) simp
qed

lemma effect_invoke:
  assumes "\<And>w. fst (f w) = r"
  shows "effect (invoke c f) r (writes [c])"
  unfolding effect_def
proof
  fix s :: "'w sys"
  from assms [of "world s"] show "\<exists>w cs. run_state (invoke c f) s = (r, s\<lparr>world := w, calls := calls s @ cs\<rparr>)
      \<and> writes cs = writes [c]"
    by (cases "f (world s)") (auto simp: go_simps intro!: exI [of _ "[c]"])
qed

lemma effect_invoke_map:
  assumes "\<And>w. g (fst (f w)) = r"
  shows "effect (State_Monad.bind (invoke c f) (\<lambda>x. State_Monad.return (g x))) r (writes [c])"
  unfolding effect_def
proof
  fix s :: "'w sys"
  from assms [of "world s"] show "\<exists>w cs. run_state (State_Monad.bind (invoke c f) (\<lambda>x. State_Monad.return (g x))) s
      = (r, s\<lparr>world := w, calls := calls s @ cs\<rparr>) \<and> writes cs = writes [c]"
    by (cases "f (world s)") (auto simp: go_simps intro!: exI [of _ "[c]"])
qed

lemma effect_failConfigured:
  "effect (failConfigured K isvc reason message) (Returned None)
     [UpdateInferenceServiceStatus (failedService K reason message isvc)]"
proof -
  have "effect (failConfigured K isvc reason message) (Returned None)
      (writes [UpdateInferenceServiceStatus (failedService K reason message isvc)])"
    unfolding failConfigured_def updateInferenceServiceStatus_def
    by (rule effect_invoke_map) (simp add: accept_status)
  then show ?thesis by simp
qed

lemma effect_updateReadyStatus:
  "effect (updateReadyStatus K isvc model d cfg) (Returned None)
     [UpdateInferenceServiceStatus (readyService K isvc model d cfg)]"
proof -
  have "effect (updateReadyStatus K isvc model d cfg) (Returned None)
      (writes [UpdateInferenceServiceStatus (readyService K isvc model d cfg)])"
    unfolding updateReadyStatus_def updateInferenceServiceStatus_def
    by (rule effect_invoke_map) (simp add: accept_status)
  then show ?thesis by simp
qed

lemma effect_applyGaiConfigMap: "effect (applyGaiConfigMap K isvc) None (gai_calls isvc)"
proof (cases "isvc_WeightsCache isvc")
  case None
  then show ?thesis by (simp add: applyGaiConfigMap_def gai_calls_def effect_return)
next
  case (Some wc)
  have "effect (applyGaiConfigMap K isvc) None (writes [ApplyConfigMap (gaiObject isvc)])"
    unfolding applyGaiConfigMap_def applyConfigMap_def using Some accept_ConfigMap
    by (simp del: writes_simps, intro effect_invoke_map) (metis sum.simps(6))
  with Some show ?thesis by (simp add: gai_calls_def)
qed

lemma effect_applyOwnedService:
  assumes "ownedService K isvc = Inr sv"
  shows "effect (applyOwnedService K isvc) None [ApplyService sv]"
proof -
  have "effect (applyOwnedService K isvc) None (writes [ApplyService sv])"
    unfolding applyOwnedService_def applyService_def assms using accept_Service
    by (simp del: writes_simps, intro effect_invoke_map) (metis sum.simps(6))
  then show ?thesis by simp
qed

lemma effect_applyOwnedDeployment:
  assumes "ownedDeployment K isvc rendered = Inr d"
  shows "effect (applyOwnedDeployment K isvc rendered) (Inr (answer d)) [ApplyDeployment d]"
proof -
  have "effect (applyOwnedDeployment K isvc rendered) (Inr (answer d)) (writes [ApplyDeployment d])"
    unfolding applyOwnedDeployment_def applyDeployment_def assms
    by (simp del: writes_simps, intro effect_invoke_map) (simp add: accept_Deployment)
  then show ?thesis by simp
qed

lemma effect_reads:
  "effect (listInferenceServices K (Some (isvc_Namespace (sn_Service sn)))) (Inr (sn_Siblings sn)) []"
  "effect (listDeployments K (Some (isvc_Namespace (sn_Service sn)))) (Inr (sn_Deployments sn)) []"
  "effect (listPods K (Some (isvc_Namespace (sn_Service sn)))) (Inr (sn_Pods sn)) []"
  "effect (getInferenceService K (meta_key (is_Meta (sn_Service sn)))) (Inr (sn_Service sn)) []"
  using effect_invoke [OF read_siblings, of "ListInferenceServices (Some (isvc_Namespace (sn_Service sn)))"]
    effect_invoke [OF read_deployments, of "ListDeployments (Some (isvc_Namespace (sn_Service sn)))"]
    effect_invoke [OF read_pods, of "ListPods (Some (isvc_Namespace (sn_Service sn)))"]
    effect_invoke [OF read_service, of "GetInferenceService (meta_key (is_Meta (sn_Service sn)))"]
  by (simp_all add: client_call_defs)

lemma effect_step: "effect m r [] \<Longrightarrow> effect (f r) q ws \<Longrightarrow> effect (State_Monad.bind m f) q ws"
  using effect_bind [of m r "[]" f q ws] by simp

definition conflict_message :: string where
  "conflict_message =
     (case siblingConflict K (sn_Service sn) (sn_Siblings sn) of
        Some msg \<Rightarrow> msg
      | None \<Rightarrow>
          (case deploymentConflict K (sn_Service sn) (sn_Deployments sn) of
             Some msg \<Rightarrow> msg
           | None \<Rightarrow> (case podConflict (sn_Service sn) (sn_Pods sn) of Some msg \<Rightarrow> msg | None \<Rightarrow> [])))"

lemma effect_trustedStoreConflict:
  "effect (trustedStoreConflict K (sn_Service sn)) (Inr conflict_message) []"
proof -
  let ?i = "sn_Service sn"
  have pods: "effect (podGuard K ?i)
      (Inr (case podConflict ?i (sn_Pods sn) of Some msg \<Rightarrow> msg | None \<Rightarrow> [])) []"
    unfolding podGuard_def by (rule effect_step [OF effect_reads(3)]) (simp add: effect_return)
  have deps: "effect (deploymentGuard K ?i)
      (Inr (case deploymentConflict K ?i (sn_Deployments sn) of Some msg \<Rightarrow> msg
        | None \<Rightarrow> (case podConflict ?i (sn_Pods sn) of Some msg \<Rightarrow> msg | None \<Rightarrow> []))) []"
    unfolding deploymentGuard_def
    by (rule effect_step [OF effect_reads(2)]) (simp add: effect_return pods split: option.split)
  show ?thesis
    unfolding trustedStoreConflict_def conflict_message_def
    by (rule effect_step [OF effect_reads(1)]) (simp add: effect_return deps split: option.split)
qed

lemma owned_children:
  assumes "renderDeployment isvc model cfg = Some (Inr rendered)"
  obtains d sv where "ownedDeployment K isvc rendered = Inr d" "ownedService K isvc = Inr sv"
proof -
  obtain co vols where co: "rendered = deploymentOf isvc cfg co vols"
    using assms by (rule rendered_deploymentOf)
  obtain m where "k_setControllerReference K (is_Meta isvc) (d_Meta rendered) = Inr m"
    using controller_references.set_fresh [OF references, of "d_Meta rendered" "is_Meta isvc"]
    by (auto simp: co render_simps)
  moreover obtain ms where "k_setControllerReference K (is_Meta isvc) (svc_Meta (renderService isvc)) = Inr ms"
    using controller_references.set_fresh [OF references, of "svc_Meta (renderService isvc)" "is_Meta isvc"]
    by (auto simp: render_simps)
  ultimately show thesis using that by (simp add: ownedDeployment_def ownedService_def Let_def)
qed

lemma effect_reconcileApply:
  assumes "sn_Tenant sn = Some tenant" and "sn_Model sn = Some model" and "failure_of K sn = None"
  obtains ws where "effect (reconcileApply K (sn_Service sn) model (tenantConfig tenant)) (Returned None) ws"
    "writes_of K answer sn ws"
proof -
  let ?i = "sn_Service sn" and ?cfg = "tenantConfig tenant"
  obtain r where r: "renderDeployment ?i model ?cfg = Some r"
    using renderDeployment_not_None [of ?i model ?cfg] by blast
  show thesis
  proof (cases r)
    case (Inl err)
    have "effect (reconcileApply K ?i model ?cfg) (Returned None) (gai_calls ?i
        @ [UpdateInferenceServiceStatus (failedService K ReasonInvalidConfig (error_text err) ?i)])"
      unfolding reconcileApply_def
      by (rule effect_bind [OF effect_applyGaiConfigMap]) (simp add: r Inl effect_failConfigured)
    with that assms r Inl show thesis by (simp add: writes_of_def Let_def)
  next
    case (Inr rendered)
    from r Inr obtain d sv where own: "ownedDeployment K ?i rendered = Inr d" "ownedService K ?i = Inr sv"
      by (auto intro: owned_children)
    have tail: "effect (applyServiceAndStatus K ?i model ?cfg (answer d)) (Returned None)
        ([ApplyService sv] @ [UpdateInferenceServiceStatus (readyService K ?i model (answer d) ?cfg)])"
      unfolding applyServiceAndStatus_def
      by (rule effect_bind [OF effect_applyOwnedService [OF own(2)]]) (simp add: effect_updateReadyStatus)
    have "effect (reconcileApply K ?i model ?cfg) (Returned None) (gai_calls ?i @ [ApplyDeployment d]
        @ [ApplyService sv] @ [UpdateInferenceServiceStatus (readyService K ?i model (answer d) ?cfg)])"
      unfolding reconcileApply_def
      by (rule effect_bind [OF effect_applyGaiConfigMap])
        (simp add: r Inr del: append.simps, rule effect_bind [OF effect_applyOwnedDeployment [OF own(1)]],
          simp add: tail del: append.simps)
    with that assms r Inr own show thesis by (simp add: writes_of_def Let_def)
  qed
qed

lemma failure_of_checked:
  assumes "sn_Tenant sn = Some tenant" and "sn_Model sn = Some model"
  shows "failure_of K sn =
    (case specProblem (sn_Service sn) model of
       Some p \<Rightarrow> Some p
     | None \<Rightarrow> if conflict_message = [] then None else Some (ReasonTrustedStoreConflict, conflict_message))"
  using assms siblingConflict_nonempty [of K "sn_Service sn" "sn_Siblings sn"]
    deploymentConflict_nonempty [of K "sn_Service sn" "sn_Deployments sn"]
    podConflict_nonempty [of "sn_Service sn" "sn_Pods sn"]
  by (auto simp: failure_of_def workload_checks_def specProblem_def unless_def conflict_message_def Let_def
      split: option.split)

lemma effect_reconcileChecked:
  assumes "sn_Tenant sn = Some tenant" and "sn_Model sn = Some model"
  obtains ws where "effect (reconcileChecked K (sn_Service sn) tenant model) (Returned None) ws"
    "writes_of K answer sn ws"
proof (cases "specProblem (sn_Service sn) model")
  case (Some p)
  obtain reason message where p: "p = (reason, message)" by fastforce
  have "effect (reconcileChecked K (sn_Service sn) tenant model) (Returned None)
      [UpdateInferenceServiceStatus (failedService K reason message (sn_Service sn))]"
    by (simp add: reconcileChecked_def Some p effect_failConfigured)
  with that failure_of_checked [OF assms] Some p show thesis by (simp add: writes_of_def Let_def)
next
  case None
  note run = effect_step [OF effect_trustedStoreConflict]
  show thesis
  proof (cases "conflict_message = []")
    case True
    with failure_of_checked [OF assms] None have "failure_of K sn = None" by simp
    with assms obtain ws where "effect (reconcileApply K (sn_Service sn) model (tenantConfig tenant)) (Returned None) ws"
      "writes_of K answer sn ws" by (rule effect_reconcileApply)
    moreover from this True have "effect (reconcileChecked K (sn_Service sn) tenant model) (Returned None) ws"
      by (simp add: reconcileChecked_def None run)
    ultimately show thesis using that by blast
  next
    case False
    then have "effect (reconcileChecked K (sn_Service sn) tenant model) (Returned None)
        [UpdateInferenceServiceStatus (failedService K ReasonTrustedStoreConflict conflict_message (sn_Service sn))]"
      by (simp add: reconcileChecked_def None run effect_failConfigured)
    with that failure_of_checked [OF assms] None False show thesis by (simp add: writes_of_def Let_def)
  qed
qed

text \<open>A read that finds nothing leads to the failure it stands for.\<close>

lemma effect_missing:
  assumes "\<And>w. \<exists>e. fst (f w) = Inl e \<and> k_isNotFound K e" and "\<not> is_write c" and "effect m q ws"
  shows "effect (State_Monad.bind (invoke c f)
    (\<lambda>r. case r of Inl err \<Rightarrow> if k_isNotFound K err then m else m' err | Inr v \<Rightarrow> g v)) q ws"
  unfolding effect_def
proof
  fix s :: "'w sys"
  let ?m = "State_Monad.bind (invoke c f)
    (\<lambda>r. case r of Inl err \<Rightarrow> if k_isNotFound K err then m else m' err | Inr v \<Rightarrow> g v)"
  from assms(1) [of "world s"] obtain e w where "f (world s) = (Inl e, w)" "k_isNotFound K e"
    by (cases "f (world s)") auto
  then have "run_state ?m s = run_state m (s\<lparr>world := w, calls := calls s @ [c]\<rparr>)"
    by (simp add: go_simps)
  with assms(2,3) show "\<exists>w cs. run_state ?m s = (q, s\<lparr>world := w, calls := calls s @ cs\<rparr>) \<and> writes cs = ws"
    using assms(3) [unfolded effect_def, rule_format, of "s\<lparr>world := w, calls := calls s @ [c]\<rparr>"]
    by (auto intro!: exI [of _ "c # _"])
qed

lemma effect_reconcileModel:
  assumes "sn_Tenant sn = Some tenant"
  obtains ws where "effect (reconcileModel K (sn_Service sn) tenant) (Returned None) ws"
    "writes_of K answer sn ws"
proof (cases "sn_Model sn")
  case None
  then have "effect (reconcileModel K (sn_Service sn) tenant) (Returned None)
      [UpdateInferenceServiceStatus (failedService K ReasonModelNotFound (modelNotFoundMessage (sn_Service sn)) (sn_Service sn))]"
    unfolding reconcileModel_def getBrukModel_def
    using read_model by (intro effect_missing effect_failConfigured) simp_all
  with that assms None show thesis by (simp add: writes_of_def failure_of_def Let_def)
next
  case (Some model)
  with assms obtain ws where ws: "effect (reconcileChecked K (sn_Service sn) tenant model) (Returned None) ws"
    "writes_of K answer sn ws" by (rule effect_reconcileChecked)
  have "effect (getBrukModel K (modelKey (sn_Service sn))) (Inr model) []"
    using effect_invoke [of "k_getBrukModel K (modelKey (sn_Service sn))" "Inr model" "GetBrukModel (modelKey (sn_Service sn))"]
      read_model Some by (simp add: getBrukModel_def)
  with ws(1) have "effect (reconcileModel K (sn_Service sn) tenant) (Returned None) ws"
    by (simp add: reconcileModel_def effect_step)
  with ws(2) that show thesis by blast
qed

lemma effect_reconcileTenantConfig:
  obtains ws where "effect (reconcileTenantConfig K (sn_Service sn)) (Returned None) ws"
    "writes_of K answer sn ws"
proof (cases "sn_Tenant sn")
  case None
  then have "effect (reconcileTenantConfig K (sn_Service sn)) (Returned None)
      [UpdateInferenceServiceStatus (failedService K ReasonTenantConfigMissing tenantMissingMessage (sn_Service sn))]"
    unfolding reconcileTenantConfig_def getBrukTenant_def
    using read_tenant by (intro effect_missing effect_failConfigured) simp_all
  with that None show thesis by (simp add: writes_of_def failure_of_def Let_def)
next
  case (Some tenant)
  then obtain ws where ws: "effect (reconcileModel K (sn_Service sn) tenant) (Returned None) ws"
    "writes_of K answer sn ws" by (rule effect_reconcileModel)
  have "effect (getBrukTenant K tenantKey) (Inr tenant) []"
    using effect_invoke [of "k_getBrukTenant K tenantKey" "Inr tenant" "GetBrukTenant tenantKey"]
      read_tenant Some by (simp add: getBrukTenant_def)
  with ws(1) have "effect (reconcileTenantConfig K (sn_Service sn)) (Returned None) ws"
    by (simp add: reconcileTenantConfig_def effect_step)
  with ws(2) that show thesis by blast
qed

lemma reconcile_writes:
  "\<exists>w' cs. run (ReconcileISVC K (meta_key (is_Meta (sn_Service sn)))) w = (Returned None, w', cs) \<and>
     writes_of K answer sn (writes cs)"
proof -
  obtain ws where ws: "effect (reconcileTenantConfig K (sn_Service sn)) (Returned None) ws"
    "writes_of K answer sn ws" by (rule effect_reconcileTenantConfig)
  then have "effect (ReconcileISVC K (meta_key (is_Meta (sn_Service sn)))) (Returned None) ws"
    unfolding ReconcileISVC_def by (intro effect_step [OF effect_reads(4)]) simp
  from this [unfolded effect_def, rule_format, of "\<lparr>world = w, calls = []\<rparr>"] ws(2)
  show ?thesis by (auto simp: run_def)
qed

end

text \<open>C2: The reconciler implements the table. Against a server that answers every read from a
  snapshot and accepts every write, a run on the snapshot's service always returns nil, and it
  writes exactly what the table demands: the failure status of the first line that applies, with
  its reason and message, or the workload and its status.\<close>

theorem reconcile_refines_table:
  assumes "snapshot_server K sn answer"
  shows "\<exists>w' cs. run (ReconcileISVC K (meta_key (is_Meta (sn_Service sn)))) w = (Returned None, w', cs) \<and>
     writes_of K answer sn (writes cs)"
  by (rule snapshot_server.reconcile_writes [OF assms])

text \<open>A server frozen at a snapshot.\<close>

definition frozen_kube :: "snapshot \<Rightarrow> cluster kube" where
  "frozen_kube sn = ref_kube
     \<lparr>k_getInferenceService := (\<lambda>_ w. (Inr (sn_Service sn), w)),
      k_getBrukTenant := (\<lambda>_ w. (case sn_Tenant sn of None \<Rightarrow> Inl NotFoundError | Some t \<Rightarrow> Inr t, w)),
      k_getBrukModel := (\<lambda>_ w. (case sn_Model sn of None \<Rightarrow> Inl NotFoundError | Some m \<Rightarrow> Inr m, w)),
      k_listInferenceServices := (\<lambda>_ w. (Inr (sn_Siblings sn), w)),
      k_listDeployments := (\<lambda>_ w. (Inr (sn_Deployments sn), w)),
      k_listPods := (\<lambda>_ w. (Inr (sn_Pods sn), w)),
      k_applyConfigMap := (\<lambda>cm w. (Inr cm, w)),
      k_applyDeployment := (\<lambda>d w. (Inr d, w)),
      k_applyService := (\<lambda>sv w. (Inr sv, w)),
      k_updateInferenceServiceStatus := (\<lambda>_ w. (None, w))\<rparr>"

interpretation frozen: snapshot_server "frozen_kube sn" sn "\<lambda>d. d" for sn
proof (rule snapshot_server.intro)
  show "controller_references (k_isControlledBy (frozen_kube sn)) (k_setControllerReference (frozen_kube sn))"
    using ref_cr.controller_references_axioms by (simp add: frozen_kube_def)
qed (simp_all add: frozen_kube_def ref_isNotFound_def NotFoundError_def split: option.split)

text \<open>The production service on a cluster without its model.\<close>

definition noModelSnapshot :: snapshot where
  "noModelSnapshot =
     \<lparr>sn_Service = prodService, sn_Tenant = Some prodTenant, sn_Model = None,
      sn_Siblings = [prodService], sn_Deployments = [], sn_Pods = []\<rparr>"

theorem reconcile_refines_table_witness:
  "\<exists>w' cs. run (ReconcileISVC (frozen_kube noModelSnapshot) prodKey) empty_cluster = (Returned None, w', cs) \<and>
     writes cs = [UpdateInferenceServiceStatus (failedService (frozen_kube noModelSnapshot) ReasonModelNotFound
       (modelNotFoundMessage prodService) prodService)]"
  using reconcile_refines_table [OF frozen.snapshot_server_axioms, of noModelSnapshot empty_cluster]
  by (simp add: noModelSnapshot_def writes_of_def failure_of_def)

subsection \<open>The reconciler's own writes\<close>

lemma deploymentConflict_foreign:
  "deploymentConflict K isvc ds =
     deploymentConflict K isvc (filter (\<lambda>d. \<not> k_isControlledBy K (d_Meta d) (is_Meta isvc)) ds)"
  by (induction ds) auto

lemma siblingConflict_cong:
  assumes "is_Meta i = is_Meta i'" and "is_Spec i = is_Spec i'"
    and "map (\<lambda>s. (is_Meta s, is_Spec s)) xs = map (\<lambda>s. (is_Meta s, is_Spec s)) ys"
  shows "siblingConflict K i xs = siblingConflict K i' ys"
  using assms(3)
proof (induction xs arbitrary: ys)
  case (Cons x xs)
  then obtain y ys' where "ys = y # ys'" by (cases ys) auto
  with Cons assms(1,2) show ?case by (auto simp: precedes_def)
qed simp

lemma deploymentConflict_cong:
  "is_Meta i = is_Meta i' \<Longrightarrow> is_Spec i = is_Spec i' \<Longrightarrow> deploymentConflict K i ds = deploymentConflict K i' ds"
  by (induction ds) simp_all

lemma podConflict_cong:
  "is_Meta i = is_Meta i' \<Longrightarrow> is_Spec i = is_Spec i' \<Longrightarrow> podConflict i ps = podConflict i' ps"
  by (induction ps) simp_all

text \<open>The reconciler does not disturb itself. Two snapshots that differ only in what its own runs
  write (the status of the service, and Deployments under the service's control, with any other
  service's status) have the same verdict: a workload that was let through is not refused for its
  own Deployment, and a failure is not cured or replaced by reporting it.\<close>

theorem own_writes_keep_verdict:
  assumes "is_Meta (sn_Service sn') = is_Meta (sn_Service sn)"
    and "is_Spec (sn_Service sn') = is_Spec (sn_Service sn)"
    and "sn_Tenant sn' = sn_Tenant sn" and "sn_Model sn' = sn_Model sn" and "sn_Pods sn' = sn_Pods sn"
    and "map (\<lambda>s. (is_Meta s, is_Spec s)) (sn_Siblings sn') = map (\<lambda>s. (is_Meta s, is_Spec s)) (sn_Siblings sn)"
    and "filter (\<lambda>d. \<not> k_isControlledBy K (d_Meta d) (is_Meta (sn_Service sn))) (sn_Deployments sn')
       = filter (\<lambda>d. \<not> k_isControlledBy K (d_Meta d) (is_Meta (sn_Service sn))) (sn_Deployments sn)"
  shows "failure_of K sn' = failure_of K sn"
proof -
  have "siblingConflict K (sn_Service sn') (sn_Siblings sn') = siblingConflict K (sn_Service sn) (sn_Siblings sn)"
    using assms(1,2,6) by (rule siblingConflict_cong)
  moreover have "deploymentConflict K (sn_Service sn') (sn_Deployments sn')
      = deploymentConflict K (sn_Service sn) (sn_Deployments sn)"
    using deploymentConflict_cong [OF assms(1,2)] assms(7) by (metis deploymentConflict_foreign)
  moreover have "podConflict (sn_Service sn') (sn_Pods sn') = podConflict (sn_Service sn) (sn_Pods sn)"
    using podConflict_cong [OF assms(1,2)] assms(5) by simp
  ultimately show ?thesis
    using assms(1-4) by (simp add: failure_of_def workload_checks_def Let_def modelNotFoundMessage_def
        split: option.split)
qed

text \<open>The production cluster before and after its run.\<close>

definition snapshot_of :: "cluster \<Rightarrow> snapshot" where
  "snapshot_of c =
     \<lparr>sn_Service = hd (cl_InferenceServices c), sn_Tenant = Some prodTenant, sn_Model = Some prodModel,
      sn_Siblings = cl_InferenceServices c, sn_Deployments = cl_Deployments c, sn_Pods = cl_Pods c\<rparr>"

theorem own_writes_keep_verdict_witness:
  "failure_of ref_kube (snapshot_of prodDone) = failure_of ref_kube (snapshot_of prodCluster) \<and>
   sn_Deployments (snapshot_of prodDone) = [prodChild] \<and> sn_Deployments (snapshot_of prodCluster) = []"
  using own_writes_keep_verdict [of "snapshot_of prodDone" "snapshot_of prodCluster" ref_kube]
  by (simp add: snapshot_of_def prodDone_def ref_isControlledBy_def the_controller_def prod_metas)

end
