(* ===== verification/Watches.thy ===== *)
theory Watches
  imports Operator Verdict
begin

text \<open>
  \<open>SetupWithManager\<close> of the three controllers: which objects each of them watches and which
  requests a change of such an object puts in its queue. The map functions are those of the
  program; how a change of a child names its owner is the library's, the parameter \<open>H\<close> with the
  contract \<open>owner_handler\<close>. Then which changes re-queue a service, and which do not.
\<close>

subsection \<open>Sources\<close>

datatype kind =
    InferenceServiceKind | BrukModelKind | BrukTenantKind | DeploymentKind | ServiceKind
  | ConfigMapKind | PodKind | SecretKind

primrec kind_name :: "kind \<Rightarrow> string" where
  "kind_name InferenceServiceKind = ''InferenceService''"
| "kind_name BrukModelKind = ''BrukModel''"
| "kind_name BrukTenantKind = ''BrukTenant''"
| "kind_name DeploymentKind = ''Deployment''"
| "kind_name ServiceKind = ''Service''"
| "kind_name ConfigMapKind = ''ConfigMap''"
| "kind_name PodKind = ''Pod''"
| "kind_name SecretKind = ''Secret''"

text \<open>An object that was created, updated or deleted.\<close>

record event =
  ev_Kind :: kind
  ev_Meta :: ObjectMeta

datatype 'w source =
    For kind
  | Owns kind
  | Watches kind "NamespacedName \<Rightarrow> ('w sys, NamespacedName list) state"

record 'w controller_setup =
  su_Name :: string
  su_Sources :: "'w source list"

definition InferenceService_SetupWithManager :: "'w kube \<Rightarrow> 'w controller_setup" where
  "InferenceService_SetupWithManager K =
     \<lparr>su_Name = ''inferenceservice'',
      su_Sources =
        [For InferenceServiceKind, Owns DeploymentKind, Owns ServiceKind,
         Watches BrukModelKind (servicesForModel K), Watches BrukTenantKind (\<lambda>_. allServices K)]\<rparr>"

definition BrukModel_SetupWithManager :: "'w controller_setup" where
  "BrukModel_SetupWithManager = \<lparr>su_Name = ''brukmodel'', su_Sources = [For BrukModelKind]\<rparr>"

definition BrukTenant_SetupWithManager :: "'w controller_setup" where
  "BrukTenant_SetupWithManager = \<lparr>su_Name = ''bruktenant'', su_Sources = [For BrukTenantKind]\<rparr>"

fun setup_of :: "'w kube \<Rightarrow> controller \<Rightarrow> 'w controller_setup" where
  "setup_of K BrukTenantController = BrukTenant_SetupWithManager"
| "setup_of K BrukModelController = BrukModel_SetupWithManager"
| "setup_of K InferenceServiceController = InferenceService_SetupWithManager K"

text \<open>The kind a controller is for, to which an owned child leads back.\<close>

fun for_kind :: "controller \<Rightarrow> kind" where
  "for_kind BrukTenantController = BrukTenantKind"
| "for_kind BrukModelController = BrukModelKind"
| "for_kind InferenceServiceController = InferenceServiceKind"

subsection \<open>Requests of a change\<close>

definition handle ::
    "(kind \<Rightarrow> ObjectMeta \<Rightarrow> NamespacedName list) \<Rightarrow> kind \<Rightarrow> event \<Rightarrow> 'w source \<Rightarrow> ('w sys, NamespacedName list) state" where
  "handle H owner ev src =
     (case src of
        For k \<Rightarrow> State_Monad.return (if ev_Kind ev = k then [meta_key (ev_Meta ev)] else [])
      | Owns k \<Rightarrow> State_Monad.return (if ev_Kind ev = k then H owner (ev_Meta ev) else [])
      | Watches k f \<Rightarrow> (if ev_Kind ev = k then f (meta_key (ev_Meta ev)) else State_Monad.return []))"

primrec handle_all ::
    "(kind \<Rightarrow> ObjectMeta \<Rightarrow> NamespacedName list) \<Rightarrow> kind \<Rightarrow> event \<Rightarrow> 'w source list
      \<Rightarrow> ('w sys, NamespacedName list) state" where
  "handle_all H owner ev [] = State_Monad.return []"
| "handle_all H owner ev (src # srcs) =
     do { reqs \<leftarrow> handle H owner ev src; more \<leftarrow> handle_all H owner ev srcs; State_Monad.return (reqs @ more) }"

definition enqueue ::
    "'w kube \<Rightarrow> (kind \<Rightarrow> ObjectMeta \<Rightarrow> NamespacedName list) \<Rightarrow> controller \<Rightarrow> event
      \<Rightarrow> ('w sys, NamespacedName list) state" where
  "enqueue K H c ev = handle_all H (for_kind c) ev (su_Sources (setup_of K c))"

text \<open>
  \<open>handler.EnqueueRequestForOwner\<close> with \<open>OnlyControllerOwner\<close>: it "enqueues Requests for the Owners
  of an object", of the owner type, and only for an owner reference with \<open>Controller: true\<close>; an
  object has one at most.
\<close>

locale owner_handler =
  fixes H :: "kind \<Rightarrow> ObjectMeta \<Rightarrow> NamespacedName list"
  assumes owner_requests: "length (filter or_Controller (om_OwnerReferences m)) \<le> 1 \<Longrightarrow>
    set (H k m) = {\<lparr>nn_Namespace = om_Namespace m, nn_Name = or_Name r\<rparr> |r.
      r \<in> set (om_OwnerReferences m) \<and> or_Controller r \<and> or_Kind r = kind_name k}"
begin

lemma no_owner: "om_OwnerReferences m = [] \<Longrightarrow> H k m = []"
  using owner_requests [of m k] by simp

end

definition ref_owner_requests :: "kind \<Rightarrow> ObjectMeta \<Rightarrow> NamespacedName list" where
  "ref_owner_requests k m =
     (case the_controller m of
        None \<Rightarrow> []
      | Some r \<Rightarrow> (if or_Kind r = kind_name k then [\<lparr>nn_Namespace = om_Namespace m, nn_Name = or_Name r\<rparr>] else []))"

lemma find_one:
  assumes "length (filter P xs) \<le> 1" and "x \<in> set xs" and "P x"
  shows "List.find P xs = Some x"
  using assms
proof (induction xs)
  case (Cons a xs)
  show ?case
  proof (cases "P a")
    case True
    with Cons.prems(1) have "filter P xs = []" by simp
    with Cons.prems(2,3) True show ?thesis by (auto simp: filter_empty_conv)
  next
    case False
    with Cons show ?thesis by auto
  qed
qed simp

interpretation ref_oh: owner_handler ref_owner_requests
proof
  fix m :: ObjectMeta and k
  assume one: "length (filter or_Controller (om_OwnerReferences m)) \<le> 1"
  show "set (ref_owner_requests k m) = {\<lparr>nn_Namespace = om_Namespace m, nn_Name = or_Name r\<rparr> |r.
      r \<in> set (om_OwnerReferences m) \<and> or_Controller r \<and> or_Kind r = kind_name k}"
  proof (cases "the_controller m")
    case None
    then have "\<forall>r \<in> set (om_OwnerReferences m). \<not> or_Controller r"
      by (simp add: the_controller_def find_None_set)
    with None show ?thesis by (auto simp: ref_owner_requests_def)
  next
    case (Some r)
    then have "r \<in> set (om_OwnerReferences m) \<and> or_Controller r"
      unfolding the_controller_def by (rule find_Some_set)
    moreover have "r' = r" if "r' \<in> set (om_OwnerReferences m)" "or_Controller r'" for r'
      using find_one [OF one that] Some by (simp add: the_controller_def)
    ultimately have "{r'. r' \<in> set (om_OwnerReferences m) \<and> or_Controller r'} = {r}" by blast
    then have "{\<lparr>nn_Namespace = om_Namespace m, nn_Name = or_Name r'\<rparr> |r'.
        r' \<in> set (om_OwnerReferences m) \<and> or_Controller r' \<and> or_Kind r' = kind_name k}
      = (if or_Kind r = kind_name k then {\<lparr>nn_Namespace = om_Namespace m, nn_Name = or_Name r\<rparr>} else {})"
      by (auto simp: set_eq_iff)
    with Some show ?thesis by (simp add: ref_owner_requests_def)
  qed
qed

subsection \<open>What re-queues a service\<close>

lemma run_return [simp]: "run (State_Monad.return x) w = (x, w, [])"
  by (simp add: run_def)

lemma enqueue_service:
  "run (enqueue K H InferenceServiceController ev) w =
     (case ev_Kind ev of
        InferenceServiceKind \<Rightarrow> ([meta_key (ev_Meta ev)], w, [])
      | BrukModelKind \<Rightarrow> run (servicesForModel K (meta_key (ev_Meta ev))) w
      | BrukTenantKind \<Rightarrow> run (allServices K) w
      | DeploymentKind \<Rightarrow> (H InferenceServiceKind (ev_Meta ev), w, [])
      | ServiceKind \<Rightarrow> (H InferenceServiceKind (ev_Meta ev), w, [])
      | _ \<Rightarrow> ([], w, []))"
  by (cases "ev_Kind ev")
    (simp_all add: enqueue_def InferenceService_SetupWithManager_def handle_def run_def
      servicesForModel_def allServices_def client_call_defs go_simps split: prod.splits)

lemma enqueue_other:
  "run (enqueue K H BrukModelController ev) w
     = (if ev_Kind ev = BrukModelKind then [meta_key (ev_Meta ev)] else [], w, [])"
  "run (enqueue K H BrukTenantController ev) w
     = (if ev_Kind ev = BrukTenantKind then [meta_key (ev_Meta ev)] else [], w, [])"
  by (simp_all add: enqueue_def BrukModel_SetupWithManager_def BrukTenant_SetupWithManager_def handle_def
      run_def go_simps)

text \<open>The services of a cluster under distinct keys, and a server that lists them.\<close>

definition lists_services :: "'w kube \<Rightarrow> InferenceService list \<Rightarrow> 'w \<Rightarrow> bool" where
  "lists_services K items w \<longleftrightarrow>
     distinct (map (\<lambda>i. meta_key (is_Meta i)) items) \<and>
     k_listInferenceServices K None w = (Inr items, w) \<and>
     (\<forall>n. k_listInferenceServices K (Some n) w = (Inr (filter (\<lambda>i. isvc_Namespace i = n) items), w))"

text \<open>C12: What re-queues a service, exactly. A change puts a service in the queue of its reconciler if
  and only if it is a change of the service itself, of the model it refers to, of a tenant, or of
  a Deployment or Service that it controls. So everything the service's own state is built from
  brings it back, and nothing else does: not a sibling, not a Deployment of somebody else, no pod,
  no secret and no ConfigMap.\<close>

theorem requeue_exact:
  assumes "owner_handler H" and "lists_services K items w" and "i \<in> set items"
    and "length (filter or_Controller (om_OwnerReferences (ev_Meta ev))) \<le> 1"
  shows "meta_key (is_Meta i) \<in> set (fst (run (enqueue K H InferenceServiceController ev) w)) \<longleftrightarrow>
    (case ev_Kind ev of
       InferenceServiceKind \<Rightarrow> meta_key (ev_Meta ev) = meta_key (is_Meta i)
     | BrukModelKind \<Rightarrow> meta_key (ev_Meta ev) = modelKey i
     | BrukTenantKind \<Rightarrow> True
     | DeploymentKind \<Rightarrow> om_Namespace (ev_Meta ev) = isvc_Namespace i \<and>
         (\<exists>r \<in> set (om_OwnerReferences (ev_Meta ev)).
            or_Controller r \<and> or_Kind r = ''InferenceService'' \<and> or_Name r = isvc_Name i)
     | ServiceKind \<Rightarrow> om_Namespace (ev_Meta ev) = isvc_Namespace i \<and>
         (\<exists>r \<in> set (om_OwnerReferences (ev_Meta ev)).
            or_Controller r \<and> or_Kind r = ''InferenceService'' \<and> or_Name r = isvc_Name i)
     | _ \<Rightarrow> False)"
proof -
  have owner: "meta_key (is_Meta i) \<in> set (H InferenceServiceKind (ev_Meta ev)) \<longleftrightarrow>
      om_Namespace (ev_Meta ev) = isvc_Namespace i \<and>
      (\<exists>r \<in> set (om_OwnerReferences (ev_Meta ev)).
         or_Controller r \<and> or_Kind r = ''InferenceService'' \<and> or_Name r = isvc_Name i)"
    unfolding owner_handler.owner_requests [OF assms(1,4)] by (force simp: meta_key_def)
  let ?obj = "meta_key (ev_Meta ev)"
  have unique: "j = i" if "j \<in> set items" "meta_key (is_Meta j) = meta_key (is_Meta i)" for j
    using assms(2,3) that by (auto simp: lists_services_def dest: distinct_map_key_eq)
  have model: "set (fst (run (servicesForModel K ?obj) w))
      = (\<lambda>i. meta_key (is_Meta i)) ` {i \<in> set items. modelKey i = ?obj}"
    using assms(2) by (auto simp: lists_services_def run_def servicesForModel_def client_call_defs go_simps
        modelKey_def meta_key_def)
  have "meta_key (is_Meta i) \<in> set (fst (run (servicesForModel K ?obj) w)) \<longleftrightarrow> ?obj = modelKey i"
    unfolding model using assms(3) by (auto dest: unique)
  moreover have "meta_key (is_Meta i) \<in> set (fst (run (allServices K) w))"
    using assms(2,3) by (simp add: lists_services_def run_def allServices_def client_call_defs go_simps)
  ultimately show ?thesis using owner by (auto simp: enqueue_service split: kind.split)
qed


text \<open>A change of the model of the production service.\<close>

theorem requeue_exact_witness:
  "prodKey \<in> set (fst (run (enqueue ref_kube ref_owner_requests InferenceServiceController
     \<lparr>ev_Kind = BrukModelKind, ev_Meta = zero_ObjectMeta\<lparr>om_Name := nn_Name (modelKey prodService),
        om_Namespace := ''default''\<rparr>\<rparr>) prodCluster))"
proof -
  let ?ev = "\<lparr>ev_Kind = BrukModelKind, ev_Meta = zero_ObjectMeta\<lparr>om_Name := nn_Name (modelKey prodService),
      om_Namespace := ''default''\<rparr>\<rparr>"
  have "lists_services ref_kube [prodService] prodCluster"
    by (auto simp: lists_services_def ref_calls prod_fields list_from_def)
  from requeue_exact [OF ref_oh.owner_handler_axioms this, of prodService ?ev] show ?thesis
    by (simp add: prod_fields prodKey_def modelKey_def meta_key_def zero_ObjectMeta_def)
qed

definition holderPod :: Pod where
  "holderPod =
     \<lparr>pod_Meta = zero_ObjectMeta\<lparr>om_Name := ''debug'', om_Namespace := ''default''\<rparr>,
      pod_Spec = \<lparr>ps_RuntimeClassName = None, ps_Containers = [],
        ps_Volumes = [claimVolume ''store'' (isvc_Claim prodService)]\<rparr>\<rparr>"


end
