(* ===== verification/Scheme.thy ===== *)
theory Scheme
  imports Watches "HOL-Library.Multiset"
begin

text \<open>
  How the API types get into the scheme of the manager: \<open>api/v1alpha1/groupversion_info.go\<close>, the
  \<open>init\<close> functions of the three type files, and \<open>init\<close> of \<open>cmd/main.go\<close>. The package variable
  \<open>SchemeBuilder\<close> grows while the files are initialised; \<open>AddToScheme\<close> is the method value of its
  address, so it reads what the variable holds when it is called. The scheme and the builder are
  apimachinery's, the parameter \<open>L\<close> with the contract \<open>scheme_registry\<close>.
\<close>

subsection \<open>The library\<close>

record GroupVersion =
  gv_Group :: string
  gv_Version :: string

record go_type =
  gt_Package :: string
  gt_Name :: string

datatype 's added = Added 's | Refused string | Panics

definition and_then :: "'s added \<Rightarrow> ('s \<Rightarrow> 's added) \<Rightarrow> 's added" where
  "and_then r f = (case r of Added s \<Rightarrow> f s | Refused e \<Rightarrow> Refused e | Panics \<Rightarrow> Panics)"

definition Must :: "'s added \<Rightarrow> 's added" where
  "Must r = (case r of Added s \<Rightarrow> Added s | _ \<Rightarrow> Panics)"

lemma added_simps [simp]:
  "and_then (Added s) f = f s" "Must (Added s) = Added s"
  by (simp_all add: and_then_def Must_def)

record ('b, 's) scheme_library =
  NewScheme :: 's
  NewSchemeBuilder :: "('s \<Rightarrow> 's added) \<Rightarrow> 'b"
  Register :: "('s \<Rightarrow> 's added) \<Rightarrow> 'b \<Rightarrow> 'b"
  BuilderAddToScheme :: "'b \<Rightarrow> 's \<Rightarrow> 's added"
  AddKnownTypes :: "GroupVersion \<Rightarrow> go_type list \<Rightarrow> 's \<Rightarrow> 's added"
  AddToGroupVersion :: "GroupVersion \<Rightarrow> 's \<Rightarrow> 's added"
  clientgo_AddToScheme :: "'s \<Rightarrow> 's added"
  known :: "'s \<Rightarrow> GroupVersion \<Rightarrow> string \<Rightarrow> go_type option"

subsection \<open>The package \<open>v1alpha1\<close>\<close>

definition SchemeGroupVersion :: GroupVersion where
  "SchemeGroupVersion = \<lparr>gv_Group = ''bruk.airon.ai'', gv_Version = ''v1alpha1''\<rparr>"

definition api_type :: "string \<Rightarrow> go_type" where
  "api_type n = \<lparr>gt_Package = ''v1alpha1'', gt_Name = n\<rparr>"

definition SchemeBuilder :: "('b, 's) scheme_library \<Rightarrow> 'b" where
  "SchemeBuilder L = NewSchemeBuilder L (AddToGroupVersion L SchemeGroupVersion)"

definition inferenceservice_init :: "('b, 's) scheme_library \<Rightarrow> 'b \<Rightarrow> 'b" where
  "inferenceservice_init L =
     Register L (AddKnownTypes L SchemeGroupVersion [api_type ''InferenceService'', api_type ''InferenceServiceList''])"

definition brukmodel_init :: "('b, 's) scheme_library \<Rightarrow> 'b \<Rightarrow> 'b" where
  "brukmodel_init L =
     Register L (AddKnownTypes L SchemeGroupVersion [api_type ''BrukModel'', api_type ''BrukModelList''])"

definition bruktenant_init :: "('b, 's) scheme_library \<Rightarrow> 'b \<Rightarrow> 'b" where
  "bruktenant_init L =
     Register L (AddKnownTypes L SchemeGroupVersion [api_type ''BrukTenant'', api_type ''BrukTenantList''])"

text \<open>
  The variable after the files' \<open>init\<close> functions have run, in the order \<open>inits\<close>; the go command
  takes the files by name.
\<close>

definition initialised :: "('b, 's) scheme_library \<Rightarrow> ('b \<Rightarrow> 'b) list \<Rightarrow> 'b" where
  "initialised L inits = fold (\<lambda>init. init) inits (SchemeBuilder L)"

definition file_inits :: "('b, 's) scheme_library \<Rightarrow> ('b \<Rightarrow> 'b) list" where
  "file_inits L = [brukmodel_init L, bruktenant_init L, inferenceservice_init L]"

definition AddToScheme :: "('b, 's) scheme_library \<Rightarrow> 'b \<Rightarrow> 's \<Rightarrow> 's added" where
  "AddToScheme L var = BuilderAddToScheme L var"

subsection \<open>\<open>cmd/main.go\<close>\<close>

definition main_init :: "('b, 's) scheme_library \<Rightarrow> 'b \<Rightarrow> 's added" where
  "main_init L var =
     and_then (Must (clientgo_AddToScheme L (NewScheme L))) (\<lambda>s. Must (AddToScheme L var s))"

subsection \<open>The contract of the library\<close>

text \<open>
  A builder calls its functions in the order they were registered and stops at an error.
  \<open>AddKnownTypes\<close> registers each type under its Go name; it panics when a kind already has another
  type. \<open>AddToGroupVersion\<close> adds kinds of the package \<open>meta/v1\<close> only.
\<close>

definition metav1_kinds :: "string list" where
  "metav1_kinds =
     [''WatchEvent'', ''ListOptions'', ''GetOptions'', ''DeleteOptions'', ''CreateOptions'',
      ''UpdateOptions'', ''PatchOptions'', ''Status'', ''APIVersions'', ''APIGroup'',
      ''APIGroupList'', ''APIResourceList'']"

locale scheme_registry =
  fixes L :: "('b, 's) scheme_library"
  assumes builder_new: "BuilderAddToScheme L (NewSchemeBuilder L f) s = f s"
    and builder_register: "BuilderAddToScheme L (Register L f b) s = and_then (BuilderAddToScheme L b s) f"
    and known_added: "\<forall>t\<in>set ts. known L s gv (gt_Name t) \<in> {None, Some t} \<Longrightarrow> distinct (map gt_Name ts) \<Longrightarrow>
      \<exists>s'. AddKnownTypes L gv ts s = Added s' \<and>
        (\<forall>gv' k. known L s' gv' k =
           (if gv' = gv \<and> k \<in> gt_Name ` set ts then List.find (\<lambda>t. gt_Name t = k) ts else known L s gv' k))"
    and group_version_added: "AddToGroupVersion L gv s = Added s' \<Longrightarrow> k \<notin> set metav1_kinds \<Longrightarrow>
      known L s' gv' k = known L s gv' k"
begin

text \<open>Types of their own names, registered one list after the other.\<close>

lemma registered_lists:
  assumes "BuilderAddToScheme L b s = Added s1"
    and "distinct (concat names)"
    and "\<forall>n\<in>set (concat names). known L s1 SchemeGroupVersion n = None"
  shows "\<exists>s'. BuilderAddToScheme L (fold (\<lambda>ns. Register L (AddKnownTypes L SchemeGroupVersion (map api_type ns))) names b) s = Added s' \<and>
    (\<forall>gv k. known L s' gv k =
       (if gv = SchemeGroupVersion \<and> k \<in> set (concat names) then Some (api_type k) else known L s1 gv k))"
  using assms
proof (induction names arbitrary: b s1)
  case (Cons ns names)
  have find: "List.find (\<lambda>t. gt_Name t = k) (map api_type ns) = Some (api_type k)" if "k \<in> set ns" for k
    using that by (induction ns) (auto simp: api_type_def)
  have "distinct (map gt_Name (map api_type ns))"
    using Cons.prems(2) by (simp add: api_type_def comp_def)
  moreover have "\<forall>t\<in>set (map api_type ns). known L s1 SchemeGroupVersion (gt_Name t) \<in> {None, Some t}"
    using Cons.prems(3) by (auto simp: api_type_def)
  ultimately obtain s2 where s2: "AddKnownTypes L SchemeGroupVersion (map api_type ns) s1 = Added s2"
    "known L s2 gv k = (if gv = SchemeGroupVersion \<and> k \<in> set ns then Some (api_type k) else known L s1 gv k)" for gv k
    using known_added [of "map api_type ns" s1 SchemeGroupVersion] find
    by (auto simp: api_type_def image_comp comp_def)
  have "BuilderAddToScheme L (Register L (AddKnownTypes L SchemeGroupVersion (map api_type ns)) b) s = Added s2"
    by (simp add: builder_register Cons.prems(1) s2(1))
  from Cons.IH [OF this] Cons.prems(2,3) obtain s' where s':
    "BuilderAddToScheme L (fold (\<lambda>ns. Register L (AddKnownTypes L SchemeGroupVersion (map api_type ns))) names
       (Register L (AddKnownTypes L SchemeGroupVersion (map api_type ns)) b)) s = Added s'"
    "known L s' gv k = (if gv = SchemeGroupVersion \<and> k \<in> set (concat names) then Some (api_type k) else known L s2 gv k)"
    for gv k
    by (fastforce simp: s2(2))
  then show ?case by (auto simp: s2(2))
qed simp

end

subsection \<open>The types the program needs\<close>

definition api_lists :: "string list list" where
  "api_lists = [ [''BrukModel'', ''BrukModelList''], [''BrukTenant'', ''BrukTenantList''],
     [''InferenceService'', ''InferenceServiceList''] ]"

fun kind_gv :: "kind \<Rightarrow> GroupVersion" where
  "kind_gv DeploymentKind = \<lparr>gv_Group = ''apps'', gv_Version = ''v1''\<rparr>"
| "kind_gv ServiceKind = \<lparr>gv_Group = [], gv_Version = ''v1''\<rparr>"
| "kind_gv ConfigMapKind = \<lparr>gv_Group = [], gv_Version = ''v1''\<rparr>"
| "kind_gv PodKind = \<lparr>gv_Group = [], gv_Version = ''v1''\<rparr>"
| "kind_gv SecretKind = \<lparr>gv_Group = [], gv_Version = ''v1''\<rparr>"
| "kind_gv _ = SchemeGroupVersion"

fun kind_type :: "kind \<Rightarrow> go_type" where
  "kind_type DeploymentKind = \<lparr>gt_Package = ''apps/v1'', gt_Name = ''Deployment''\<rparr>"
| "kind_type ServiceKind = \<lparr>gt_Package = ''core/v1'', gt_Name = ''Service''\<rparr>"
| "kind_type ConfigMapKind = \<lparr>gt_Package = ''core/v1'', gt_Name = ''ConfigMap''\<rparr>"
| "kind_type PodKind = \<lparr>gt_Package = ''core/v1'', gt_Name = ''Pod''\<rparr>"
| "kind_type SecretKind = \<lparr>gt_Package = ''core/v1'', gt_Name = ''Secret''\<rparr>"
| "kind_type k = api_type (kind_name k)"

lemma api_names_not_meta: "n \<in> set (concat api_lists) \<Longrightarrow> n \<notin> set metav1_kinds"
  by (auto simp: api_lists_def metav1_kinds_def)

lemma api_lists_distinct: "distinct (concat api_lists)"
  by (simp add: api_lists_def)

lemma file_inits_lists:
  "file_inits L = map (\<lambda>ns. Register L (AddKnownTypes L SchemeGroupVersion (map api_type ns))) api_lists"
  by (simp add: file_inits_def api_lists_def brukmodel_init_def bruktenant_init_def inferenceservice_init_def)

lemma mset_mapD:
  assumes "mset xs = mset (map f ys)"
  shows "\<exists>zs. mset zs = mset ys \<and> xs = map f zs"
  using assms
proof (induction xs arbitrary: ys)
  case (Cons x xs)
  then have "x \<in> set (map f ys)" by (metis list.set_intros(1) set_mset_mset)
  then obtain y where y: "y \<in> set ys" "x = f y" by auto
  then have "mset (map f ys) = add_mset x (mset (map f (remove1 y ys)))"
    by (simp add: image_mset_Diff)
  with Cons.prems have "mset xs = mset (map f (remove1 y ys))" by simp
  from Cons.IH [OF this] obtain zs where zs: "mset zs = mset (remove1 y ys)" "xs = map f zs" by blast
  have "mset (y # zs) = mset ys" using y(1) by (simp add: zs(1))
  moreover have "x # xs = map f (y # zs)" by (simp add: y(2) zs(2))
  ultimately show ?case by (intro exI [of _ "y # zs"] conjI)
qed simp

text \<open>C24: Every type the operator handles is known to its scheme. Whatever the order in which the files'
  \<open>init\<close> functions run, \<open>init\<close> of \<open>main\<close> does not panic, and afterwards every kind that the
  controllers are for, own, watch, read or write is registered with its own Go type, the list
  types of the three API kinds too; apart from the kinds of \<open>meta/v1\<close> nothing else is added to the
  group, and what client-go registered is as it was.\<close>

theorem scheme_complete:
  assumes "scheme_registry L" and inits: "mset inits = mset (file_inits L)"
    and clientgo: "clientgo_AddToScheme L (NewScheme L) = Added s0"
    and fresh: "\<forall>n. n \<notin> set metav1_kinds \<longrightarrow> known L s0 SchemeGroupVersion n = None"
    and group: "AddToGroupVersion L SchemeGroupVersion s0 = Added s1"
    and kubernetes: "\<forall>k\<in>{DeploymentKind, ServiceKind, ConfigMapKind, PodKind, SecretKind}.
      known L s0 (kind_gv k) (kind_name k) = Some (kind_type k)"
  shows "\<exists>s. main_init L (initialised L inits) = Added s \<and>
    (\<forall>k. known L s (kind_gv k) (kind_name k) = Some (kind_type k)) \<and>
    (\<forall>gv n. n \<notin> set metav1_kinds \<longrightarrow> known L s gv n =
       (if gv = SchemeGroupVersion \<and> n \<in> {''InferenceService'', ''InferenceServiceList'', ''BrukModel'',
          ''BrukModelList'', ''BrukTenant'', ''BrukTenantList''}
        then Some (api_type n) else known L s0 gv n))"
proof -
  note reg = scheme_registry.registered_lists [OF assms(1)] scheme_registry.builder_new [OF assms(1)]
    scheme_registry.group_version_added [OF assms(1) group]
  from mset_mapD [OF inits [unfolded file_inits_lists]] obtain names where names: "mset names = mset api_lists"
    and inits: "inits = map (\<lambda>ns. Register L (AddKnownTypes L SchemeGroupVersion (map api_type ns))) names" by blast
  from names have "mset (concat names) = mset (concat api_lists)"
    by (simp add: mset_concat flip: sum_mset_sum_list)
  then have same: "set (concat names) = set (concat api_lists)" "distinct (concat names)"
    by (metis set_mset_mset, metis api_lists_distinct mset_eq_imp_distinct_iff)
  have "BuilderAddToScheme L (SchemeBuilder L) s0 = Added s1" by (simp add: SchemeBuilder_def reg(2) group)
  moreover have "\<forall>n\<in>set (concat names). known L s1 SchemeGroupVersion n = None"
    using fresh by (simp add: reg(3) api_names_not_meta same(1) del: set_concat)
  ultimately obtain s where s:
    "BuilderAddToScheme L (initialised L inits) s0 = Added s"
    "known L s gv n = (if gv = SchemeGroupVersion \<and> n \<in> set (concat api_lists) then Some (api_type n) else known L s1 gv n)"
    for gv n
    using reg(1) [OF _ same(2), of "SchemeBuilder L" s0 s1] unfolding initialised_def inits fold_map comp_def same(1)
    by blast
  have init: "main_init L (initialised L inits) = Added s" by (simp add: main_init_def AddToScheme_def clientgo s(1))
  have names: "known L s gv n = (if gv = SchemeGroupVersion \<and> n \<in> set (concat api_lists) then Some (api_type n) else known L s0 gv n)"
    if "n \<notin> set metav1_kinds" for gv n
    unfolding s(2) reg(3) [OF that] ..
  have meta: "kind_name k \<notin> set metav1_kinds" for k by (cases k) (simp_all add: metav1_kinds_def)
  have "known L s (kind_gv k) (kind_name k) = Some (kind_type k)" for k
    using names [OF meta, of "kind_gv k" k] kubernetes by (cases k) (simp_all add: api_lists_def SchemeGroupVersion_def)
  moreover have "set (concat api_lists) = {''InferenceService'', ''InferenceServiceList'', ''BrukModel'',
          ''BrukModelList'', ''BrukTenant'', ''BrukTenantList''}" by (auto simp: api_lists_def)
  ultimately show ?thesis using init names by auto
qed

subsection \<open>A reference library\<close>

type_synonym ref_scheme = "GroupVersion \<Rightarrow> string \<Rightarrow> go_type option"

primrec ref_AddKnownTypes :: "GroupVersion \<Rightarrow> go_type list \<Rightarrow> ref_scheme \<Rightarrow> ref_scheme added" where
  "ref_AddKnownTypes gv [] s = Added s"
| "ref_AddKnownTypes gv (t # ts) s =
     (if s gv (gt_Name t) \<in> {None, Some t} then ref_AddKnownTypes gv ts (s(gv := (s gv)(gt_Name t \<mapsto> t)))
      else Panics)"

primrec ref_builder :: "(ref_scheme \<Rightarrow> ref_scheme added) list \<Rightarrow> ref_scheme \<Rightarrow> ref_scheme added" where
  "ref_builder [] s = Added s"
| "ref_builder (f # fs) s = and_then (f s) (ref_builder fs)"

definition metav1_type :: "string \<Rightarrow> go_type" where
  "metav1_type n = \<lparr>gt_Package = ''meta/v1'', gt_Name = n\<rparr>"

definition ref_clientgo :: "ref_scheme \<Rightarrow> ref_scheme added" where
  "ref_clientgo s =
     and_then (ref_AddKnownTypes (kind_gv DeploymentKind) [kind_type DeploymentKind] s)
       (ref_AddKnownTypes (kind_gv PodKind) (map kind_type [ServiceKind, ConfigMapKind, PodKind, SecretKind]))"

definition ref_schemes :: "((ref_scheme \<Rightarrow> ref_scheme added) list, ref_scheme) scheme_library" where
  "ref_schemes =
     \<lparr>NewScheme = \<lambda>_ _. None, NewSchemeBuilder = \<lambda>f. [f], Register = \<lambda>f b. b @ [f],
      BuilderAddToScheme = ref_builder, AddKnownTypes = ref_AddKnownTypes,
      AddToGroupVersion = \<lambda>gv. ref_AddKnownTypes gv (map metav1_type (take 7 metav1_kinds)),
      clientgo_AddToScheme = ref_clientgo, known = \<lambda>s. s\<rparr>"

lemma ref_builder_append: "ref_builder (fs @ fs') s = and_then (ref_builder fs s) (ref_builder fs')"
  by (induction fs arbitrary: s) (auto simp: and_then_def split: added.splits)

lemma ref_AddKnownTypes_other:
  "ref_AddKnownTypes gv ts s = Added s' \<Longrightarrow> k \<notin> gt_Name ` set ts \<or> gv' \<noteq> gv \<Longrightarrow> s' gv' k = s gv' k"
  by (induction ts arbitrary: s) (auto split: if_splits)

lemma ref_AddKnownTypes_fresh:
  "\<forall>t\<in>set ts. s gv (gt_Name t) \<in> {None, Some t} \<Longrightarrow> distinct (map gt_Name ts) \<Longrightarrow>
   \<exists>s'. ref_AddKnownTypes gv ts s = Added s' \<and>
     (\<forall>gv' k. s' gv' k = (if gv' = gv \<and> k \<in> gt_Name ` set ts then List.find (\<lambda>t. gt_Name t = k) ts else s gv' k))"
proof (induction ts arbitrary: s)
  case (Cons t ts)
  let ?s = "s(gv := (s gv)(gt_Name t \<mapsto> t))"
  have "gt_Name u \<noteq> gt_Name t" if "u \<in> set ts" for u
    using Cons.prems(2) that by (metis distinct.simps(2) image_eqI list.set_map list.simps(9))
  then have "\<forall>u\<in>set ts. ?s gv (gt_Name u) \<in> {None, Some u}" using Cons.prems(1) by simp
  moreover have "distinct (map gt_Name ts)" using Cons.prems(2) by simp
  ultimately obtain s' where s': "ref_AddKnownTypes gv ts ?s = Added s'"
    "s' gv' k = (if gv' = gv \<and> k \<in> gt_Name ` set ts then List.find (\<lambda>t. gt_Name t = k) ts else ?s gv' k)" for gv' k
    using Cons.IH [of ?s] by blast
  have "ref_AddKnownTypes gv (t # ts) s = Added s'" using s'(1) Cons.prems(1) by simp
  moreover have "s' gv' k = (if gv' = gv \<and> k \<in> gt_Name ` set (t # ts) then List.find (\<lambda>t. gt_Name t = k) (t # ts) else s gv' k)"
    for gv' k
    using Cons.prems(2) unfolding s'(2) by (cases "k = gt_Name t") simp_all
  ultimately show ?case by (intro exI [of _ s'] conjI allI)
qed simp

interpretation ref_sr: scheme_registry ref_schemes
proof
  fix f :: "ref_scheme \<Rightarrow> ref_scheme added" and b s
  show "BuilderAddToScheme ref_schemes (NewSchemeBuilder ref_schemes f) s = f s"
    by (simp add: ref_schemes_def and_then_def split: added.splits)
  show "BuilderAddToScheme ref_schemes (Register ref_schemes f b) s = and_then (BuilderAddToScheme ref_schemes b s) f"
    by (simp add: ref_schemes_def ref_builder_append and_then_def split: added.splits)
next
  fix ts s gv
  assume "\<forall>t\<in>set ts. known ref_schemes s gv (gt_Name t) \<in> {None, Some t}" "distinct (map gt_Name ts)"
  then show "\<exists>s'. AddKnownTypes ref_schemes gv ts s = Added s' \<and>
        (\<forall>gv' k. known ref_schemes s' gv' k =
           (if gv' = gv \<and> k \<in> gt_Name ` set ts then List.find (\<lambda>t. gt_Name t = k) ts else known ref_schemes s gv' k))"
    unfolding ref_schemes_def scheme_library.simps by (rule ref_AddKnownTypes_fresh)
next
  fix gv s s' k gv'
  assume "AddToGroupVersion ref_schemes gv s = Added s'" "k \<notin> set metav1_kinds"
  moreover have "gt_Name ` set (map metav1_type (take 7 metav1_kinds)) \<subseteq> set metav1_kinds"
    by (auto simp: metav1_type_def dest: in_set_takeD)
  ultimately show "known ref_schemes s' gv' k = known ref_schemes s gv' k"
    unfolding ref_schemes_def scheme_library.simps by (blast intro: ref_AddKnownTypes_other)
qed

text \<open>The files in another order than by name.\<close>

theorem scheme_complete_witness:
  "\<exists>s. main_init ref_schemes (initialised ref_schemes
         [inferenceservice_init ref_schemes, brukmodel_init ref_schemes, bruktenant_init ref_schemes]) = Added s \<and>
       known ref_schemes s (kind_gv InferenceServiceKind) ''InferenceService'' = Some (api_type ''InferenceService'') \<and>
       known ref_schemes s (kind_gv DeploymentKind) ''Deployment'' = Some (kind_type DeploymentKind)"
proof -
  obtain s0 where s0: "ref_clientgo (\<lambda>_ _. None) = Added s0"
    "\<forall>n. s0 SchemeGroupVersion n = None"
    "\<forall>k\<in>{DeploymentKind, ServiceKind, ConfigMapKind, PodKind, SecretKind}. s0 (kind_gv k) (kind_name k) = Some (kind_type k)"
    by (simp add: ref_clientgo_def SchemeGroupVersion_def)
  obtain s1 where "ref_AddKnownTypes SchemeGroupVersion (map metav1_type (take 7 metav1_kinds)) s0 = Added s1"
    using ref_AddKnownTypes_fresh [of "map metav1_type (take 7 metav1_kinds)" s0 SchemeGroupVersion] s0(2)
    by (auto simp: metav1_kinds_def metav1_type_def)
  then have group: "AddToGroupVersion ref_schemes SchemeGroupVersion s0 = Added s1" by (simp add: ref_schemes_def)
  have "\<exists>s. main_init ref_schemes (initialised ref_schemes
         [inferenceservice_init ref_schemes, brukmodel_init ref_schemes, bruktenant_init ref_schemes]) = Added s \<and>
      (\<forall>k. known ref_schemes s (kind_gv k) (kind_name k) = Some (kind_type k))"
    using scheme_complete [OF ref_sr.scheme_registry_axioms, of
      "[inferenceservice_init ref_schemes, brukmodel_init ref_schemes, bruktenant_init ref_schemes]", OF _ _ _ group] s0
    by (auto simp: file_inits_def ref_schemes_def)
  then obtain s where "main_init ref_schemes (initialised ref_schemes
         [inferenceservice_init ref_schemes, brukmodel_init ref_schemes, bruktenant_init ref_schemes]) = Added s"
    "\<forall>k. known ref_schemes s (kind_gv k) (kind_name k) = Some (kind_type k)" by blast
  from this(1) this(2) [rule_format, of InferenceServiceKind] this(2) [rule_format, of DeploymentKind]
  show ?thesis by auto
qed

end
