(* ===== verification/Admission.thy ===== *)
theory Admission
  imports StatusProps
begin

text \<open>
  What the API server lets in: the \<open>+kubebuilder:validation\<close> markers of the fields of the three
  custom resources, as predicates on decoded objects, and the defaults of \<open>+kubebuilder:default\<close>.
  A field with \<open>omitempty\<close> decodes to its zero value when it is absent, so an optional field
  may be zero where a present one may not. Comparing two quantities is the library's
  (\<open>quantity(a).compareTo(quantity(b)) <= 0\<close> of the CEL rules) and a parameter. On top of them,
  what the program can rely on for objects that were admitted.
\<close>

subsection \<open>Patterns\<close>

text \<open>\<open>MaxLength\<close> counts characters; a string is its UTF-8 bytes.\<close>

definition is_continuation :: "char \<Rightarrow> bool" where
  "is_continuation c \<longleftrightarrow> 128 \<le> (of_char c :: nat) \<and> (of_char c :: nat) < 192"

definition rune_count :: "string \<Rightarrow> nat" where
  "rune_count s = length (filter (\<lambda>c. \<not> is_continuation c) s)"

definition is_upper :: "char \<Rightarrow> bool" where
  "is_upper c \<longleftrightarrow> 65 \<le> (of_char c :: nat) \<and> (of_char c :: nat) \<le> 90"

definition is_lower :: "char \<Rightarrow> bool" where
  "is_lower c \<longleftrightarrow> 97 \<le> (of_char c :: nat) \<and> (of_char c :: nat) \<le> 122"

definition is_number :: "char \<Rightarrow> bool" where
  "is_number c \<longleftrightarrow> 48 \<le> (of_char c :: nat) \<and> (of_char c :: nat) \<le> 57"

definition is_hex_lower :: "char \<Rightarrow> bool" where
  "is_hex_lower c \<longleftrightarrow> is_number c \<or> 97 \<le> (of_char c :: nat) \<and> (of_char c :: nat) \<le> 102"

text \<open>The string before the first character that fails a test, and the rest.\<close>

definition span :: "(char \<Rightarrow> bool) \<Rightarrow> string \<Rightarrow> string \<times> string" where
  "span P s = (takeWhile P s, dropWhile P s)"

definition repo_char :: "char \<Rightarrow> bool" where
  "repo_char c \<longleftrightarrow> is_upper c \<or> is_lower c \<or> is_number c \<or> c \<in> {CHR ''.'', CHR ''_'', CHR ''-''}"

definition repo_pattern :: "string \<Rightarrow> bool" where
  "repo_pattern s =
     (case span repo_char s of
        (a, CHR ''/'' # b) \<Rightarrow> a \<noteq> [] \<and> b \<noteq> [] \<and> list_all repo_char b
      | _ \<Rightarrow> False)"

definition price_pattern :: "string \<Rightarrow> bool" where
  "price_pattern s =
     (case span is_number s of
        (a, []) \<Rightarrow> a \<noteq> []
      | (a, c # b) \<Rightarrow> a \<noteq> [] \<and> c = CHR ''.'' \<and> b \<noteq> [] \<and> list_all is_number b)"

definition edge_char :: "char \<Rightarrow> bool" where "edge_char c \<longleftrightarrow> is_lower c \<or> is_number c"

definition served_name_pattern :: "string \<Rightarrow> bool" where
  "served_name_pattern s \<longleftrightarrow>
     s \<noteq> [] \<and> edge_char (hd s) \<and> edge_char (last s) \<and>
     list_all (\<lambda>c. edge_char c \<or> c \<in> {CHR ''.'', CHR ''_'', CHR ''-''}) s"

definition image_pattern :: "string \<Rightarrow> bool" where
  "image_pattern s =
     (case span (\<lambda>c. c \<noteq> CHR ''@'') s of
        (name, rest) \<Rightarrow>
          name \<noteq> [] \<and> take 8 rest = ''@sha256:'' \<and>
          length (drop 8 rest) = 64 \<and> list_all is_hex_lower (drop 8 rest))"

definition initdata_char :: "char \<Rightarrow> bool" where
  "initdata_char c \<longleftrightarrow> is_upper c \<or> is_lower c \<or> is_number c \<or> c \<in> {CHR ''+'', CHR ''/'', CHR ''=''}"

definition initdata_pattern :: "string \<Rightarrow> bool" where
  "initdata_pattern s \<longleftrightarrow> s \<noteq> [] \<and> list_all initdata_char s"

subsection \<open>The markers\<close>

definition admitted_LocalRef :: "LocalRef \<Rightarrow> bool" where
  "admitted_LocalRef r \<longleftrightarrow> 1 \<le> rune_count (lr_Name r) \<and> rune_count (lr_Name r) \<le> 253"

definition admitted_SecretKeyRef :: "SecretKeyRef \<Rightarrow> bool" where
  "admitted_SecretKeyRef r \<longleftrightarrow> 1 \<le> rune_count (skr_Name r) \<and> rune_count (skr_Name r) \<le> 253"

definition admitted_EngineSpec :: "EngineSpec \<Rightarrow> bool" where
  "admitted_EngineSpec e \<longleftrightarrow>
     (es_Quantization e = [] \<or> es_Quantization e = ''fp8'') \<and>
     256 \<le> sint (es_MaxModelLen e) \<and> sint (es_MaxModelLen e) \<le> 1048576 \<and>
     1 \<le> sint (es_GPUMemoryUtilizationPercent e) \<and> sint (es_GPUMemoryUtilizationPercent e) \<le> 99"

definition admitted_WorkloadResources ::
    "(Quantity \<Rightarrow> string \<Rightarrow> bool) \<Rightarrow> WorkloadResources \<Rightarrow> bool" where
  "admitted_WorkloadResources at_most r \<longleftrightarrow>
     at_most (rp_Limit (wr_Memory r)) ''512Gi'' \<and> at_most (rp_Limit (wr_CPU r)) ''128'' \<and>
     1 \<le> sint (wr_GPUs r) \<and> sint (wr_GPUs r) \<le> 1"

definition admitted_LocalVolumeSpec :: "LocalVolumeSpec \<Rightarrow> bool" where
  "admitted_LocalVolumeSpec v \<longleftrightarrow> 1 \<le> rune_count (lv_LVName v)"

text \<open>
  \<open>has(self.existingClaim) != has(self.localVolume)\<close>: with a local volume there is no claim; without
  one the claim is present, but it may be the empty string, which no marker excludes.
\<close>

definition admitted_TrustedStoreSpec :: "TrustedStoreSpec \<Rightarrow> bool" where
  "admitted_TrustedStoreSpec s =
     (case ts_LocalVolume s of
        None \<Rightarrow> True
      | Some v \<Rightarrow> ts_ExistingClaim s = [] \<and> admitted_LocalVolumeSpec v)"

definition admitted_ProbeOverrides :: "ProbeOverrides \<Rightarrow> bool" where
  "admitted_ProbeOverrides p =
     (case po_ReadinessFailureThreshold p of
        None \<Rightarrow> True
      | Some t \<Rightarrow> 1 \<le> sint t \<and> sint t \<le> 1000)"

definition admitted_InferenceService ::
    "(Quantity \<Rightarrow> string \<Rightarrow> bool) \<Rightarrow> InferenceService \<Rightarrow> bool" where
  "admitted_InferenceService at_most i \<longleftrightarrow>
     admitted_LocalRef (iss_ModelRef (is_Spec i)) \<and>
     admitted_EngineSpec (iss_Engine (is_Spec i)) \<and>
     admitted_WorkloadResources at_most (iss_Resources (is_Spec i)) \<and>
     admitted_TrustedStoreSpec (st_TrustedStore (iss_Storage (is_Spec i))) \<and>
     (case iss_Probes (is_Spec i) of None \<Rightarrow> True | Some p \<Rightarrow> admitted_ProbeOverrides p)"

text \<open>An update keeps the reference to the model (\<open>self == oldSelf\<close>) and the object's key.\<close>

definition admitted_update :: "InferenceService \<Rightarrow> InferenceService \<Rightarrow> bool" where
  "admitted_update old new \<longleftrightarrow>
     iss_ModelRef (is_Spec new) = iss_ModelRef (is_Spec old) \<and> meta_key (is_Meta new) = meta_key (is_Meta old)"

definition admitted_HuggingFaceSource :: "HuggingFaceSource \<Rightarrow> bool" where
  "admitted_HuggingFaceSource hf \<longleftrightarrow>
     repo_pattern (hf_Repo hf) \<and>
     (case hf_TokenSecretRef hf of None \<Rightarrow> True | Some r \<Rightarrow> admitted_SecretKeyRef r)"

definition admitted_PricingSpec :: "PricingSpec \<Rightarrow> bool" where
  "admitted_PricingSpec p \<longleftrightarrow>
     (pr_PromptPerMTokens p = [] \<or> price_pattern (pr_PromptPerMTokens p)) \<and>
     (pr_CompletionPerMTokens p = [] \<or> price_pattern (pr_CompletionPerMTokens p)) \<and>
     pr_Currency p \<in> {''EUR'', ''USD''}"

definition admitted_CatalogSpec :: "CatalogSpec \<Rightarrow> bool" where
  "admitted_CatalogSpec c \<longleftrightarrow>
     1 \<le> rune_count (cat_DisplayName c) \<and> rune_count (cat_DisplayName c) \<le> 128 \<and>
     rune_count (cat_Description c) \<le> 2048 \<and>
     256 \<le> sint (cat_ContextLength c) \<and>
     list_all (\<lambda>x. x \<in> {ModalityText, ModalityImage}) (cat_InputModalities c) \<and>
     list_all (\<lambda>x. x \<in> {ModalityText, ModalityImage}) (cat_OutputModalities c) \<and>
     list_all (\<lambda>x. x \<in> {FeatureToolCalling, FeatureStructuredOutput}) (cat_Features c) \<and>
     rune_count (cat_License c) \<le> 64 \<and>
     (case cat_Pricing c of None \<Rightarrow> True | Some p \<Rightarrow> admitted_PricingSpec p)"

definition admitted_BrukModel :: "BrukModel \<Rightarrow> bool" where
  "admitted_BrukModel m \<longleftrightarrow>
     (case model_HuggingFace m of None \<Rightarrow> False | Some hf \<Rightarrow> admitted_HuggingFaceSource hf) \<and>
     (bms_ServedName (bm_Spec m) = [] \<or>
      served_name_pattern (bms_ServedName (bm_Spec m)) \<and> rune_count (bms_ServedName (bm_Spec m)) \<le> 63) \<and>
     admitted_CatalogSpec (bms_Catalog (bm_Spec m))"

definition admitted_BrukTenant :: "BrukTenant \<Rightarrow> bool" where
  "admitted_BrukTenant t \<longleftrightarrow>
     om_Name (bt_Meta t) = ''cluster'' \<and>
     rune_count (bts_DisplayName (bt_Spec t)) \<le> 128 \<and>
     1 \<le> rune_count (ic_NodeHostname (bts_Infrastructure (bt_Spec t))) \<and>
     image_pattern (ed_DefaultImage (bts_Engine (bt_Spec t))) \<and>
     initdata_pattern (cc_InitDataB64 (bts_Confidential (bt_Spec t)))"

subsection \<open>What admission gives the program\<close>

text \<open>C36: Admitted objects render. For a model and a tenant that passed the markers, rendering succeeds
  for every service, so the renderer's own error cannot occur; the image the pod runs is pinned by
  a SHA-256 digest.\<close>

theorem admitted_renders:
  assumes "admitted_BrukModel m" and "admitted_BrukTenant t"
  shows "\<exists>d co. renderDeployment i m (tenantConfig t) = Some (Inr d) \<and> ps_Containers (pod_of d) = [co] \<and>
      (\<exists>repo digest. co_Image co = repo @ ''@sha256:'' @ digest \<and> repo \<noteq> [] \<and>
         length digest = 64 \<and> list_all is_hex_lower digest)"
proof -
  have image: "image_pattern (cfg_DefaultImage (tenantConfig t))" and blob: "cfg_InitDataB64 (tenantConfig t) \<noteq> []"
    using assms(2) by (simp_all add: admitted_BrukTenant_def tenantConfig_def initdata_pattern_def)
  let ?img = "cfg_DefaultImage (tenantConfig t)"
  let ?repo = "takeWhile (\<lambda>c. c \<noteq> CHR ''@'') ?img" and ?rest = "dropWhile (\<lambda>c. c \<noteq> CHR ''@'') ?img"
  from image have parts: "?repo \<noteq> []" "take 8 ?rest = ''@sha256:''" "length (drop 8 ?rest) = 64"
    "list_all is_hex_lower (drop 8 ?rest)" by (simp_all add: image_pattern_def span_def)
  have "?img = ?repo @ take 8 ?rest @ drop 8 ?rest" by simp
  then have pinned: "?img = ?repo @ ''@sha256:'' @ drop 8 ?rest" by (simp only: parts(2))
  have source: "model_HuggingFace m \<noteq> None"
    using assms(1) unfolding admitted_BrukModel_def by (cases "model_HuggingFace m") simp_all
  from parts(1) have "?img \<noteq> []" by auto
  with source blob show ?thesis
  proof (cases rule: renderDeployment_cases [of m i "tenantConfig t"])
    case (rendered co vols)
    have "co_Image co = ?img" by (rule container_fields(2) [OF rendered(4)])
    with rendered(6) pinned parts show ?thesis by (metis deploymentOf_fields(11))
  qed simp_all
qed

theorem admitted_renders_witness:
  "\<exists>d. renderDeployment prodService prodModel (tenantConfig prodTenant) = Some (Inr d)"
proof -
  have "repo_pattern ''mistralai/Mistral-Small-3.1-24B-Instruct-2503''"
    by (simp add: repo_pattern_def span_def repo_char_def is_upper_def is_lower_def is_number_def)
  then have "admitted_BrukModel prodModel"
    by (simp add: admitted_BrukModel_def prodModel_def admitted_HuggingFaceSource_def admitted_SecretKeyRef_def
        served_name_pattern_def edge_char_def is_lower_def is_number_def rune_count_def is_continuation_def
        admitted_CatalogSpec_def)
  moreover have "admitted_BrukTenant prodTenant"
    by (simp add: admitted_BrukTenant_def prodTenant_def testConfig_def image_pattern_def span_def
        is_hex_lower_def is_number_def initdata_pattern_def initdata_char_def is_upper_def is_lower_def
        rune_count_def is_continuation_def zero_ObjectMeta_def)
  ultimately show ?thesis using admitted_renders [of prodModel prodTenant prodService] by blast
qed

lemma takeWhile_not_equals:
  "takeWhile (\<lambda>c. c \<noteq> CHR ''='') (''--model='' @ s) = ''--model''"
  "takeWhile (\<lambda>c. c \<noteq> CHR ''='') (''--served-model-name='' @ s) = ''--served-model-name''"
  "takeWhile (\<lambda>c. c \<noteq> CHR ''='') (''--quantization='' @ s) = ''--quantization''"
  "takeWhile (\<lambda>c. c \<noteq> CHR ''='') (''--max-model-len='' @ s) = ''--max-model-len''"
  "takeWhile (\<lambda>c. c \<noteq> CHR ''='') (''--gpu-memory-utilization=0.'' @ s) = ''--gpu-memory-utilization''"
  "takeWhile (\<lambda>c. c \<noteq> CHR ''='') (''--host=0.0.0.0'') = ''--host''"
  "takeWhile (\<lambda>c. c \<noteq> CHR ''='') (''--port='' @ s) = ''--port''"
  by simp_all

text \<open>The audited surface. The flags of an admitted service's engine are always the same six, in
  order, with the quantization flag between them only as \<open>--quantization=fp8\<close>; the GPU memory
  fraction is printed with two decimals that say exactly the percentage, between 0.01 and 0.99.\<close>

theorem admitted_engine_args:
  assumes "admitted_EngineSpec (iss_Engine (is_Spec i))" and "engineArgs i m = Some args"
  shows "map (takeWhile (\<lambda>c. c \<noteq> CHR ''='')) args =
      [''--model'', ''--served-model-name'']
      @ (if es_Quantization (iss_Engine (is_Spec i)) = [] then [] else [''--quantization''])
      @ [''--max-model-len'', ''--gpu-memory-utilization'', ''--host'', ''--port''] \<and>
    (es_Quantization (iss_Engine (is_Spec i)) \<noteq> [] \<longleftrightarrow> ''--quantization=fp8'' \<in> set args) \<and>
    (\<exists>digits. ''--gpu-memory-utilization=0.'' @ digits \<in> set args \<and> length digits = 2 \<and>
       int (read_nat digits) = sint (es_GPUMemoryUtilizationPercent (iss_Engine (is_Spec i))) \<and>
       1 \<le> read_nat digits \<and> read_nat digits \<le> 99)"
proof -
  let ?e = "iss_Engine (is_Spec i)"
  let ?p = "sint (es_GPUMemoryUtilizationPercent ?e)"
  from assms(1) have p: "1 \<le> ?p" "?p \<le> 99" and q: "es_Quantization ?e = [] \<or> es_Quantization ?e = ''fp8''"
    by (simp_all add: admitted_EngineSpec_def)
  from assms(2) obtain hf :: HuggingFaceSource where args: "args = (''--model='' @ hf_Repo hf) # (''--served-model-name='' @ ServedModelName m)
        # (if es_Quantization ?e = [] then [] else [''--quantization='' @ es_Quantization ?e])
        @ [''--max-model-len='' @ fmt_d (sint (es_MaxModelLen ?e)), ''--gpu-memory-utilization=0.'' @ fmt_02d ?p,
           ''--host=0.0.0.0'', ''--port='' @ fmt_d (sint servingPort)]"
    unfolding engineArgs_eq by blast
  have "length (fmt_02d ?p) = 2" using p by (intro length_fmt_02d) simp_all
  moreover have "read_nat (fmt_02d ?p) = nat ?p" using p by (intro read_fmt_02d) simp
  moreover have "''--gpu-memory-utilization=0.'' @ fmt_02d ?p \<in> set args" unfolding args by simp
  ultimately have fraction: "\<exists>digits. ''--gpu-memory-utilization=0.'' @ digits \<in> set args \<and> length digits = 2 \<and>
       int (read_nat digits) = ?p \<and> 1 \<le> read_nat digits \<and> read_nat digits \<le> 99"
    using p by (intro exI [of _ "fmt_02d ?p"]) auto
  have "es_Quantization ?e \<noteq> [] \<longleftrightarrow> ''--quantization=fp8'' \<in> set args"
    unfolding args using q by auto
  moreover have "map (takeWhile (\<lambda>c. c \<noteq> CHR ''='')) args =
      [''--model'', ''--served-model-name'']
      @ (if es_Quantization ?e = [] then [] else [''--quantization''])
      @ [''--max-model-len'', ''--gpu-memory-utilization'', ''--host'', ''--port'']"
    unfolding args by (simp only: list.map map_append takeWhile_not_equals if_distrib) simp
  ultimately show ?thesis using fraction by blast
qed

theorem admitted_engine_args_witness:
  "\<exists>digits. ''--gpu-memory-utilization=0.'' @ digits \<in> set (co_Args goldenContainer) \<and> int (read_nat digits) = 90"
proof -
  have "admitted_EngineSpec (iss_Engine (is_Spec prodService))"
    by (simp add: admitted_EngineSpec_def prod_fields)
  from admitted_engine_args [OF this engineArgs_prod] show ?thesis by (auto simp: prod_fields)
qed

lemma b64_char_admitted [simp]: "v < 64 \<Longrightarrow> initdata_char (b64_char v)"
  by (auto simp: b64_char_def initdata_char_def is_upper_def is_lower_def is_number_def)

lemma padding_admitted [simp]: "initdata_char (CHR ''='')"
  by (simp add: initdata_char_def)

lemma b64_encode_admitted: "list_all initdata_char (b64_encode bs)"
  by (induction bs rule: b64_encode.induct) simp_all

text \<open>Every blob of the build script is admitted, and the unsubstituted placeholder is not. The
  encoding of any non-empty payload passes the pattern of \<open>initDataB64\<close>, while the string that
  stands in the tenant's Git before Flux substitutes it fails it, as the status message says.\<close>

theorem initdata_pattern_encode:
  "(initdata_pattern (b64_encode bs) \<longleftrightarrow> bs \<noteq> []) \<and> \<not> initdata_pattern ''${INITDATA_B64}''"
proof -
  have "b64_encode bs = [] \<longleftrightarrow> bs = []" by (cases bs rule: b64_encode.cases) simp_all
  then show ?thesis
    by (auto simp: initdata_pattern_def b64_encode_admitted initdata_char_def is_upper_def is_lower_def is_number_def)
qed

text \<open>The same service with another claim.\<close>

definition set_Claim :: "string \<Rightarrow> InferenceService \<Rightarrow> InferenceService" where
  "set_Claim c i = i\<lparr>is_Spec := (is_Spec i)\<lparr>iss_Storage := (iss_Storage (is_Spec i))
     \<lparr>st_TrustedStore := \<lparr>ts_ExistingClaim = c, ts_LocalVolume = isvc_LocalVolume i\<rparr>\<rparr>\<rparr>\<rparr>"

lemma set_Claim_sels [simp]:
  "isvc_Claim (set_Claim c i) = c" "isvc_LocalVolume (set_Claim c i) = isvc_LocalVolume i"
  "iss_Engine (is_Spec (set_Claim c i)) = iss_Engine (is_Spec i)"
  "iss_ModelRef (is_Spec (set_Claim c i)) = iss_ModelRef (is_Spec i)"
  "iss_Resources (is_Spec (set_Claim c i)) = iss_Resources (is_Spec i)"
  "iss_Probes (is_Spec (set_Claim c i)) = iss_Probes (is_Spec i)"
  by (simp_all add: set_Claim_def)



end
