(* ===== verification/Names.thy ===== *)
theory Names
  imports Admission
begin

text \<open>
  The bounds on names. Kubernetes checks the names of objects: the name of a custom resource is a
  DNS subdomain (RFC 1123), that of a Service a DNS label (RFC 1035), the value of a label is at
  most 63 characters. \<open>internal/render\<close> makes the name of the Service and the value of the \<open>app\<close>
  label out of the name of the \<open>InferenceService\<close>; here is for which names the results pass.
\<close>

subsection \<open>The rules\<close>

definition dns_char :: "char \<Rightarrow> bool" where
  "dns_char c \<longleftrightarrow> edge_char c \<or> c = CHR ''-''"

definition dns_shape :: "string \<Rightarrow> bool" where
  "dns_shape s \<longleftrightarrow> s \<noteq> [] \<and> list_all dns_char s \<and> edge_char (hd s) \<and> edge_char (last s)"

fun split_dots :: "string \<Rightarrow> string list" where
  "split_dots [] = [ [] ]"
| "split_dots (c # s) =
     (if c = CHR ''.'' then [] # split_dots s
      else (c # hd (split_dots s)) # tl (split_dots s))"

definition dns1123_subdomain :: "string \<Rightarrow> bool" where
  "dns1123_subdomain s \<longleftrightarrow> length s \<le> 253 \<and> list_all dns_shape (split_dots s)"

definition dns1035_label :: "string \<Rightarrow> bool" where
  "dns1035_label s \<longleftrightarrow> length s \<le> 63 \<and> dns_shape s \<and> is_lower (hd s)"

definition label_char :: "char \<Rightarrow> bool" where
  "label_char c \<longleftrightarrow> edge_char c \<or> is_upper c"

definition label_value :: "string \<Rightarrow> bool" where
  "label_value s \<longleftrightarrow> length s \<le> 63 \<and>
     (s = [] \<or> label_char (hd s) \<and> label_char (last s) \<and>
      list_all (\<lambda>c. label_char c \<or> c \<in> {CHR ''-'', CHR ''_'', CHR ''.''}) s)"

lemma split_dots_not_Nil [simp]: "split_dots s \<noteq> []"
  by (cases s rule: split_dots.cases) auto

lemma join_dots: "concat (map (\<lambda>l. CHR ''.'' # l) (split_dots s)) = CHR ''.'' # s"
proof (induction s)
  case (Cons c s)
  then show ?case by (cases "split_dots s") auto
qed simp

lemma split_dots_single: "CHR ''.'' \<notin> set s \<Longrightarrow> split_dots s = [s]"
  by (induction s) auto

lemma split_dots_hd: "hd (split_dots s) = takeWhile (\<lambda>c. c \<noteq> CHR ''.'') s"
  by (induction s) auto

lemma split_dots_blank: "split_dots s = [ [] ] \<longleftrightarrow> s = []"
  by (cases s rule: split_dots.cases) auto

lemma split_dots_last: "last (split_dots s) \<noteq> [] \<Longrightarrow> last (last (split_dots s)) = last s"
proof (induction s)
  case (Cons c s)
  then show ?case using split_dots_blank [of s] by (cases "split_dots s") (auto split: if_splits)
qed simp

text \<open>A subdomain is not empty, starts and ends with a letter or digit, and has no other characters than these, dashes and dots.\<close>

lemma subdomain_shape:
  assumes "dns1123_subdomain s"
  shows "s \<noteq> []" "edge_char (hd s)" "edge_char (last s)" "list_all (\<lambda>c. dns_char c \<or> c = CHR ''.'') s"
proof -
  have shapes: "list_all dns_shape (split_dots s)" using assms by (simp add: dns1123_subdomain_def)
  then have first: "dns_shape (hd (split_dots s))" and final: "dns_shape (last (split_dots s))"
    by (simp_all add: list_all_iff)
  from first have hd: "takeWhile (\<lambda>c. c \<noteq> CHR ''.'') s \<noteq> []" "edge_char (hd (takeWhile (\<lambda>c. c \<noteq> CHR ''.'') s))"
    by (simp_all add: split_dots_hd dns_shape_def)
  then show "s \<noteq> []" "edge_char (hd s)" by (cases s; simp split: if_splits)+
  from final show "edge_char (last s)" by (auto simp: dns_shape_def split_dots_last)
  have "list_all (\<lambda>c. dns_char c \<or> c = CHR ''.'') (concat (map (\<lambda>l. CHR ''.'' # l) (split_dots s)))"
    using shapes by (induction "split_dots s") (auto simp: list_all_iff dns_shape_def)
  then show "list_all (\<lambda>c. dns_char c \<or> c = CHR ''.'') s" by (simp add: join_dots)
qed

lemma dns_char_dot: "\<not> dns_char (CHR ''.'')"
  by (simp add: dns_char_def edge_char_def is_lower_def is_number_def)

subsection \<open>The rendered names\<close>

lemma service_name_label:
  assumes "dns1123_subdomain (isvc_Name isvc)"
  shows "dns1035_label (ServiceName isvc) \<longleftrightarrow>
     length (isvc_Name isvc) \<le> 59 \<and> CHR ''.'' \<notin> set (isvc_Name isvc) \<and> is_lower (hd (isvc_Name isvc))"
proof -
  note shape = subdomain_shape [OF assms]
  have suffix: "list_all dns_char ''-svc''" "edge_char (last ''-svc'')"
    by (simp_all add: dns_char_def edge_char_def is_lower_def is_number_def)
  have "list_all dns_char (isvc_Name isvc) \<longleftrightarrow> CHR ''.'' \<notin> set (isvc_Name isvc)"
    unfolding list_all_iff using shape(4) [unfolded list_all_iff] dns_char_dot by blast
  moreover have "dns_shape (ServiceName isvc) \<longleftrightarrow> list_all dns_char (isvc_Name isvc)"
    using shape(1,2) suffix by (simp add: dns_shape_def ServiceName_def)
  moreover have "hd (ServiceName isvc) = hd (isvc_Name isvc)" "length (ServiceName isvc) = length (isvc_Name isvc) + 4"
    using shape(1) by (simp_all add: ServiceName_def)
  ultimately show ?thesis by (auto simp: dns1035_label_def)
qed

lemma app_label_value:
  assumes "dns1123_subdomain (isvc_Name isvc)"
  shows "label_value (isvc_Name isvc) \<longleftrightarrow> length (isvc_Name isvc) \<le> 63"
  using subdomain_shape [OF assms]
  by (auto simp: label_value_def label_char_def list_all_iff dns_char_def)

text \<open>C23: The bounds on a service's name. For an \<open>InferenceService\<close> whose name the API server admits (a
  DNS subdomain of at most 253 characters), the Service that is rendered has a valid name exactly
  when the service's name is at most 59 characters long, has no dot and starts with a letter; the
  Deployment has a valid name always, and the labels of its pods are valid exactly up to 63
  characters.\<close>

theorem rendered_name_bounds:
  assumes "dns1123_subdomain (isvc_Name isvc)"
  shows "(dns1035_label (om_Name (svc_Meta (renderService isvc))) \<longleftrightarrow>
       length (isvc_Name isvc) \<le> 59 \<and> CHR ''.'' \<notin> set (isvc_Name isvc) \<and> is_lower (hd (isvc_Name isvc))) \<and>
     (\<forall>d. renderDeployment isvc model cfg = Some (Inr d) \<longrightarrow>
        dns1123_subdomain (om_Name (d_Meta d)) \<and>
        ((\<forall>v \<in> ran (pt_Labels (ds_Template (d_Spec d))). label_value v) \<longleftrightarrow> length (isvc_Name isvc) \<le> 63))"
proof (intro conjI allI impI)
  show "dns1035_label (om_Name (svc_Meta (renderService isvc))) \<longleftrightarrow>
       length (isvc_Name isvc) \<le> 59 \<and> CHR ''.'' \<notin> set (isvc_Name isvc) \<and> is_lower (hd (isvc_Name isvc))"
    using service_name_label [OF assms] by (simp add: renderService_fields)
next
  fix d assume "renderDeployment isvc model cfg = Some (Inr d)"
  then obtain co vols where d: "d = deploymentOf isvc cfg co vols" by (rule rendered_deploymentOf)
  show "dns1123_subdomain (om_Name (d_Meta d))" using assms by (simp add: d deploymentOf_def Let_def)
  show "(\<forall>v \<in> ran (pt_Labels (ds_Template (d_Spec d))). label_value v) \<longleftrightarrow> length (isvc_Name isvc) \<le> 63"
    using app_label_value [OF assms] by (simp add: d deploymentOf_def Let_def)
qed

theorem rendered_name_bounds_witness:
  "dns1035_label (om_Name (svc_Meta (renderService prodService))) \<and>
   label_value (isvc_Name prodService) \<and> isvc_Name prodService = ''vllm-cc''"
proof -
  have "dns1123_subdomain (isvc_Name prodService)" unfolding prod_fields by code_simp
  from rendered_name_bounds [OF this, of prodModel testConfig] show ?thesis
    by (simp add: prod_fields is_lower_def render_prod goldenDeployment_def)
qed

subsection \<open>A name the Service cannot have\<close>

text \<open>C22: A service whose name is out of these bounds is never configured, and says nothing. When the API server
  refuses a Service whose name is no DNS label, a run for such an \<open>InferenceService\<close> writes no
  status in which \<open>Configured\<close> or \<open>Ready\<close> is true; and when it gets as far as its Deployment,
  it applies that Deployment, ends with an error and writes no status at all, so that nothing in
  the status tells that a workload runs without its Service.\<close>

theorem unservable_name_unreported:
  assumes "status_conditions (k_setStatusCondition K)"
    and "controller_references (k_isControlledBy K) (k_setControllerReference K)"
    and refuses: "\<forall>sv w1. \<not> dns1035_label (om_Name (svc_Meta sv)) \<longrightarrow> (\<exists>e. fst (k_applyService K sv w1) = Inl e)"
    and subdomain: "dns1123_subdomain (isvc_Name isvc)"
    and outside: "59 < length (isvc_Name isvc) \<or> CHR ''.'' \<in> set (isvc_Name isvc) \<or> \<not> is_lower (hd (isvc_Name isvc))"
    and read: "fst (k_getInferenceService K req w) = Inr isvc"
    and run: "run (ReconcileISVC K req) w = (r, w', cs)"
  shows "(\<forall>i. UpdateInferenceServiceStatus i \<in> set cs \<longrightarrow>
       \<not> condition_true i ConditionConfigured \<and> \<not> condition_true i ConditionReady) \<and>
     ((\<exists>d. ApplyDeployment d \<in> set cs) \<longrightarrow>
       (\<forall>i. UpdateInferenceServiceStatus i \<notin> set cs) \<and> (\<exists>err. r = Returned (Some err)))"
proof -
  have refused: False if "ownedService K isvc = Inr sv" "k_applyService K sv w2 = (Inr sresp, w3)" for sv w2 sresp w3
  proof -
    from that(1) obtain m where "k_setControllerReference K (is_Meta isvc) (svc_Meta (renderService isvc)) = Inr m"
      "svc_Meta sv = m" by (rule ownedService_parts)
    then have "om_Name (svc_Meta sv) = ServiceName isvc"
      using controller_references.set_key(1) [OF assms(2)] by (simp add: renderService_fields)
    with service_name_label [OF subdomain] outside have "\<not> dns1035_label (om_Name (svc_Meta sv))" by auto
    with refuses that(2) show False by (metis fst_conv Inl_Inr_False)
  qed
  have failed: "\<not> condition_true i ConditionConfigured \<and> \<not> condition_true i ConditionReady"
    "ApplyDeployment d \<notin> set cs" if "UpdateInferenceServiceStatus i \<in> set cs" for i d
  proof -
    from run that have "\<not> condition_true i ConditionConfigured \<and> \<not> condition_true i ConditionReady \<and>
        ApplyDeployment d \<notin> set cs"
    proof (cases rule: status_write_cases)
      case (failed reason msg isvc')
      then show ?thesis using failed_true [OF assms(1)] by simp
    next
      case (ready isvc' tenant model d' resp w1 w2 sv sresp w3)
      with cleared_service [OF ready(1)] read have "isvc' = isvc" by simp
      with ready(5,7) refused show ?thesis by blast
    qed
    then show "\<not> condition_true i ConditionConfigured \<and> \<not> condition_true i ConditionReady"
      "ApplyDeployment d \<notin> set cs" by simp_all
  qed
  have "\<exists>err. r = Returned (Some err)" if "ApplyDeployment d \<in> set cs" for d
    using run
  proof (cases rule: reconcile_run_cases)
    case (failed isvc reason msg reads e)
    with that plain_read_not_write show ?thesis by auto
  next
    case (applied isvc' tenant model d' resp w1 w2 sv e sresp w3)
    with cleared_service [OF applied(1)] read have "isvc' = isvc" by simp
    with applied(4,7) refused show ?thesis by blast
  qed (use that plain_read_not_write in auto)
  with failed show ?thesis by blast
qed

text \<open>A server that checks the names of Services, and a service \<open>24b-chat\<close> on it.\<close>

definition naming_kube :: "cluster kube" where
  "naming_kube = ref_kube
     \<lparr>k_applyService := \<lambda>sv w. if dns1035_label (om_Name (svc_Meta sv)) then k_applyService ref_kube sv w
        else (Inl (StatusError ''Invalid'' ''metadata.name: Invalid value''), w)\<rparr>"

definition chatService :: InferenceService where
  "chatService = prodService\<lparr>is_Meta := (is_Meta prodService)\<lparr>om_Name := ''24b-chat''\<rparr>\<rparr>"

definition chatCluster :: cluster where
  "chatCluster = prodCluster\<lparr>cl_InferenceServices := [chatService]\<rparr>"

definition chatKey :: NamespacedName where
  "chatKey = \<lparr>nn_Namespace = ''default'', nn_Name = ''24b-chat''\<rparr>"

lemma chat_fields:
  "isvc_Name chatService = ''24b-chat''" "isvc_Namespace chatService = ''default''"
  "is_Spec chatService = is_Spec prodService" "meta_key (is_Meta chatService) = chatKey"
  by (simp_all add: chatService_def prod_fields meta_key_def chatKey_def)

lemma chat_name: "dns1123_subdomain (isvc_Name chatService) \<and> \<not> is_lower (hd (isvc_Name chatService))"
  unfolding chat_fields by code_simp

lemma chat_reads:
  "k_getInferenceService naming_kube chatKey chatCluster = (Inr chatService, chatCluster)"
  "k_getBrukTenant naming_kube tenantKey chatCluster = (Inr prodTenant, chatCluster)"
  "k_getBrukModel naming_kube (modelKey chatService) chatCluster = (Inr prodModel, chatCluster)"
  by (simp_all add: naming_kube_def ref_calls chatCluster_def chat_fields modelKey_def prod_fields)

lemma chat_lists:
  "k_listInferenceServices naming_kube (Some ''default'') chatCluster = (Inr [chatService], chatCluster)"
  "k_listDeployments naming_kube (Some ''default'') chatCluster = (Inr [], chatCluster)"
  "k_listPods naming_kube (Some ''default'') chatCluster = (Inr [], chatCluster)"
  by (simp_all add: naming_kube_def ref_calls chatCluster_def chat_fields)

lemma chat_guard:
  "run_state (trustedStoreConflict naming_kube chatService) \<lparr>world = chatCluster, calls = cs\<rparr> =
     (Inr [], \<lparr>world = chatCluster, calls = cs @ guard_calls chatService\<rparr>)"
  by (simp add: trustedStoreConflict_def deploymentGuard_def podGuard_def client_call_defs go_simps chat_fields
      chat_lists guard_calls_def prod_fields)

definition chatDeployment :: Deployment where
  "chatDeployment = deploymentOf chatService testConfig goldenContainer goldenVolumes"

lemma chat_render: "renderDeployment chatService prodModel testConfig = Some (Inr chatDeployment)"
proof -
  have "engineArgs chatService m = engineArgs prodService m" "resourceRequirements chatService = resourceRequirements prodService"
    "failureThreshold chatService = failureThreshold prodService" for m
    by (simp_all add: engineArgs_def resourceRequirements_def failureThreshold_def chat_fields prod_fields)
  then have parts: "container chatService prodModel img True = container prodService prodModel img True"
    "volumes chatService True = volumes prodService True" for img
    by (simp_all add: container_def volumes_def modelsVolume_def chat_fields)
  have "model_HuggingFace prodModel \<noteq> None" "cfg_DefaultImage testConfig \<noteq> []"
    "cfg_InitDataB64 testConfig \<noteq> []" "(isvc_WeightsCache chatService \<noteq> None) = True"
    by (simp_all add: prodModel_fields prod_fields chat_fields testConfig_def)
  then show ?thesis
    by (cases rule: renderDeployment_cases [of prodModel chatService testConfig])
      (simp_all add: parts container_prod volumes_prod chatDeployment_def)
qed

lemma chat_gai:
  "run_state (applyGaiConfigMap naming_kube chatService) \<lparr>world = chatCluster, calls = cs\<rparr> =
     (None, \<lparr>world = chatCluster\<lparr>cl_ConfigMaps := [gaiObject chatService]\<rparr>, calls = cs @ gai_calls chatService\<rparr>)"
  by (simp add: applyGaiConfigMap_def client_call_defs go_simps chat_fields prod_fields gai_calls_def naming_kube_def
      ref_calls chatCluster_def Let_def gaiObject_refs)

lemma chat_deployments: "cl_Deployments chatCluster = []"
  by (simp add: chatCluster_def)

lemma chat_apply:
  assumes "om_OwnerReferences (d_Meta d) = [ref]" and "cl_Deployments w = []"
  shows "k_applyDeployment naming_kube d w = (Inr d, w\<lparr>cl_Deployments := [d]\<rparr>)"
  using assms by (simp add: naming_kube_def ref_calls Let_def)

text \<open>The run applies the Deployment and ends with the server's refusal of the Service.\<close>

lemma chat_run:
  "\<exists>d. ApplyDeployment d \<in> set (snd (snd (run (ReconcileISVC naming_kube chatKey) chatCluster)))"
proof -
  have "specProblem chatService prodModel = None" by (simp add: specProblem_def chat_fields prod_fields prodModel_fields)
  moreover obtain d where d: "ownedDeployment naming_kube chatService chatDeployment = Inr d"
    "om_OwnerReferences (d_Meta d) = [controller_ref (is_Meta chatService)]"
    by (simp add: ownedDeployment_def chatDeployment_def deploymentOf_def naming_kube_def ref_setControllerReference_def
        Let_def the_controller_def chat_fields chatService_def prod_metas zero_ObjectMeta_def)
  moreover obtain sv where sv: "ownedService naming_kube chatService = Inr sv" "om_Name (svc_Meta sv) = ServiceName chatService"
    by (simp add: ownedService_def renderService_def naming_kube_def ref_setControllerReference_def
        Let_def the_controller_def chat_fields chatService_def prod_metas zero_ObjectMeta_def)
  moreover have "\<not> dns1035_label (ServiceName chatService)"
    using chat_name service_name_label [of chatService] by simp
  then have "k_applyService naming_kube sv w = (Inl (StatusError ''Invalid'' ''metadata.name: Invalid value''), w)" for w
    by (simp add: naming_kube_def sv(2))
  ultimately have "ApplyDeployment d \<in> set (snd (snd (run (ReconcileISVC naming_kube chatKey) chatCluster)))"
    by (simp add: run_def ReconcileISVC_def reconcileTenantConfig_def reconcileModel_def reconcileChecked_def
        client_call_defs go_simps chat_reads chat_guard reconcileApply_def prod_metas chat_gai chat_render
        applyOwnedDeployment_def chat_apply [OF d(2)] chat_deployments applyServiceAndStatus_def applyOwnedService_def)
  then show ?thesis ..
qed

theorem unservable_name_unreported_witness:
  "\<exists>r w' cs d. run (ReconcileISVC naming_kube chatKey) chatCluster = (r, w', cs) \<and> ApplyDeployment d \<in> set cs \<and>
     (\<forall>i. UpdateInferenceServiceStatus i \<notin> set cs) \<and> (\<exists>err. r = Returned (Some err))"
proof -
  obtain d r w' cs where run: "run (ReconcileISVC naming_kube chatKey) chatCluster = (r, w', cs)" "ApplyDeployment d \<in> set cs"
    using chat_run by (metis prod.collapse)
  have "status_conditions (k_setStatusCondition naming_kube)"
    "controller_references (k_isControlledBy naming_kube) (k_setControllerReference naming_kube)"
    using ref_sc.status_conditions_axioms ref_cr.controller_references_axioms by (simp_all add: naming_kube_def)
  moreover have "\<forall>sv w1. \<not> dns1035_label (om_Name (svc_Meta sv)) \<longrightarrow> (\<exists>e. fst (k_applyService naming_kube sv w1) = Inl e)"
    by (simp add: naming_kube_def)
  moreover have "fst (k_getInferenceService naming_kube chatKey chatCluster) = Inr chatService" by (simp add: chat_reads)
  ultimately show ?thesis
    using unservable_name_unreported [OF _ _ _ _ _ _ run(1), of chatService] chat_name run by blast
qed

end
