(* ===== verification/Convergence.thy ===== *)
theory Convergence
  imports Operator Verdict
begin

text \<open>
  Level-triggered reconciliation: a reconciler is called again and again for the same object, so
  a second call must find nothing to do. On the reference server, with nobody else acting, a run
  of each of the three reconcilers is idempotent in the strongest sense: repeated in the world it
  leaves, it makes the same calls with the same arguments, ends with the same result, and leaves
  that world unchanged.
\<close>

subsection \<open>Writes of the reference server are idempotent\<close>

lemma put_to_idem: "(\<And>x. f (f x) = f x) \<Longrightarrow> put_to meta (put_to meta xs key f) key f = put_to meta xs key f"
  by (simp add: put_to_def)

lemma get_put_to:
  assumes "get_from meta xs key = Inr x" and "\<And>y. meta_key (meta (f y)) = meta_key (meta y)"
  shows "get_from meta (put_to meta xs key f) key = Inr (f x)"
proof -
  from assms(1) have "List.find (\<lambda>x. meta_key (meta x) = key) xs = Some x"
    by (simp add: get_from_def split: option.splits)
  then have "List.find (\<lambda>x. meta_key (meta x) = key) (put_to meta xs key f) = Some (f x)"
    using assms(2) unfolding put_to_def by (induction xs) (auto split: if_splits)
  then show ?thesis by (simp add: get_from_def)
qed

lemma apply_to_idem:
  assumes "apply_to meta merge xs new = Inr (res, ys)"
    and "\<And>old. meta_key (meta (merge old new)) = meta_key (meta old)"
    and "\<And>old. merge (merge old new) new = merge old new" and "merge new new = new"
  shows "apply_to meta merge ys new = Inr (res, ys)"
proof -
  let ?P = "\<lambda>x. meta_key (meta x) = meta_key (meta new)"
  show ?thesis
  proof (cases "List.find ?P xs")
    case None
    with assms(1) have y: "res = new" "ys = xs @ [new]" "one_controller_at_most (meta new)"
      by (auto simp: apply_to_def has_key_def Let_def split: if_splits)
    from None have "put_to meta xs (meta_key (meta new)) (\<lambda>_. new) = xs"
      unfolding put_to_def find_None_set by (simp add: map_idI)
    with None y assms(4) show ?thesis
      unfolding y(1,2) by (simp add: apply_to_def has_key_def Let_def find_append put_to_def)
  next
    case (Some old)
    with assms(1) have y: "res = merge old new" "ys = put_to meta xs (meta_key (meta new)) (\<lambda>_. res)"
      "one_controller_at_most (meta res)"
      by (auto simp: apply_to_def has_key_def Let_def split: if_splits)
    have key: "?P res" using find_Some_set [OF Some] assms(2) y(1) by simp
    then have "List.find ?P ys = Some res"
      using Some unfolding y(2) put_to_def by (induction xs) (auto split: if_splits)
    with y assms(3) show ?thesis
      by (simp add: apply_to_def has_key_def Let_def put_to_idem)
  qed
qed

lemma merge_refs_idem: "merge_refs (merge_refs old new) new = merge_refs old new" "merge_refs new new = new"
  by (simp_all add: merge_refs_def filter_empty_conv)

lemma map_add_self: "m ++ m = m"
  by (rule ext) (simp add: map_add_def split: option.split)

lemma map_add_again: "(m ++ n) ++ n = m ++ n"
  by (simp only: map_add_assoc [symmetric] map_add_self)

lemma merge_meta_idem:
  "merge_meta (merge_meta old new) new = merge_meta old new" "merge_meta new new = new"
  "meta_key (merge_meta old new) = meta_key old"
  by (simp_all add: merge_meta_def merge_refs_idem map_add_self map_add_again meta_key_def)

lemma apply_again:
  "apply_to d_Meta merge_Deployment ds d = Inr (d', ds') \<Longrightarrow> apply_to d_Meta merge_Deployment ds' d = Inr (d', ds')"
  "apply_to svc_Meta merge_Service ss sv = Inr (sv', ss') \<Longrightarrow> apply_to svc_Meta merge_Service ss' sv = Inr (sv', ss')"
  "apply_to cm_Meta merge_ConfigMap cms cm = Inr (cm', cms') \<Longrightarrow>
    apply_to cm_Meta merge_ConfigMap cms' cm = Inr (cm', cms')"
  by (erule apply_to_idem; simp add: merge_Deployment_def merge_Service_def merge_ConfigMap_def
      merge_meta_idem map_add_self map_add_again)+

subsection \<open>Statuses are idempotent\<close>

lemma ref_set_found: "findCondition cs (c_Type c) = Some c \<Longrightarrow> ref_setStatusCondition cs c = cs"
  unfolding findCondition_def by (induction cs) (auto split: if_splits)

text \<open>Several conditions of different types, one after the other.\<close>

primrec set_all :: "Condition list \<Rightarrow> Condition list \<Rightarrow> Condition list" where
  "set_all cs [] = cs"
| "set_all cs (c # news) = set_all (ref_setStatusCondition cs c) news"

lemma find_set_all:
  "distinct (map c_Type news) \<Longrightarrow> findCondition (set_all cs news) t =
     (case List.find (\<lambda>c. c_Type c = t) news of Some c \<Rightarrow> Some c | None \<Rightarrow> findCondition cs t)"
proof (induction news arbitrary: cs)
  case (Cons c news)
  have "List.find (\<lambda>c'. c_Type c' = c_Type c) news = None" 
    using Cons.prems unfolding find_None_set by (metis distinct.simps(2) image_eqI list.simps(9) set_map)
  with Cons show ?case by (cases "t = c_Type c") (simp_all add: ref_sc.find_set split: option.split)
qed simp

lemma set_all_found: "list_all (\<lambda>c. findCondition cs (c_Type c) = Some c) news \<Longrightarrow> set_all cs news = cs"
  by (induction news) (simp_all add: ref_set_found)

lemma set_all_again:
  assumes "distinct (map c_Type news)"
  shows "set_all (set_all cs news) news = set_all cs news"
proof (rule set_all_found)
  have "List.find (\<lambda>c'. c_Type c' = c_Type c) news = Some c" if "c \<in> set news" for c
    using assms that by (induction news) auto
  then show "list_all (\<lambda>c. findCondition (set_all cs news) (c_Type c) = Some c) news"
    unfolding find_set_all [OF assms] list_all_iff by simp
qed

definition failed_conditions :: "string \<Rightarrow> string \<Rightarrow> int64 \<Rightarrow> Condition list" where
  "failed_conditions reason msg gen =
     map (\<lambda>t. \<lparr>c_Type = t, c_Status = ConditionFalse, c_Reason = reason, c_Message = msg, c_ObservedGeneration = gen\<rparr>)
       [ConditionConfigured, ConditionReady, ConditionProgressing]"

lemma failedService_status:
  "failedService ref_kube reason msg i = i\<lparr>is_Status := (is_Status i)
     \<lparr>ist_Conditions := set_all (ist_Conditions (is_Status i)) (failed_conditions reason msg (om_Generation (is_Meta i))),
      ist_ObservedGeneration := om_Generation (is_Meta i)\<rparr>\<rparr>"
  by (simp add: failedService_def setObservedGeneration_def setCondition_def failed_conditions_def)

lemma set_failed_again [simp]:
  "set_all (set_all cs (failed_conditions reason msg gen)) (failed_conditions reason msg gen)
    = set_all cs (failed_conditions reason msg gen)"
  by (rule set_all_again) (simp add: failed_conditions_def condition_type_defs)

lemma failedService_again: "failedService ref_kube reason msg (failedService ref_kube reason msg i)
    = failedService ref_kube reason msg i"
  by (simp add: failedService_status)

definition ready_conditions :: "bool \<Rightarrow> int64 \<Rightarrow> Condition list" where
  "ready_conditions available gen =
     map (\<lambda>(t, s, r, msg). \<lparr>c_Type = t, c_Status = s, c_Reason = r, c_Message = msg, c_ObservedGeneration = gen\<rparr>)
       ((ConditionConfigured, ConditionTrue, ReasonConfigured, ''workload rendered and applied'') #
        (if available then
           [(ConditionWorkloadAvailable, ConditionTrue, ReasonWorkloadReady, ''Deployment is Available''),
            (ConditionReady, ConditionTrue, ReasonWorkloadReady, ''workload is serving''),
            (ConditionProgressing, ConditionFalse, ReasonWorkloadReady, ''rollout complete'')]
         else
           [(ConditionWorkloadAvailable, ConditionFalse, ReasonWorkloadPending, pendingMessage),
            (ConditionReady, ConditionFalse, ReasonWorkloadPending, pendingMessage),
            (ConditionProgressing, ConditionTrue, ReasonDeploying, pendingMessage)]))"

lemma readyService_status:
  "readyService ref_kube i m d cfg = i\<lparr>is_Status := (is_Status i)
     \<lparr>ist_Conditions := set_all (ist_Conditions (is_Status i))
        (ready_conditions (deploymentAvailable d) (om_Generation (is_Meta i))),
      ist_Endpoint := Some \<lparr>ep_URL = EndpointURL i\<rparr>, ist_ServedModelName := ServedModelName m,
      ist_ResolvedImage := (case ResolveImage i cfg of Inl err \<Rightarrow> [] | Inr img \<Rightarrow> img),
      ist_AppliedInitDataHash := InitDataHash (cfg_InitDataB64 cfg),
      ist_ObservedGeneration := om_Generation (is_Meta i)\<rparr>\<rparr>"
  by (simp add: readyService_def Let_def setObservedGeneration_def setCondition_def ready_conditions_def)

subsection \<open>The status of a service does not enter its workload\<close>

lemma restatus_parts [simp]:
  "ServiceName (i\<lparr>is_Status := st\<rparr>) = ServiceName i"
  "engineArgs (i\<lparr>is_Status := st\<rparr>) model = engineArgs i model"
  "modelsVolume (i\<lparr>is_Status := st\<rparr>) b = modelsVolume i b"
  "resourceRequirements (i\<lparr>is_Status := st\<rparr>) = resourceRequirements i"
  "deploymentOf (i\<lparr>is_Status := st\<rparr>) cfg co vols = deploymentOf i cfg co vols"
  by (simp_all add: ServiceName_def engineArgs_def modelsVolume_def
      resourceRequirements_def deploymentOf_def)

lemma restatus_failureThreshold [simp]: "failureThreshold (i\<lparr>is_Status := st\<rparr>) = failureThreshold i"
  by (cases "isvc_WeightsCache i") (simp_all add: failureThreshold_def)

lemma restatus_render [simp]:
  "ResolveImage (i\<lparr>is_Status := st\<rparr>) cfg = ResolveImage i cfg"
  "volumes (i\<lparr>is_Status := st\<rparr>) b = volumes i b"
  "container (i\<lparr>is_Status := st\<rparr>) model img b = container i model img b"
  by (simp_all add: ResolveImage_def volumes_def container_def)

lemma restatus_simps [simp]:
  "EndpointURL (i\<lparr>is_Status := st\<rparr>) = EndpointURL i"
  "renderService (i\<lparr>is_Status := st\<rparr>) = renderService i"
  "renderDeployment (i\<lparr>is_Status := st\<rparr>) model cfg = renderDeployment i model cfg"
  "gaiObject (i\<lparr>is_Status := st\<rparr>) = gaiObject i"
  "specProblem (i\<lparr>is_Status := st\<rparr>) model = specProblem i model"
  "modelKey (i\<lparr>is_Status := st\<rparr>) = modelKey i"
  "modelNotFoundMessage (i\<lparr>is_Status := st\<rparr>) = modelNotFoundMessage i"
  by (simp_all add: EndpointURL_def renderService_def renderDeployment_def gaiObject_def
      specProblem_def modelKey_def modelNotFoundMessage_def split: sum.split)

lemma restatus_owned [simp]:
  "ownedDeployment K (i\<lparr>is_Status := st\<rparr>) rendered = ownedDeployment K i rendered"
  "ownedService K (i\<lparr>is_Status := st\<rparr>) = ownedService K i"
  by (simp_all add: ownedDeployment_def ownedService_def)

lemma set_ready_again [simp]:
  "set_all (set_all cs (ready_conditions b gen)) (ready_conditions b gen) = set_all cs (ready_conditions b gen)"
  by (rule set_all_again) (simp add: ready_conditions_def condition_type_defs)

lemma readyService_again:
  "readyService ref_kube (readyService ref_kube i m d cfg) m d cfg = readyService ref_kube i m d cfg"
  by (simp add: readyService_status)

subsection \<open>The stages of an apply settle\<close>

text \<open>
  Each stage changes one collection of the cluster; run again where that collection is as the
  first run left it, it answers the same and changes nothing.
\<close>

lemma restatus_stages [simp]:
  "applyGaiConfigMap K (i\<lparr>is_Status := st\<rparr>) = applyGaiConfigMap K i"
  "applyOwnedDeployment K (i\<lparr>is_Status := st\<rparr>) rendered = applyOwnedDeployment K i rendered"
  "applyOwnedService K (i\<lparr>is_Status := st\<rparr>) = applyOwnedService K i"
  by (simp_all add: applyGaiConfigMap_def applyOwnedDeployment_def applyOwnedService_def)

lemmas stage_defs = applyGaiConfigMap_def applyOwnedDeployment_def applyOwnedService_def client_call_defs go_simps

lemma gai_settles:
  obtains r xs pre where
    "run_state (applyGaiConfigMap ref_kube i) s =
       (r, s\<lparr>world := (world s)\<lparr>cl_ConfigMaps := xs\<rparr>, calls := calls s @ pre\<rparr>)"
    "\<And>s2. cl_ConfigMaps (world s2) = xs \<Longrightarrow>
       run_state (applyGaiConfigMap ref_kube i) s2 = (r, s2\<lparr>calls := calls s2 @ pre\<rparr>)"
proof (cases "isvc_WeightsCache i")
  case None
  then show thesis
    by (intro that [where r = None and xs = "cl_ConfigMaps (world s)" and pre = "[]"]) (simp_all add: applyGaiConfigMap_def)
next
  case (Some wc)
  show thesis
  proof (cases "apply_to cm_Meta merge_ConfigMap (cl_ConfigMaps (world s)) (gaiObject i)")
    case (Inl e)
    with Some show thesis
      by (intro that [where r = "Some (Wrapf ''applying gai ConfigMap: '' (Api e))" and xs = "cl_ConfigMaps (world s)" and pre = "[ApplyConfigMap (gaiObject i)]"]) (simp_all add: stage_defs ref_kube_def)
  next
    case (Inr p)
    obtain cm xs where p: "p = (cm, xs)" by fastforce
    with Inr have ap: "apply_to cm_Meta merge_ConfigMap (cl_ConfigMaps (world s)) (gaiObject i) = Inr (cm, xs)" by simp
    note again = apply_again(3) [OF this]
    from Some show thesis
      by (intro that [where r = None and xs = xs and pre = "[ApplyConfigMap (gaiObject i)]"])
        (simp_all add: stage_defs ref_kube_def ap again)
  qed
qed

text \<open>The Deployment that comes back is under the service's control.\<close>

lemma merged_owner:
  assumes "apply_to d_Meta merge_Deployment ds d = Inr (d', ds')"
    and "om_OwnerReferences (d_Meta d) = [controller_ref owner]"
  shows "ref_isControlledBy (d_Meta d') owner"
proof (cases "List.find (\<lambda>y. meta_key (d_Meta y) = meta_key (d_Meta d)) ds")
  case None
  with assms show ?thesis
    by (auto simp: apply_to_def Let_def ref_isControlledBy_def the_controller_def controller_ref_def split: if_splits)
next
  case (Some old)
  let ?c = "controller_ref owner"
  have c: "or_Controller ?c" "or_UID ?c = om_UID owner" by (simp_all add: controller_ref_def)
  let ?kept = "filter (\<lambda>r. or_UID r \<noteq> om_UID owner) (om_OwnerReferences (d_Meta old))"
  from Some assms c have d': "om_OwnerReferences (d_Meta d') = ?kept @ [?c]"
    and one: "one_controller_at_most (d_Meta d')"
    by (auto simp: apply_to_def Let_def merge_Deployment_def merge_meta_def merge_refs_def split: if_splits)
  from one d' c have "filter or_Controller ?kept = []" by (simp add: one_controller_at_most_def)
  then have "List.find or_Controller ?kept = None" unfolding find_None_set filter_empty_conv .
  with d' c show ?thesis by (simp add: ref_isControlledBy_def the_controller_def find_append)
qed

lemma merged_controlled:
  assumes "apply_to d_Meta merge_Deployment ds d = Inr (d', ds')"
    and "om_OwnerReferences (d_Meta d) = [controller_ref owner]" and "x \<in> set ds'"
  shows "x \<in> set ds \<or> ref_isControlledBy (d_Meta x) owner"
proof -
  from assms(1,3) have "x = d' \<or> x \<in> set ds"
    by (auto simp: apply_to_def Let_def put_to_def split: if_splits)
  with merged_owner [OF assms(1,2)] show ?thesis by blast
qed

lemma owned_refs:
  assumes "ownedDeployment ref_kube i (deploymentOf i cfg co vols) = Inr d"
  shows "om_OwnerReferences (d_Meta d) = [controller_ref (is_Meta i)]"
  using assms by (auto simp: ownedDeployment_def Let_def ref_setControllerReference_def the_controller_def
      render_simps zero_ObjectMeta_def deploymentOf_def split: sum.splits if_splits)

lemma dep_settles:
  assumes "rendered = deploymentOf i cfg co vols"
  obtains r xs pre where
    "run_state (applyOwnedDeployment ref_kube i rendered) s =
       (r, s\<lparr>world := (world s)\<lparr>cl_Deployments := xs\<rparr>, calls := calls s @ pre\<rparr>)"
    "\<And>s2. cl_Deployments (world s2) = xs \<Longrightarrow>
       run_state (applyOwnedDeployment ref_kube i rendered) s2 = (r, s2\<lparr>calls := calls s2 @ pre\<rparr>)"
    "\<And>x. x \<in> set xs \<Longrightarrow> x \<in> set (cl_Deployments (world s)) \<or> ref_isControlledBy (d_Meta x) (is_Meta i)"
proof (cases "ownedDeployment ref_kube i rendered")
  case (Inl e)
  then show thesis
    by (intro that [where r = "Inl e" and xs = "cl_Deployments (world s)" and pre = "[]"]) (simp_all add: applyOwnedDeployment_def)
next
  case own: (Inr d)
  show thesis
  proof (cases "apply_to d_Meta merge_Deployment (cl_Deployments (world s)) d")
    case (Inl e)
    with own show thesis
      by (intro that [where r = "Inl (Wrapf ''applying Deployment: '' (Api e))" and xs = "cl_Deployments (world s)" and pre = "[ApplyDeployment d]"]) (simp_all add: stage_defs ref_kube_def)
  next
    case (Inr p)
    obtain d' xs where p: "p = (d', xs)" by fastforce
    with Inr have ap: "apply_to d_Meta merge_Deployment (cl_Deployments (world s)) d = Inr (d', xs)" by simp
    note again = apply_again(1) [OF this]
    from own show thesis
      by (intro that [where r = "Inr d'" and xs = xs and pre = "[ApplyDeployment d]"])
        (simp_all add: stage_defs ref_kube_def ap again
          merged_controlled [OF ap owned_refs [OF own [unfolded assms]]])
  qed
qed

lemma svc_settles:
  obtains r xs pre where
    "run_state (applyOwnedService ref_kube i) s =
       (r, s\<lparr>world := (world s)\<lparr>cl_Services := xs\<rparr>, calls := calls s @ pre\<rparr>)"
    "\<And>s2. cl_Services (world s2) = xs \<Longrightarrow>
       run_state (applyOwnedService ref_kube i) s2 = (r, s2\<lparr>calls := calls s2 @ pre\<rparr>)"
proof (cases "ownedService ref_kube i")
  case (Inl e)
  then show thesis
    by (intro that [where r = "Some e" and xs = "cl_Services (world s)" and pre = "[]"]) (simp_all add: applyOwnedService_def)
next
  case own: (Inr sv)
  show thesis
  proof (cases "apply_to svc_Meta merge_Service (cl_Services (world s)) sv")
    case (Inl e)
    with own show thesis
      by (intro that [where r = "Some (Wrapf ''applying Service: '' (Api e))" and xs = "cl_Services (world s)" and pre = "[ApplyService sv]"]) (simp_all add: stage_defs ref_kube_def)
  next
    case (Inr p)
    obtain sv' xs where p: "p = (sv', xs)" by fastforce
    with Inr have ap: "apply_to svc_Meta merge_Service (cl_Services (world s)) sv = Inr (sv', xs)" by simp
    note again = apply_again(2) [OF this]
    from own show thesis
      by (intro that [where r = None and xs = xs and pre = "[ApplyService sv]"]) (simp_all add: stage_defs ref_kube_def ap again)
  qed
qed

subsection \<open>The whole run settles\<close>

lemma put_to_id [simp]: "put_to meta xs key (\<lambda>x. x) = xs"
  by (simp add: put_to_def)

lemma has_key_get: "get_from meta xs key = Inr x \<Longrightarrow> has_key meta xs key"
  by (simp add: get_from_def has_key_def split: option.splits)

lemma status_run:
  assumes "get_from is_Meta (cl_InferenceServices (world s)) (meta_key (is_Meta i)) = Inr i"
    and "is_Meta j = is_Meta i"
  shows "run_state (updateInferenceServiceStatus ref_kube j) s =
    (None, s\<lparr>world := (world s)\<lparr>cl_InferenceServices := put_to is_Meta (cl_InferenceServices (world s))
        (meta_key (is_Meta i)) (\<lambda>x. x\<lparr>is_Status := is_Status j\<rparr>)\<rparr>,
      calls := calls s @ [UpdateInferenceServiceStatus j]\<rparr>)"
  using has_key_get [OF assms(1)] assms(2)
  by (simp add: client_call_defs go_simps ref_kube_def update_status_def Let_def)

text \<open>A status write that is repeated where it has already been made.\<close>

lemma status_again:
  assumes "get_from is_Meta xs (meta_key (is_Meta i)) = Inr i" and "is_Meta j = is_Meta i"
    and "cl_InferenceServices (world s) = put_to is_Meta xs (meta_key (is_Meta i)) (\<lambda>x. x\<lparr>is_Status := is_Status j\<rparr>)"
  shows "run_state (updateInferenceServiceStatus ref_kube j) s =
    (None, s\<lparr>calls := calls s @ [UpdateInferenceServiceStatus j]\<rparr>)"
proof -
  let ?f = "\<lambda>x. x\<lparr>is_Status := is_Status j\<rparr>"
  have "get_from is_Meta (cl_InferenceServices (world s)) (meta_key (is_Meta i)) = Inr (?f i)"
    unfolding assms(3) by (rule get_put_to [OF assms(1)]) simp
  then have "has_key is_Meta (cl_InferenceServices (world s)) (meta_key (is_Meta i))" by (rule has_key_get)
  moreover have "put_to is_Meta (cl_InferenceServices (world s)) (meta_key (is_Meta i)) ?f = cl_InferenceServices (world s)"
    unfolding assms(3) by (rule put_to_idem) simp
  ultimately show ?thesis using assms(2)
    by (simp add: client_call_defs go_simps ref_kube_def update_status_def Let_def)
qed

lemma restated:
  fixes i j :: InferenceService
  assumes "is_Meta j = is_Meta i" and "is_Spec j = is_Spec i"
  shows "i\<lparr>is_Status := is_Status j\<rparr> = j"
  using assms by (intro InferenceService.equality) simp_all

lemma status_specs [simp]: "is_Spec (failedService ref_kube reason msg i) = is_Spec i"
  "is_Spec (readyService ref_kube i m d cfg) = is_Spec i"
  by (simp_all add: failedService_status readyService_status)

text \<open>
  What a run leaves: the collections it wrote, and the service with another status; and repeated
  there, on the service as it is then, it does the same and leaves everything as it is.
\<close>

definition settles ::
    "(Deployment list \<Rightarrow> bool) \<Rightarrow> (InferenceService \<Rightarrow> (cluster sys, reconcile_outcome) state) \<Rightarrow>
      InferenceService \<Rightarrow> cluster sys \<Rightarrow> bool" where
  "settles P m i s \<longleftrightarrow> (\<exists>r cms ds ss f pre w.
     w = (world s)\<lparr>cl_ConfigMaps := cms, cl_Deployments := ds, cl_Services := ss,
           cl_InferenceServices := put_to is_Meta (cl_InferenceServices (world s)) (meta_key (is_Meta i)) f\<rparr> \<and>
     run_state (m i) s = (r, s\<lparr>world := w, calls := calls s @ pre\<rparr>) \<and>
     (\<forall>x. \<exists>st. f x = x\<lparr>is_Status := st\<rparr>) \<and>
     P ds \<and>
     (\<forall>s2. world s2 = w \<longrightarrow> run_state (m (f i)) s2 = (r, s2\<lparr>calls := calls s2 @ pre\<rparr>)))"

lemma settles_same:
  assumes "run_state (m i) s = (r, s\<lparr>world := (world s)\<lparr>cl_ConfigMaps := cms, cl_Deployments := ds, cl_Services := ss\<rparr>,
      calls := calls s @ pre\<rparr>)"
    and "P ds"
    and "\<And>s2. cl_ConfigMaps (world s2) = cms \<Longrightarrow> cl_Deployments (world s2) = ds \<Longrightarrow> cl_Services (world s2) = ss \<Longrightarrow>
      run_state (m i) s2 = (r, s2\<lparr>calls := calls s2 @ pre\<rparr>)"
  shows "settles P m i s"
proof -
  let ?w = "(world s)\<lparr>cl_ConfigMaps := cms, cl_Deployments := ds, cl_Services := ss\<rparr>"
  have "\<exists>st. x = x\<lparr>is_Status := st\<rparr>" for x :: InferenceService
    by (intro exI [of _ "is_Status x"]) simp
  then show ?thesis unfolding settles_def using assms
    by (intro exI [of _ r] exI [of _ cms] exI [of _ ds] exI [of _ ss] exI [of _ "\<lambda>x. x"] exI [of _ pre] exI [of _ ?w])
      simp
qed

lemma settles_status:
  assumes "get_from is_Meta (cl_InferenceServices (world s)) (meta_key (is_Meta i)) = Inr i"
    and "run_state (m i) s = run_state (do { err \<leftarrow> updateInferenceServiceStatus ref_kube j;
          State_Monad.return (Returned (map_option Api err)) })
        (s\<lparr>world := (world s)\<lparr>cl_ConfigMaps := cms, cl_Deployments := ds, cl_Services := ss\<rparr>, calls := calls s @ pre\<rparr>)"
    and "P ds"
    and "is_Meta j = is_Meta i" and "is_Spec j = is_Spec i"
    and "\<And>s2. cl_ConfigMaps (world s2) = cms \<Longrightarrow> cl_Deployments (world s2) = ds \<Longrightarrow> cl_Services (world s2) = ss \<Longrightarrow>
      run_state (m j) s2 = run_state (do { err \<leftarrow> updateInferenceServiceStatus ref_kube j;
          State_Monad.return (Returned (map_option Api err)) }) (s2\<lparr>calls := calls s2 @ pre\<rparr>)"
  shows "settles P m i s"
proof -
  let ?f = "\<lambda>x. x\<lparr>is_Status := is_Status j\<rparr>"
  let ?xs = "cl_InferenceServices (world s)" and ?key = "meta_key (is_Meta i)"
  let ?w = "(world s)\<lparr>cl_ConfigMaps := cms, cl_Deployments := ds, cl_Services := ss,
      cl_InferenceServices := put_to is_Meta ?xs ?key ?f\<rparr>"
  let ?pre = "pre @ [UpdateInferenceServiceStatus j]"
  have first: "run_state (m i) s = (Returned None, s\<lparr>world := ?w, calls := calls s @ ?pre\<rparr>)"
    unfolding assms(2) using assms(1,4)
    by (simp add: go_simps status_run [where i = i])
  have "run_state (m (?f i)) s2 = (Returned None, s2\<lparr>calls := calls s2 @ ?pre\<rparr>)" if "world s2 = ?w" for s2
  proof -
    have "cl_ConfigMaps (world s2) = cms" "cl_Deployments (world s2) = ds" "cl_Services (world s2) = ss"
      "cl_InferenceServices (world s2) = put_to is_Meta ?xs ?key ?f" using that by simp_all
    with assms(6) [of s2] status_again [OF assms(1,4), of "s2\<lparr>calls := calls s2 @ pre\<rparr>"] assms(4,5)
    show ?thesis by (simp add: restated go_simps)
  qed
  then show ?thesis unfolding settles_def
    using first assms(3) by (intro exI [of _ "Returned None"] exI [of _ cms] exI [of _ ds] exI [of _ ss]
        exI [of _ ?f] exI [of _ ?pre] exI [of _ ?w]) auto
qed

lemma settles_fail:
  assumes "get_from is_Meta (cl_InferenceServices (world s)) (meta_key (is_Meta i)) = Inr i"
  shows "settles (\<lambda>ds. ds = cl_Deployments (world s)) (\<lambda>i. failConfigured ref_kube i reason msg) i s"
  by (rule settles_status [OF assms, where j = "failedService ref_kube reason msg i"
        and cms = "cl_ConfigMaps (world s)" and ds = "cl_Deployments (world s)" and ss = "cl_Services (world s)" and pre = "[]"])
    (simp_all add: failConfigured_def failedService_again)

lemma settles_apply:
  assumes "get_from is_Meta (cl_InferenceServices (world s)) (meta_key (is_Meta i)) = Inr i"
  shows "settles (\<lambda>ds. \<forall>x \<in> set ds. x \<in> set (cl_Deployments (world s)) \<or> ref_isControlledBy (d_Meta x) (is_Meta i))
    (\<lambda>i. reconcileApply ref_kube i model cfg) i s"
proof -
  let ?ds = "cl_Deployments (world s)" and ?ss = "cl_Services (world s)"
  obtain rg cms pg where g: "run_state (applyGaiConfigMap ref_kube i) s =
      (rg, s\<lparr>world := (world s)\<lparr>cl_ConfigMaps := cms\<rparr>, calls := calls s @ pg\<rparr>)"
    and g2: "\<And>s2. cl_ConfigMaps (world s2) = cms \<Longrightarrow>
      run_state (applyGaiConfigMap ref_kube i) s2 = (rg, s2\<lparr>calls := calls s2 @ pg\<rparr>)"
    using gai_settles [of i s] by metis
  obtain rd where rd: "renderDeployment i model cfg = Some rd"
    using renderDeployment_not_None [of i model cfg] by blast
  consider (gai) e where "rg = Some e" | (unrendered) err where "rg = None" "rd = Inl err"
    | (rendered) d where "rg = None" "rd = Inr d" by (cases rg; cases rd) auto
  then show ?thesis
  proof cases
    case gai
    show ?thesis
      by (rule settles_same [where cms = cms and ds = ?ds and ss = ?ss and pre = pg and r = "Returned (Some e)"])
        (simp_all add: reconcileApply_def go_simps g g2 gai)
  next
    case unrendered
    show ?thesis
      by (rule settles_status [OF assms, where j = "failedService ref_kube ReasonInvalidConfig (error_text err) i"
            and cms = cms and ds = ?ds and ss = ?ss and pre = pg])
        (simp_all add: reconcileApply_def failConfigured_def go_simps g g2 rd unrendered failedService_again
          failedService_status)
  next
    case (rendered d)
    obtain co vols where co: "d = deploymentOf i cfg co vols"
      using rd rendered(2) by (auto intro: rendered_deploymentOf)
    let ?s1 = "s\<lparr>world := (world s)\<lparr>cl_ConfigMaps := cms\<rparr>, calls := calls s @ pg\<rparr>"
    obtain rdep ds pd where d: "run_state (applyOwnedDeployment ref_kube i d) ?s1 =
        (rdep, ?s1\<lparr>world := (world ?s1)\<lparr>cl_Deployments := ds\<rparr>, calls := calls ?s1 @ pd\<rparr>)"
      and d2: "\<And>s2. cl_Deployments (world s2) = ds \<Longrightarrow>
        run_state (applyOwnedDeployment ref_kube i d) s2 = (rdep, s2\<lparr>calls := calls s2 @ pd\<rparr>)"
      and ctl: "\<And>x. x \<in> set ds \<Longrightarrow> x \<in> set (cl_Deployments (world ?s1)) \<or> ref_isControlledBy (d_Meta x) (is_Meta i)"
      using dep_settles [OF co, of ?s1] by metis
    show ?thesis
    proof (cases rdep)
      case (Inl err)
      show ?thesis
        by (rule settles_same [where cms = cms and ds = ds and ss = ?ss and pre = "pg @ pd" and r = "Returned (Some err)"])
          (use ctl in \<open>simp_all add: reconcileApply_def go_simps g g2 d [simplified] d2 rd rendered Inl\<close>)
    next
      case (Inr dep)
      let ?s2 = "?s1\<lparr>world := (world ?s1)\<lparr>cl_Deployments := ds\<rparr>, calls := calls ?s1 @ pd\<rparr>"
      obtain rs ss psv where v: "run_state (applyOwnedService ref_kube i) ?s2 =
          (rs, ?s2\<lparr>world := (world ?s2)\<lparr>cl_Services := ss\<rparr>, calls := calls ?s2 @ psv\<rparr>)"
        and v2: "\<And>s2. cl_Services (world s2) = ss \<Longrightarrow>
          run_state (applyOwnedService ref_kube i) s2 = (rs, s2\<lparr>calls := calls s2 @ psv\<rparr>)"
        using svc_settles [of i ?s2] by metis
      note simps = reconcileApply_def applyServiceAndStatus_def go_simps g g2 d [simplified] d2 rd rendered
        Inr v [simplified] v2
      show ?thesis
      proof (cases rs)
        case (Some err)
        show ?thesis
          by (rule settles_same [where cms = cms and ds = ds and ss = ss and pre = "pg @ pd @ psv"
                and r = "Returned (Some err)"])
            (use ctl in \<open>simp_all add: simps Some\<close>)
      next
        case None
        show ?thesis
          by (rule settles_status [OF assms, where j = "readyService ref_kube i model dep cfg"
                and cms = cms and ds = ds and ss = ss and pre = "pg @ pd @ psv"])
            (use ctl in \<open>simp_all add: simps None updateReadyStatus_def
              readyService_status\<close>)
      qed
    qed
  qed
qed

subsection \<open>The decision of a run\<close>

text \<open>What a run on the reference server reads, and what it decides: a failure or an apply.\<close>

definition decide :: "NamespacedName \<Rightarrow> cluster \<Rightarrow> InferenceService \<Rightarrow> call list \<times> ((string \<times> string) + (BrukTenant \<times> BrukModel))" where
  "decide req w i =
     (let ns = Some (isvc_Namespace i); conflict = (\<lambda>msg. Inl (ReasonTrustedStoreConflict, msg)) in
      case get_from bt_Meta (cl_BrukTenants w) tenantKey of
        Inl _ \<Rightarrow> ([GetInferenceService req, GetBrukTenant tenantKey], Inl (ReasonTenantConfigMissing, tenantMissingMessage))
      | Inr t \<Rightarrow>
      (case get_from bm_Meta (cl_BrukModels w) (modelKey i) of
        Inl _ \<Rightarrow> (object_calls req i, Inl (ReasonModelNotFound, modelNotFoundMessage i))
      | Inr m \<Rightarrow>
      (case specProblem i m of
        Some p \<Rightarrow> (object_calls req i, Inl p)
      | None \<Rightarrow>
      (case siblingConflict ref_kube i (list_from is_Meta (cl_InferenceServices w) ns) of
        Some msg \<Rightarrow> (object_calls req i @ [ListInferenceServices ns], conflict msg)
      | None \<Rightarrow>
      (case deploymentConflict ref_kube i (list_from d_Meta (cl_Deployments w) ns) of
        Some msg \<Rightarrow> (object_calls req i @ [ListInferenceServices ns, ListDeployments ns], conflict msg)
      | None \<Rightarrow>
      (case podConflict i (list_from pod_Meta (cl_Pods w) ns) of
        Some msg \<Rightarrow> (object_calls req i @ guard_calls i, conflict msg)
      | None \<Rightarrow> (object_calls req i @ guard_calls i, Inr (t, m))))))))"

definition carry_out ::
    "(string \<times> string) + (BrukTenant \<times> BrukModel) \<Rightarrow> InferenceService \<Rightarrow> (cluster sys, reconcile_outcome) state" where
  "carry_out c i =
     (case c of
        Inl p \<Rightarrow> failConfigured ref_kube i (fst p) (snd p)
      | Inr (t, m) \<Rightarrow> reconcileApply ref_kube i m (tenantConfig t))"

lemma get_from_error: "get_from meta xs key = Inl e \<Longrightarrow> ref_isNotFound e"
  by (auto simp: get_from_def ref_isNotFound_def NotFoundError_def split: option.splits)

lemma get_from_key: "get_from meta xs key = Inr x \<Longrightarrow> meta_key (meta x) = key \<and> x \<in> set xs"
  by (auto simp: get_from_def dest: find_Some_set split: option.splits)

lemma ref_answers [simp]:
  "k_getInferenceService ref_kube key w = (get_from is_Meta (cl_InferenceServices w) key, w)"
  "k_getBrukModel ref_kube key w = (get_from bm_Meta (cl_BrukModels w) key, w)"
  "k_getBrukTenant ref_kube key w = (get_from bt_Meta (cl_BrukTenants w) key, w)"
  "k_getSecret ref_kube key w = (get_from sec_Meta (cl_Secrets w) key, w)"
  "k_listInferenceServices ref_kube ns w = (Inr (list_from is_Meta (cl_InferenceServices w) ns), w)"
  "k_listDeployments ref_kube ns w = (Inr (list_from d_Meta (cl_Deployments w) ns), w)"
  "k_listPods ref_kube ns w = (Inr (list_from pod_Meta (cl_Pods w) ns), w)"
  by (simp_all add: ref_kube_def)

lemma run_decides:
  assumes "get_from is_Meta (cl_InferenceServices (world s)) req = Inr i"
  shows "run_state (ReconcileISVC ref_kube req) s =
    run_state (carry_out (snd (decide req (world s) i)) i) (s\<lparr>calls := calls s @ fst (decide req (world s) i)\<rparr>)"
proof -
  note defs = decide_def carry_out_def object_calls_def guard_calls_def ReconcileISVC_def reconcileTenantConfig_def
    reconcileModel_def reconcileChecked_def trustedStoreConflict_def deploymentGuard_def podGuard_def
    client_call_defs go_simps Let_def assms
  show ?thesis
  proof (cases "get_from bt_Meta (cl_BrukTenants (world s)) tenantKey")
    case (Inl e)
    with get_from_error [OF Inl] show ?thesis by (simp add: defs)
  next
    case t: (Inr t)
    show ?thesis
    proof (cases "get_from bm_Meta (cl_BrukModels (world s)) (modelKey i)")
      case (Inl e)
      with t get_from_error [OF Inl] show ?thesis by (simp add: defs)
    next
      case (Inr m)
      with t siblingConflict_nonempty [of ref_kube i] deploymentConflict_nonempty [of ref_kube i]
        podConflict_nonempty [of i] show ?thesis
        by (auto simp: defs split: option.split)
    qed
  qed
qed

text \<open>What the decision depends on is the same after the run.\<close>

lemma decide_after:
  assumes "i' = i\<lparr>is_Status := st\<rparr>"
    and "cl_BrukTenants w' = cl_BrukTenants w" and "cl_BrukModels w' = cl_BrukModels w" and "cl_Pods w' = cl_Pods w"
    and "cl_InferenceServices w' = put_to is_Meta (cl_InferenceServices w) key f"
    and "\<And>x. \<exists>st. f x = x\<lparr>is_Status := st\<rparr>"
    and "cl_Deployments w' = cl_Deployments w \<or> (\<exists>p. snd (decide req w i) = Inr p) \<and>
      (\<forall>x \<in> set (cl_Deployments w'). x \<in> set (cl_Deployments w) \<or> ref_isControlledBy (d_Meta x) (is_Meta i))"
  shows "decide req w' i' = decide req w i"
proof -
  let ?ns = "Some (isvc_Namespace i)"
  have f: "is_Meta (f x) = is_Meta x \<and> is_Spec (f x) = is_Spec x" for x
    using assms(6) [of x] by auto
  have "map (\<lambda>s. (is_Meta s, is_Spec s)) (list_from is_Meta (put_to is_Meta xs key f) ?ns) =
      map (\<lambda>s. (is_Meta s, is_Spec s)) (list_from is_Meta xs ?ns)" for xs
    using f by (induction xs) (auto simp: put_to_def list_from_def)
  then have sib: "siblingConflict ref_kube i' (list_from is_Meta (cl_InferenceServices w') ?ns)
      = siblingConflict ref_kube i (list_from is_Meta (cl_InferenceServices w) ?ns)"
    unfolding assms(5) by (intro siblingConflict_cong) (simp_all add: assms(1))
  have dep: "deploymentConflict ref_kube i (list_from d_Meta (cl_Deployments w') ?ns)
      = deploymentConflict ref_kube i (list_from d_Meta (cl_Deployments w) ?ns)"
    using assms(7)
  proof (elim disjE conjE exE)
    fix p assume go: "snd (decide req w i) = Inr p"
      and ctl: "\<forall>x \<in> set (cl_Deployments w'). x \<in> set (cl_Deployments w) \<or> ref_isControlledBy (d_Meta x) (is_Meta i)"
    from go have old: "deploymentConflict ref_kube i (list_from d_Meta (cl_Deployments w) ?ns) = None"
      by (auto simp: decide_def Let_def split: sum.splits option.splits)
    then have "deploymentConflict ref_kube i (list_from d_Meta (cl_Deployments w') ?ns) = None"
      using ctl unfolding deploymentConflict_None by (auto simp: list_from_def)
    with old show ?thesis by simp
  qed simp
  have meta: "is_Meta i' = is_Meta i" "is_Spec i' = is_Spec i" by (simp_all add: assms(1))
  have pure: "modelKey i' = modelKey i" "specProblem i' = specProblem i" "modelNotFoundMessage i' = modelNotFoundMessage i"
    "object_calls req i' = object_calls req i" "guard_calls i' = guard_calls i"
    "deploymentConflict ref_kube i' = deploymentConflict ref_kube i" "podConflict i' = podConflict i"
    using deploymentConflict_cong [OF meta] podConflict_cong [OF meta]
    by (auto simp: assms(1) object_calls_def guard_calls_def)
  show ?thesis unfolding decide_def Let_def assms(2-4) meta pure sib dep by (rule refl)
qed

lemma settles_mono: "settles P m i s \<Longrightarrow> (\<And>ds. P ds \<Longrightarrow> Q ds) \<Longrightarrow> settles Q m i s"
  unfolding settles_def by blast

lemma carry_out_simps:
  "carry_out (Inl (reason, msg)) = (\<lambda>i. failConfigured ref_kube i reason msg)"
  "carry_out (Inr (t, m)) = (\<lambda>i. reconcileApply ref_kube i m (tenantConfig t))"
  by (simp_all add: carry_out_def fun_eq_iff)

text \<open>A run on an existing service settles, whatever it decides.\<close>

lemma reconcile_again:
  assumes "run (ReconcileISVC ref_kube req) w = (r, w', cs)"
  shows "run (ReconcileISVC ref_kube req) w' = (r, w', cs)"
proof (cases "get_from is_Meta (cl_InferenceServices w) req")
  case (Inl e)
  with assms get_from_error [OF Inl] show ?thesis
    by (auto simp: run_def ReconcileISVC_def client_call_defs go_simps)
next
  case (Inr i)
  let ?D = "decide req w i"
  let ?s = "\<lparr>world = w, calls = fst ?D\<rparr>"
  let ?P = "\<lambda>ds. ds = cl_Deployments w \<or> (\<exists>p. snd ?D = Inr p) \<and>
      (\<forall>x \<in> set ds. x \<in> set (cl_Deployments w) \<or> ref_isControlledBy (d_Meta x) (is_Meta i))"
  have key: "meta_key (is_Meta i) = req" using get_from_key [OF Inr] by simp
  with Inr have got: "get_from is_Meta (cl_InferenceServices (world ?s)) (meta_key (is_Meta i)) = Inr i" by simp
  have "settles ?P (carry_out (snd ?D)) i ?s"
  proof (cases "snd ?D")
    case (Inl p)
    obtain reason msg where p: "p = (reason, msg)" by fastforce
    show ?thesis unfolding Inl p carry_out_simps
      by (rule settles_mono [OF settles_fail [OF got]]) simp
  next
    case (Inr p)
    obtain t m where p: "p = (t, m)" by fastforce
    show ?thesis unfolding Inr p carry_out_simps
      by (rule settles_mono [OF settles_apply [OF got]]) simp
  qed
  then obtain r0 cms ds ss f pre w0 where
    w0: "w0 = w\<lparr>cl_ConfigMaps := cms, cl_Deployments := ds, cl_Services := ss,
       cl_InferenceServices := put_to is_Meta (cl_InferenceServices w) req f\<rparr>"
    and run: "run_state (carry_out (snd ?D) i) ?s = (r0, \<lparr>world = w0, calls = fst ?D @ pre\<rparr>)"
    and f: "\<And>x. \<exists>st. f x = x\<lparr>is_Status := st\<rparr>" and P: "?P ds"
    and again: "\<And>s2. world s2 = w0 \<Longrightarrow> run_state (carry_out (snd ?D) (f i)) s2 = (r0, s2\<lparr>calls := calls s2 @ pre\<rparr>)"
    unfolding settles_def key sys.select_convs sys.update_convs by metis
  from run_decides [of "\<lparr>world = w, calls = []\<rparr>" req i] Inr run assms
  have end_eq: "r = r0" "w' = w0" "cs = fst ?D @ pre" by (simp_all add: run_def)
  obtain st where st: "f i = i\<lparr>is_Status := st\<rparr>" using f by blast
  have same: "decide req w0 (f i) = ?D"
    using decide_after [OF st, of w0 w req f req] f P by (auto simp: w0)
  have "is_Meta (f x) = is_Meta x" for x using f [of x] by auto
  then have "get_from is_Meta (cl_InferenceServices w0) req = Inr (f i)"
    unfolding w0 by (simp add: get_put_to [OF Inr])
  with run_decides [of "\<lparr>world = w0, calls = []\<rparr>" req "f i"] same
  have "run_state (ReconcileISVC ref_kube req) \<lparr>world = w0, calls = []\<rparr> = (r0, \<lparr>world = w0, calls = fst ?D @ pre\<rparr>)"
    by (simp add: again)
  with end_eq show ?thesis by (simp add: run_def)
qed

subsection \<open>The two validators\<close>

text \<open>What the validation of a model decides depends on its spec and the secrets alone.\<close>

lemma model_decides:
  fixes model :: BrukModel
  obtains reads st reason msg where
    "\<And>s m. bm_Meta m = bm_Meta model \<Longrightarrow> bm_Spec m = bm_Spec model \<Longrightarrow>
       get_from bm_Meta (cl_BrukModels (world s)) req = Inr m \<Longrightarrow> cl_Secrets (world s) = secrets \<Longrightarrow>
       run_state (ReconcileModel ref_kube req) s =
         run_state (setReady ref_kube m st reason msg) (s\<lparr>calls := calls s @ reads\<rparr>)"
proof -
  note defs = ReconcileModel_def getBrukModel_def getSecret_def go_simps Let_def
  show thesis
  proof (cases "model_HuggingFace model")
    case None
    then show thesis
      by (intro that [where reads = "[GetBrukModel req]"]) (simp add: defs)
  next
    case (Some hf)
    show thesis
    proof (cases "hf_TokenSecretRef hf")
      case None
      with Some show thesis
        by (intro that [where reads = "[GetBrukModel req]"]) (simp add: defs)
    next
      case ref: (Some ref)
      let ?key = "\<lparr>nn_Namespace = om_Namespace (bm_Meta model), nn_Name = skr_Name ref\<rparr>"
      let ?reads = "[GetBrukModel req, GetSecret ?key]"
      show thesis
      proof (cases "get_from sec_Meta secrets ?key")
        case (Inl e)
        with Some ref get_from_error [OF Inl] show thesis
          by (intro that [where reads = ?reads]) (simp add: defs)
      next
        case (Inr secret)
        show thesis
        proof (cases "length (secret_value secret (skr_Key ref)) = 0")
          case True
          with Inr Some ref show thesis
            by (intro that [where reads = ?reads]) (simp add: defs)
        next
          case False
          with Inr Some ref show thesis
            by (intro that [where reads = ?reads]) (simp add: defs)
        qed
      qed
    qed
  qed
qed

lemma put_again_found:
  assumes "get_from meta xs key = Inr x" and "\<And>y. meta (f y) = meta y" and "\<And>y. f (f y) = f y"
  shows "get_from meta (put_to meta xs key f) key = Inr (f x)" "has_key meta (put_to meta xs key f) key"
    "put_to meta (put_to meta xs key f) key f = put_to meta xs key f" "has_key meta xs key"
  using get_put_to [OF assms(1), of f] assms(2) put_to_idem [of f meta xs key, OF assms(3)] has_key_get assms(1)
  by (auto intro: has_key_get)

lemma model_again:
  assumes "run (ReconcileModel ref_kube req) w = (r, w', cs)"
  shows "run (ReconcileModel ref_kube req) w' = (r, w', cs)"
proof (cases "get_from bm_Meta (cl_BrukModels w) req")
  case (Inl e)
  with assms get_from_error [OF Inl] show ?thesis
    by (auto simp: run_def ReconcileModel_def client_call_defs go_simps)
next
  case (Inr model)
  obtain reads st reason msg where decides: "\<And>s m. bm_Meta m = bm_Meta model \<Longrightarrow> bm_Spec m = bm_Spec model \<Longrightarrow>
       get_from bm_Meta (cl_BrukModels (world s)) req = Inr m \<Longrightarrow> cl_Secrets (world s) = cl_Secrets w \<Longrightarrow>
       run_state (ReconcileModel ref_kube req) s =
         run_state (setReady ref_kube m st reason msg) (s\<lparr>calls := calls s @ reads\<rparr>)"
    using model_decides [of model req "cl_Secrets w"] by metis
  let ?j = "setReadyModel ref_kube model st reason msg"
  let ?f = "\<lambda>m. m\<lparr>bm_Status := bm_Status ?j\<rparr>"
  have key: "meta_key (bm_Meta model) = req" using get_from_key [OF Inr] by simp
  note again = put_again_found [OF Inr, of ?f, simplified]
  have j: "?f model = ?j" "setReadyModel ref_kube ?j st reason msg = ?j" "bm_Meta ?j = bm_Meta model"
    "bm_Spec ?j = bm_Spec model"
    by (simp_all add: setReadyModel_def ref_set_found ref_sc.find_set)
  have first: "run (ReconcileModel ref_kube req) w = (Returned None,
      w\<lparr>cl_BrukModels := put_to bm_Meta (cl_BrukModels w) req ?f\<rparr>, reads @ [UpdateBrukModelStatus ?j])"
    using decides [of model "\<lparr>world = w, calls = []\<rparr>"] Inr key again(4) j(3)
    by (simp add: run_def setReady_def updateBrukModelStatus_def go_simps ref_kube_def update_status_def Let_def)
  let ?w = "w\<lparr>cl_BrukModels := put_to bm_Meta (cl_BrukModels w) req ?f\<rparr>"
  have "run (ReconcileModel ref_kube req) ?w = (Returned None, ?w, reads @ [UpdateBrukModelStatus ?j])"
    using decides [of ?j "\<lparr>world = ?w, calls = []\<rparr>"] again(1-3) j key
    by (simp add: run_def setReady_def updateBrukModelStatus_def go_simps ref_kube_def update_status_def Let_def)
  with first assms show ?thesis by simp
qed

lemma tenant_again:
  assumes "run (ReconcileTenant ref_kube req) w = (r, w', cs)"
  shows "run (ReconcileTenant ref_kube req) w' = (r, w', cs)"
proof (cases "get_from bt_Meta (cl_BrukTenants w) req")
  case (Inl e)
  with assms get_from_error [OF Inl] show ?thesis
    by (auto simp: run_def ReconcileTenant_def client_call_defs go_simps)
next
  case (Inr tenant)
  let ?j = "reconciledTenant ref_kube tenant"
  let ?f = "\<lambda>m. m\<lparr>bt_Status := bt_Status ?j\<rparr>"
  have key: "meta_key (bt_Meta tenant) = req" using get_from_key [OF Inr] by simp
  note again = put_again_found [OF Inr, of ?f, simplified]
  have t: "c_Type (tenantCondition tenant) = ''Ready''"
    by (simp add: tenantCondition_def split: option.split)
  have j: "?f tenant = ?j" "reconciledTenant ref_kube ?j = ?j" "bt_Meta ?j = bt_Meta tenant"
    by (simp_all add: reconciledTenant_def tenantCondition_def ref_set_found ref_sc.find_set split: option.split)
  note defs = run_def ReconcileTenant_def getBrukTenant_def updateBrukTenantStatus_def go_simps ref_kube_def
    update_status_def Let_def
  let ?w = "w\<lparr>cl_BrukTenants := put_to bt_Meta (cl_BrukTenants w) req ?f\<rparr>"
  have "run (ReconcileTenant ref_kube req) w = (Returned None, ?w, [GetBrukTenant req, UpdateBrukTenantStatus ?j])"
    using Inr key again(4) j(3) by (simp add: defs)
  moreover have "run (ReconcileTenant ref_kube req) ?w = (Returned None, ?w, [GetBrukTenant req, UpdateBrukTenantStatus ?j])"
    using again(1-3) j key by (simp add: defs)
  ultimately show ?thesis using assms by simp
qed



end
