(* ===== verification/Settling.thy ===== *)
theory Settling
  imports Convergence
begin

text \<open>
  Many services on one cluster. Their runs meet in the collections of the cluster: a service that
  is waiting for a claim becomes free to go when another's Deployment lets go of it, and then
  changes Deployments itself. Here is that this comes to an end on the reference server: what a
  run writes is a plan, made from the objects under its own keys and the verdict of its checks;
  a verdict to apply is never taken back; and a Deployment changes at most once per service.
\<close>

subsection \<open>Writes as functions of the objects under a key\<close>

definition at :: "('a \<Rightarrow> ObjectMeta) \<Rightarrow> 'a list \<Rightarrow> NamespacedName \<Rightarrow> 'a list" where
  "at meta xs k = filter (\<lambda>x. meta_key (meta x) = k) xs"

definition answer :: "('a \<Rightarrow> ObjectMeta) \<Rightarrow> ('a \<Rightarrow> 'a \<Rightarrow> 'a) \<Rightarrow> 'a list \<Rightarrow> 'a \<Rightarrow> ApiError + 'a" where
  "answer meta merge ys new =
     (let res = (case ys of [] \<Rightarrow> new | old # _ \<Rightarrow> merge old new)
      in if \<not> one_controller_at_most (meta res) then Inl InvalidError else Inr res)"

definition upsert :: "('a \<Rightarrow> ObjectMeta) \<Rightarrow> 'a list \<Rightarrow> 'a \<Rightarrow> 'a list" where
  "upsert meta xs x =
     (let k = meta_key (meta x) in if at meta xs k = [] then xs @ [x] else put_to meta xs k (\<lambda>_. x))"

lemma find_at: "List.find (\<lambda>x. meta_key (meta x) = k) xs = (case at meta xs k of [] \<Rightarrow> None | x # _ \<Rightarrow> Some x)"
  by (induction xs) (auto simp: at_def)

lemma apply_to_answer:
  assumes "\<And>old. meta_key (meta (merge old new)) = meta_key (meta old)"
  shows "apply_to meta merge xs new =
    (case answer meta merge (at meta xs (meta_key (meta new))) new of
       Inl e \<Rightarrow> Inl e | Inr res \<Rightarrow> Inr (res, upsert meta xs res))"
proof (cases "at meta xs (meta_key (meta new))")
  case Nil
  then show ?thesis by (simp add: apply_to_def answer_def upsert_def find_at has_key_def Let_def)
next
  case (Cons a ys)
  then have "a \<in> set (at meta xs (meta_key (meta new)))" by simp
  then have "meta_key (meta a) = meta_key (meta new)" by (simp add: at_def)
  with Cons assms show ?thesis by (simp add: apply_to_def answer_def upsert_def find_at has_key_def Let_def)
qed

lemma get_from_at: "get_from meta xs k = (case at meta xs k of [] \<Rightarrow> Inl NotFoundError | x # _ \<Rightarrow> Inr x)"
  by (simp add: get_from_def find_at split: list.split)

lemma upsert_id: "upsert meta xs x = xs \<longleftrightarrow>
    at meta xs (meta_key (meta x)) \<noteq> [] \<and> (\<forall>y \<in> set (at meta xs (meta_key (meta x))). y = x)"
proof -
  have "put_to meta xs k (\<lambda>_. x) = xs \<longleftrightarrow> (\<forall>y \<in> set (at meta xs k). y = x)" for k
    unfolding put_to_def at_def by (induction xs) auto
  then show ?thesis by (simp add: upsert_def Let_def)
qed

lemma put_to_status_id: "put_to meta xs k f = xs \<longleftrightarrow> (\<forall>y \<in> set (at meta xs k). f y = y)"
  unfolding put_to_def at_def by (induction xs) auto

lemma at_put_other: "(\<And>y. meta_key (meta (f y)) = meta_key (meta y)) \<Longrightarrow> k \<noteq> k' \<Longrightarrow>
    at meta (put_to meta xs k' f) k = at meta xs k"
  unfolding at_def put_to_def by (induction xs) auto

lemma at_upsert_other:
  assumes "k \<noteq> meta_key (meta x)"
  shows "at meta (upsert meta xs x) k = at meta xs k"
proof -
  have "at meta (put_to meta xs (meta_key (meta x)) (\<lambda>_. x)) k = at meta xs k"
    using assms unfolding at_def put_to_def by (induction xs) auto
  with assms show ?thesis by (simp add: upsert_def Let_def) (simp add: at_def)
qed

lemma set_upsert: "set (upsert meta xs x) \<subseteq> insert x (set xs)"
  unfolding upsert_def put_to_def Let_def by auto

subsection \<open>The plan of a run\<close>

record plan =
  pl_ConfigMap :: "ConfigMap option"
  pl_Deployment :: "Deployment option"
  pl_Service :: "Service option"
  pl_Status :: "InferenceServiceStatus option"

definition no_plan :: plan where
  "no_plan = \<lparr>pl_ConfigMap = None, pl_Deployment = None, pl_Service = None, pl_Status = None\<rparr>"

definition written :: "('a \<Rightarrow> ObjectMeta) \<Rightarrow> 'a list \<Rightarrow> 'a option \<Rightarrow> 'a list" where
  "written meta xs p = (case p of None \<Rightarrow> xs | Some x \<Rightarrow> upsert meta xs x)"

definition restated_at :: "NamespacedName \<Rightarrow> InferenceService list \<Rightarrow> InferenceServiceStatus option \<Rightarrow> InferenceService list" where
  "restated_at req xs p = (case p of None \<Rightarrow> xs | Some st \<Rightarrow> put_to is_Meta xs req (\<lambda>x. x\<lparr>is_Status := st\<rparr>))"

definition commit :: "NamespacedName \<Rightarrow> plan \<Rightarrow> cluster \<Rightarrow> cluster" where
  "commit req p w =
     w\<lparr>cl_ConfigMaps := written cm_Meta (cl_ConfigMaps w) (pl_ConfigMap p),
       cl_Deployments := written d_Meta (cl_Deployments w) (pl_Deployment p),
       cl_Services := written svc_Meta (cl_Services w) (pl_Service p),
       cl_InferenceServices := restated_at req (cl_InferenceServices w) (pl_Status p)\<rparr>"

definition gai_answer :: "cluster \<Rightarrow> InferenceService \<Rightarrow> ApiError + ConfigMap option" where
  "gai_answer w i =
     (if isvc_WeightsCache i = None then Inr None
      else map_sum id Some (answer cm_Meta merge_ConfigMap
        (at cm_Meta (cl_ConfigMaps w) (meta_key (cm_Meta (gaiObject i)))) (gaiObject i)))"

definition dep_answer :: "cluster \<Rightarrow> InferenceService \<Rightarrow> Deployment \<Rightarrow> Deployment option" where
  "dep_answer w i rendered =
     (case ownedDeployment ref_kube i rendered of
        Inl _ \<Rightarrow> None
      | Inr d \<Rightarrow> (case answer d_Meta merge_Deployment (at d_Meta (cl_Deployments w) (meta_key (d_Meta d))) d of
          Inl _ \<Rightarrow> None | Inr dr \<Rightarrow> Some dr))"

definition svc_answer :: "cluster \<Rightarrow> InferenceService \<Rightarrow> Service option" where
  "svc_answer w i =
     (case ownedService ref_kube i of
        Inl _ \<Rightarrow> None
      | Inr sv \<Rightarrow> (case answer svc_Meta merge_Service (at svc_Meta (cl_Services w) (meta_key (svc_Meta sv))) sv of
          Inl _ \<Rightarrow> None | Inr sr \<Rightarrow> Some sr))"

definition apply_plan :: "cluster \<Rightarrow> InferenceService \<Rightarrow> BrukModel \<Rightarrow> Config \<Rightarrow> plan" where
  "apply_plan w i m cfg =
     (case gai_answer w i of
        Inl _ \<Rightarrow> no_plan
      | Inr cm \<Rightarrow>
      (case the (renderDeployment i m cfg) of
        Inl err \<Rightarrow> no_plan\<lparr>pl_ConfigMap := cm,
          pl_Status := Some (is_Status (failedService ref_kube ReasonInvalidConfig (error_text err) i))\<rparr>
      | Inr rendered \<Rightarrow>
      (case dep_answer w i rendered of
        None \<Rightarrow> no_plan\<lparr>pl_ConfigMap := cm\<rparr>
      | Some dr \<Rightarrow>
      (case svc_answer w i of
        None \<Rightarrow> no_plan\<lparr>pl_ConfigMap := cm, pl_Deployment := Some dr\<rparr>
      | Some sr \<Rightarrow> \<lparr>pl_ConfigMap = cm, pl_Deployment = Some dr, pl_Service = Some sr,
          pl_Status = Some (is_Status (readyService ref_kube i m dr cfg))\<rparr>))))"

definition plan_of :: "NamespacedName \<Rightarrow> cluster \<Rightarrow> plan" where
  "plan_of req w =
     (case get_from is_Meta (cl_InferenceServices w) req of
        Inl _ \<Rightarrow> no_plan
      | Inr i \<Rightarrow>
      (case snd (decide req w i) of
        Inl (reason, msg) \<Rightarrow> no_plan\<lparr>pl_Status := Some (is_Status (failedService ref_kube reason msg i))\<rparr>
      | Inr (t, m) \<Rightarrow> apply_plan w i m (tenantConfig t)))"

definition settle_step :: "NamespacedName \<Rightarrow> cluster \<Rightarrow> cluster" where
  "settle_step req w = fst (snd (run (ReconcileISVC ref_kube req) w))"

lemma written_simps [simp]: "written meta xs None = xs" "written meta xs (Some x) = upsert meta xs x" "restated_at req is None = is"
  by (simp_all add: written_def restated_at_def)

lemma commit_no_plan [simp]: "commit req no_plan w = w"
  by (simp add: commit_def no_plan_def)

lemma merged_key:
  "meta_key (d_Meta (merge_Deployment od d)) = meta_key (d_Meta od)"
  "meta_key (svc_Meta (merge_Service os sv)) = meta_key (svc_Meta os)"
  "meta_key (cm_Meta (merge_ConfigMap oc cm)) = meta_key (cm_Meta oc)"
  by (simp_all add: merge_Deployment_def merge_Service_def merge_ConfigMap_def merge_meta_idem(3))

lemmas apply_answers =
  apply_to_answer [of d_Meta merge_Deployment, OF merged_key(1)]
  apply_to_answer [of svc_Meta merge_Service, OF merged_key(2)]
  apply_to_answer [of cm_Meta merge_ConfigMap, OF merged_key(3)]

lemma gai_run:
  obtains (refused) e cs where "gai_answer (world s) i = Inl e"
      "run_state (applyGaiConfigMap ref_kube i) s = (Some (Wrapf ''applying gai ConfigMap: '' (Api e)), s\<lparr>calls := cs\<rparr>)"
  | (ok) cm cs where "gai_answer (world s) i = Inr cm"
      "run_state (applyGaiConfigMap ref_kube i) s =
         (None, s\<lparr>world := (world s)\<lparr>cl_ConfigMaps := written cm_Meta (cl_ConfigMaps (world s)) cm\<rparr>, calls := cs\<rparr>)"
proof (cases "isvc_WeightsCache i")
  case None
  then show thesis
    by (intro ok [of None "calls s"]) (simp_all add: gai_answer_def applyGaiConfigMap_def)
next
  case (Some wc)
  let ?a = "answer cm_Meta merge_ConfigMap (at cm_Meta (cl_ConfigMaps (world s)) (meta_key (cm_Meta (gaiObject i)))) (gaiObject i)"
  show thesis
  proof (cases ?a)
    case (Inl e)
    with Some show thesis
      by (intro refused [of e]) (simp_all add: gai_answer_def stage_defs ref_kube_def apply_answers)
  next
    case (Inr cm)
    with Some show thesis
      by (intro ok [of "Some cm"]) (simp_all add: gai_answer_def stage_defs ref_kube_def apply_answers written_def)
  qed
qed

lemma dep_run:
  obtains (refused) e cs where "dep_answer (world s) i rendered = None"
      "run_state (applyOwnedDeployment ref_kube i rendered) s = (Inl e, s\<lparr>calls := cs\<rparr>)"
  | (ok) dr cs where "dep_answer (world s) i rendered = Some dr"
      "run_state (applyOwnedDeployment ref_kube i rendered) s =
         (Inr dr, s\<lparr>world := (world s)\<lparr>cl_Deployments := upsert d_Meta (cl_Deployments (world s)) dr\<rparr>, calls := cs\<rparr>)"
proof (cases "ownedDeployment ref_kube i rendered")
  case (Inl e)
  then show thesis by (intro refused [of e "calls s"]) (simp_all add: dep_answer_def applyOwnedDeployment_def)
next
  case own: (Inr d)
  let ?a = "answer d_Meta merge_Deployment (at d_Meta (cl_Deployments (world s)) (meta_key (d_Meta d))) d"
  show thesis
  proof (cases ?a)
    case (Inl e)
    with own show thesis
      by (intro refused) (simp_all add: dep_answer_def stage_defs ref_kube_def apply_answers)
  next
    case (Inr dr)
    with own show thesis
      by (intro ok [of dr]) (simp_all add: dep_answer_def stage_defs ref_kube_def apply_answers)
  qed
qed

lemma svc_run:
  obtains (refused) e cs where "svc_answer (world s) i = None"
      "run_state (applyOwnedService ref_kube i) s = (Some e, s\<lparr>calls := cs\<rparr>)"
  | (ok) sr cs where "svc_answer (world s) i = Some sr"
      "run_state (applyOwnedService ref_kube i) s =
         (None, s\<lparr>world := (world s)\<lparr>cl_Services := upsert svc_Meta (cl_Services (world s)) sr\<rparr>, calls := cs\<rparr>)"
proof (cases "ownedService ref_kube i")
  case (Inl e)
  then show thesis by (intro refused [of e "calls s"]) (simp_all add: svc_answer_def applyOwnedService_def)
next
  case own: (Inr sv)
  let ?a = "answer svc_Meta merge_Service (at svc_Meta (cl_Services (world s)) (meta_key (svc_Meta sv))) sv"
  show thesis
  proof (cases ?a)
    case (Inl e)
    with own show thesis
      by (intro refused) (simp_all add: svc_answer_def stage_defs ref_kube_def apply_answers)
  next
    case (Inr sr)
    with own show thesis
      by (intro ok [of sr]) (simp_all add: svc_answer_def stage_defs ref_kube_def apply_answers)
  qed
qed

text \<open>A status write changes the entries under the service's key, if there are any.\<close>

lemma status_world:
  assumes "meta_key (is_Meta j) = req"
  shows "world (snd (run_state (do { err \<leftarrow> updateInferenceServiceStatus ref_kube j;
          State_Monad.return (Returned (map_option Api err)) }) s)) =
    (world s)\<lparr>cl_InferenceServices := restated_at req (cl_InferenceServices (world s)) (Some (is_Status j))\<rparr>"
proof (cases "has_key is_Meta (cl_InferenceServices (world s)) req")
  case True
  with assms show ?thesis
    by (simp add: client_call_defs go_simps ref_kube_def update_status_def Let_def restated_at_def)
next
  case False
  have "put_to is_Meta xs req f = xs" if "\<not> has_key is_Meta xs req" for xs :: "InferenceService list" and f
    using that by (induction xs) (auto simp: has_key_def put_to_def split: if_splits)
  with False assms show ?thesis
    by (simp add: client_call_defs go_simps ref_kube_def update_status_def Let_def restated_at_def)
qed

lemma answers_cong:
  "at cm_Meta (cl_ConfigMaps w') (meta_key (cm_Meta (gaiObject i))) = at cm_Meta (cl_ConfigMaps w) (meta_key (cm_Meta (gaiObject i)))
     \<Longrightarrow> gai_answer w' i = gai_answer w i"
  "cl_Deployments w' = cl_Deployments w \<Longrightarrow> dep_answer w' i rendered = dep_answer w i rendered"
  "cl_Services w' = cl_Services w \<Longrightarrow> svc_answer w' i = svc_answer w i"
  by (simp_all only: gai_answer_def dep_answer_def svc_answer_def)

lemma apply_world:
  assumes "meta_key (is_Meta i) = req"
  shows "world (snd (run_state (reconcileApply ref_kube i m cfg) s)) = commit req (apply_plan (world s) i m cfg) (world s)"
proof (cases rule: gai_run [of s i])
  case (refused e cs)
  then show ?thesis by (simp add: reconcileApply_def go_simps apply_plan_def)
next
  case gai: (ok cm cs)
  obtain rd where rd: "renderDeployment i m cfg = Some rd"
    using renderDeployment_not_None [of i m cfg] by blast
  let ?s1 = "s\<lparr>world := (world s)\<lparr>cl_ConfigMaps := written cm_Meta (cl_ConfigMaps (world s)) cm\<rparr>, calls := cs\<rparr>"
  show ?thesis
  proof (cases rd)
    case (Inl err)
    from assms gai rd Inl
      status_world [of "failedService ref_kube ReasonInvalidConfig (error_text err) i" req ?s1]
    show ?thesis
      by (simp add: reconcileApply_def failConfigured_def go_simps apply_plan_def commit_def no_plan_def failedService_status)
  next
    case (Inr rendered)
    have dep_same: "dep_answer (world ?s1) i rendered = dep_answer (world s) i rendered"
      by (rule answers_cong(2)) simp
    show ?thesis
    proof (cases rule: dep_run [of ?s1 i rendered])
      case (refused e cs')
      with gai rd Inr dep_same show ?thesis
        by (simp add: reconcileApply_def go_simps apply_plan_def commit_def no_plan_def)
    next
      case dep: (ok dr cs')
      let ?s2 = "?s1\<lparr>world := (world ?s1)\<lparr>cl_Deployments := upsert d_Meta (cl_Deployments (world ?s1)) dr\<rparr>, calls := cs'\<rparr>"
      have svc_same: "svc_answer (world ?s2) i = svc_answer (world s) i"
        by (rule answers_cong(3)) simp
      have dep_s: "dep_answer (world s) i rendered = Some dr" using dep(1) dep_same by simp
      note simps = gai rd Inr dep(2) [simplified] dep_s svc_same reconcileApply_def applyServiceAndStatus_def go_simps apply_plan_def
        commit_def no_plan_def
      show ?thesis
      proof (cases rule: svc_run [of ?s2 i])
        case (refused e cs'')
        have "svc_answer (world s) i = None" using refused(1) svc_same by simp
        then show ?thesis by (simp add: simps refused(2) [simplified])
      next
        case (ok sr cs'')
        have svc_s: "svc_answer (world s) i = Some sr" using ok(1) svc_same by simp
        let ?s3 = "?s2\<lparr>world := (world ?s2)\<lparr>cl_Services := upsert svc_Meta (cl_Services (world ?s2)) sr\<rparr>, calls := cs''\<rparr>"
        from assms status_world [of "readyService ref_kube i m dr cfg" req ?s3] show ?thesis
          by (simp add: simps ok(2) [simplified] svc_s updateReadyStatus_def readyService_status)
      qed
    qed
  qed
qed

lemma run_plan: "settle_step req w = commit req (plan_of req w) w"
proof (cases "get_from is_Meta (cl_InferenceServices w) req")
  case (Inl e)
  with get_from_error [OF Inl] show ?thesis
    by (simp add: settle_step_def run_def plan_of_def ReconcileISVC_def client_call_defs go_simps)
next
  case (Inr i)
  let ?s = "\<lparr>world = w, calls = fst (decide req w i)\<rparr>"
  have step: "settle_step req w = world (snd (run_state (carry_out (snd (decide req w i)) i) ?s))"
    using run_decides [of "\<lparr>world = w, calls = []\<rparr>" req i] Inr
    by (simp add: settle_step_def run_def split: prod.splits)
  show ?thesis
  proof (cases "snd (decide req w i)")
    case (Inl p)
    obtain reason msg where p: "p = (reason, msg)" by fastforce
    from get_from_key [OF Inr] Inr status_world [of "failedService ref_kube reason msg i" req ?s] show ?thesis
      by (simp add: step plan_of_def Inl p carry_out_def failConfigured_def commit_def no_plan_def failedService_status)
  next
    case go: (Inr p)
    obtain t m where p: "p = (t, m)" by fastforce
    from get_from_key [OF Inr] Inr apply_world [of i req m "tenantConfig t" ?s] show ?thesis
      by (simp add: step plan_of_def go p carry_out_def)
  qed
qed

subsection \<open>What is planned\<close>

lemma answer_key:
  assumes "answer meta merge (at meta xs (meta_key (meta new))) new = Inr res"
    and "\<And>old. meta_key (meta (merge old new)) = meta_key (meta old)"
  shows "meta_key (meta res) = meta_key (meta new)"
proof (cases "at meta xs (meta_key (meta new))")
  case Nil
  with assms(1) show ?thesis by (simp add: answer_def Let_def split: if_splits)
next
  case (Cons a ys)
  then have "a \<in> set (at meta xs (meta_key (meta new)))" by simp
  then have "meta_key (meta a) = meta_key (meta new)" by (simp add: at_def)
  moreover have "res = merge a new" using Cons assms(1) by (simp add: answer_def Let_def split: if_splits)
  ultimately show ?thesis using assms(2) [of a] by simp
qed

lemma decide_go:
  "snd (decide req w i) = Inr (t, m) \<longleftrightarrow>
     get_from bt_Meta (cl_BrukTenants w) tenantKey = Inr t \<and>
     get_from bm_Meta (cl_BrukModels w) (modelKey i) = Inr m \<and> specProblem i m = None \<and>
     siblingConflict ref_kube i (list_from is_Meta (cl_InferenceServices w) (Some (isvc_Namespace i))) = None \<and>
     deploymentConflict ref_kube i (list_from d_Meta (cl_Deployments w) (Some (isvc_Namespace i))) = None \<and>
     podConflict i (list_from pod_Meta (cl_Pods w) (Some (isvc_Namespace i))) = None"
  by (auto simp: decide_def Let_def split: sum.splits option.splits)

definition cleared_at :: "NamespacedName \<Rightarrow> cluster \<Rightarrow> InferenceService \<Rightarrow> BrukTenant \<Rightarrow> BrukModel \<Rightarrow> bool" where
  "cleared_at req w i t m \<longleftrightarrow>
     get_from is_Meta (cl_InferenceServices w) req = Inr i \<and> snd (decide req w i) = Inr (t, m)"

text \<open>A planned Deployment is the service's: under its key and its control, with its claim alone.\<close>

lemma planned_Deployment:
  assumes "pl_Deployment (plan_of req w) = Some dr"
  obtains i t m where "cleared_at req w i t m" "meta_key (d_Meta dr) = req"
    "ref_isControlledBy (d_Meta dr) (is_Meta i)"
    "claims_of_deployment dr = {isvc_Claim i}"
proof -
  from assms obtain i t m where clear: "cleared_at req w i t m"
    and p: "pl_Deployment (apply_plan w i m (tenantConfig t)) = Some dr"
    by (auto simp: plan_of_def no_plan_def cleared_at_def split: sum.splits)
  have key: "meta_key (is_Meta i) = req" using clear by (auto simp: cleared_at_def dest: get_from_key)
  obtain rd where "renderDeployment i m (tenantConfig t) = Some rd" using renderDeployment_not_None by blast
  with p obtain rendered where r: "renderDeployment i m (tenantConfig t) = Some (Inr rendered)"
    and dr: "dep_answer w i rendered = Some dr"
    by (auto simp: apply_plan_def no_plan_def split: sum.splits option.splits)
  from dr obtain d where own: "ownedDeployment ref_kube i rendered = Inr d"
    and ans: "answer d_Meta merge_Deployment (at d_Meta (cl_Deployments w) (meta_key (d_Meta d))) d = Inr dr"
    by (auto simp: dep_answer_def split: sum.splits)
  have child: "child_deployment ref_kube i m (tenantConfig t) d" using r own by (auto simp: child_deployment_def)
  obtain co vols where co: "rendered = deploymentOf i (tenantConfig t) co vols" using r by (rule rendered_deploymentOf)
  have refs: "om_OwnerReferences (d_Meta d) = [controller_ref (is_Meta i)]" using own unfolding co by (rule owned_refs)
  have "om_Name (d_Meta d) = isvc_Name i"
    using own by (auto simp: ownedDeployment_def Let_def co render_simps split: sum.splits
        dest!: ref_cr.set_key(1))
  moreover have "om_Namespace (d_Meta d) = isvc_Namespace i" by (rule ref_ds.child_claims(2) [OF child])
  ultimately have dkey: "meta_key (d_Meta d) = req" using key by (simp add: meta_key_def)
  have drkey: "meta_key (d_Meta dr) = req"
    using answer_key [OF ans] dkey by (simp add: merged_key)
  have "apply_to d_Meta merge_Deployment (cl_Deployments w) d = Inr (dr, upsert d_Meta (cl_Deployments w) dr)"
    using ans by (simp add: apply_answers)
  then have "ref_isControlledBy (d_Meta dr) (is_Meta i)" using refs by (rule merged_owner)
  moreover have "d_Spec dr = d_Spec d"
    using ans by (auto simp: answer_def Let_def merge_Deployment_def split: list.splits if_splits)
  then have "claims_of_deployment dr = {isvc_Claim i}"
    using ref_ds.child_claims(1) [OF child] by (simp add: claims_of_deployment_def)
  ultimately show thesis using that [OF clear drkey] by blast
qed

subsection \<open>What a step changes for the others\<close>

lemma step_frames [simp]:
  "cl_BrukTenants (settle_step q w) = cl_BrukTenants w" "cl_BrukModels (settle_step q w) = cl_BrukModels w"
  "cl_Pods (settle_step q w) = cl_Pods w" "cl_Secrets (settle_step q w) = cl_Secrets w"
  "cl_ConfigMaps (settle_step q w) = written cm_Meta (cl_ConfigMaps w) (pl_ConfigMap (plan_of q w))"
  "cl_Deployments (settle_step q w) = written d_Meta (cl_Deployments w) (pl_Deployment (plan_of q w))"
  "cl_Services (settle_step q w) = written svc_Meta (cl_Services w) (pl_Service (plan_of q w))"
  "cl_InferenceServices (settle_step q w) = restated_at q (cl_InferenceServices w) (pl_Status (plan_of q w))"
  by (simp_all add: run_plan commit_def)

lemma restated_parts:
  "map (\<lambda>i. (is_Meta i, is_Spec i)) (restated_at q xs p) = map (\<lambda>i. (is_Meta i, is_Spec i)) xs"
  "req \<noteq> q \<Longrightarrow> at is_Meta (restated_at q xs p) req = at is_Meta xs req"
  "req \<noteq> q \<Longrightarrow> get_from is_Meta (restated_at q xs p) req = get_from is_Meta xs req"
proof -
  show "map (\<lambda>i. (is_Meta i, is_Spec i)) (restated_at q xs p) = map (\<lambda>i. (is_Meta i, is_Spec i)) xs"
    by (cases p) (auto simp: restated_at_def put_to_def)
  show at: "at is_Meta (restated_at q xs p) req = at is_Meta xs req" if "req \<noteq> q"
    using that by (cases p) (simp_all add: restated_at_def at_put_other)
  then show "get_from is_Meta (restated_at q xs p) req = get_from is_Meta xs req" if "req \<noteq> q"
    using that by (simp add: get_from_at)
qed

lemma list_from_specs:
  fixes xs ys :: "InferenceService list"
  assumes "map (\<lambda>i. (is_Meta i, is_Spec i)) xs = map (\<lambda>i. (is_Meta i, is_Spec i)) ys"
  shows "map (\<lambda>i. (is_Meta i, is_Spec i)) (list_from is_Meta xs ns) = map (\<lambda>i. (is_Meta i, is_Spec i)) (list_from is_Meta ys ns)"
  using assms
proof (induction xs arbitrary: ys)
  case (Cons x xs)
  then obtain y ys' where "ys = y # ys'" by (cases ys) auto
  with Cons show ?case by (auto simp: list_from_def split: option.splits)
qed simp

lemma restated_siblings:
  "map (\<lambda>i. (is_Meta i, is_Spec i)) (list_from is_Meta (restated_at q xs p) ns) =
   map (\<lambda>i. (is_Meta i, is_Spec i)) (list_from is_Meta xs ns)"
  by (rule list_from_specs) (rule restated_parts(1))

lemma restated_get:
  assumes "get_from is_Meta xs req = Inr i"
  obtains st where "get_from is_Meta (restated_at q xs p) req = Inr (i\<lparr>is_Status := st\<rparr>)"
    "req \<noteq> q \<Longrightarrow> i\<lparr>is_Status := st\<rparr> = i"
proof (cases "req = q \<and> p \<noteq> None")
  case True
  then obtain st where "p = Some st" by blast
  with True assms show thesis
    using get_put_to [OF assms, of "\<lambda>x. x\<lparr>is_Status := st\<rparr>"] by (intro that [of st]) (simp_all add: restated_at_def)
next
  case False
  with assms restated_parts(3) [of req q xs p] show thesis
    by (intro that [of "is_Status i"]) auto
qed

text \<open>Of two services with one claim in one namespace, one is refused for the other.\<close>

lemma cleared_claims:
  assumes "cleared_at req w i t m" and "cleared_at q w j t' m'" and "req \<noteq> q"
    and "isvc_Namespace j = isvc_Namespace i"
  shows "isvc_Claim j \<noteq> isvc_Claim i"
proof
  assume same: "isvc_Claim j = isvc_Claim i"
  from assms(1,2) have "meta_key (is_Meta i) = req" "meta_key (is_Meta j) = q"
    and "i \<in> set (cl_InferenceServices w)" "j \<in> set (cl_InferenceServices w)"
    by (auto simp: cleared_at_def dest: get_from_key)
  with assms(3,4) have names: "isvc_Name i \<noteq> isvc_Name j"
    and "i \<in> set (list_from is_Meta (cl_InferenceServices w) (Some (isvc_Namespace j)))"
    "j \<in> set (list_from is_Meta (cl_InferenceServices w) (Some (isvc_Namespace i)))"
    by (auto simp: meta_key_def list_from_def)
  with assms(1,2) same have "\<not> precedes ref_kube j i" "\<not> precedes ref_kube i j"
    by (auto simp: cleared_at_def decide_go siblingConflict_None)
  with ref.co.claim_decides [OF names] show False by blast
qed

text \<open>A verdict to apply is never taken back.\<close>

lemma cleared_step:
  assumes "cleared_at req w i t m"
  obtains st where "cleared_at req (settle_step q w) (i\<lparr>is_Status := st\<rparr>) t m"
    "req \<noteq> q \<Longrightarrow> i\<lparr>is_Status := st\<rparr> = i"
proof -
  from assms have got: "get_from is_Meta (cl_InferenceServices w) req = Inr i"
    and go: "snd (decide req w i) = Inr (t, m)" by (simp_all add: cleared_at_def)
  obtain st where st: "get_from is_Meta (cl_InferenceServices (settle_step q w)) req = Inr (i\<lparr>is_Status := st\<rparr>)"
    "req \<noteq> q \<Longrightarrow> i\<lparr>is_Status := st\<rparr> = i"
    using restated_get [OF got, of q "pl_Status (plan_of q w)"] by auto
  let ?i = "i\<lparr>is_Status := st\<rparr>" and ?ns = "Some (isvc_Namespace i)"
  have "siblingConflict ref_kube ?i (list_from is_Meta (cl_InferenceServices (settle_step q w)) ?ns) =
      siblingConflict ref_kube i (list_from is_Meta (cl_InferenceServices w) ?ns)"
    by (rule siblingConflict_cong) (simp_all add: restated_siblings)
  moreover have "deploymentConflict ref_kube i (list_from d_Meta (cl_Deployments (settle_step q w)) ?ns) = None"
    unfolding deploymentConflict_None
  proof
    fix x assume "x \<in> set (list_from d_Meta (cl_Deployments (settle_step q w)) ?ns)"
    then have x: "om_Namespace (d_Meta x) = isvc_Namespace i" "x \<in> set (cl_Deployments (settle_step q w))"
      by (simp_all add: list_from_def)
    consider "x \<in> set (cl_Deployments w)" | "pl_Deployment (plan_of q w) = Some x"
      using x(2) set_upsert by (cases "pl_Deployment (plan_of q w)") fastforce+
    then show "k_isControlledBy ref_kube (d_Meta x) (is_Meta i) \<or>
        \<not> podSpecMountsClaim (pt_Spec (ds_Template (d_Spec x))) (isvc_Claim i)"
    proof cases
      case 1
      with x(1) go show ?thesis by (auto simp: decide_go deploymentConflict_None list_from_def)
    next
      case 2
      then obtain j t' m' where j: "cleared_at q w j t' m'" "meta_key (d_Meta x) = q"
        "ref_isControlledBy (d_Meta x) (is_Meta j)" "claims_of_deployment x = {isvc_Claim j}"
        by (rule planned_Deployment)
      show ?thesis
      proof (cases "req = q")
        case True
        with j(1) assms have "j = i" by (simp add: cleared_at_def)
        with j(3) show ?thesis by simp
      next
        case False
        have "meta_key (is_Meta j) = q" using j(1) by (auto simp: cleared_at_def dest: get_from_key)
        with j(2) x(1) have "isvc_Namespace j = isvc_Namespace i" by (auto simp: meta_key_def)
        from cleared_claims [OF assms j(1) False this] j(4) show ?thesis
          by (auto simp: podSpecMountsClaim_def volumesMountClaim_claims claims_of_deployment_def)
      qed
    qed
  qed
  ultimately have "snd (decide req (settle_step q w) ?i) = Inr (t, m)"
    using go podConflict_cong [of ?i i] deploymentConflict_cong [of ?i i ref_kube] by (simp add: decide_go modelKey_def)
  with st that show thesis by (simp add: cleared_at_def)
qed

lemma at_upsert_same:
  "at meta (upsert meta xs x) (meta_key (meta x)) =
     (if at meta xs (meta_key (meta x)) = [] then [x] else map (\<lambda>_. x) (at meta xs (meta_key (meta x))))"
proof -
  have "at meta (put_to meta xs (meta_key (meta x)) (\<lambda>_. x)) (meta_key (meta x)) =
      map (\<lambda>_. x) (at meta xs (meta_key (meta x)))"
    unfolding at_def put_to_def by (induction xs) auto
  then show ?thesis by (simp add: upsert_def Let_def) (simp add: at_def)
qed

text \<open>The answer to an object that has been applied is the same object.\<close>

lemma answer_again:
  assumes "answer meta merge (at meta xs (meta_key (meta new))) new = Inr res"
    and "\<And>old. meta_key (meta (merge old new)) = meta_key (meta old)"
    and "\<And>old. merge (merge old new) new = merge old new" and "merge new new = new"
  shows "answer meta merge (at meta (upsert meta xs res) (meta_key (meta new))) new = Inr res"
proof -
  have key: "meta_key (meta res) = meta_key (meta new)" by (rule answer_key [OF assms(1,2)])
  have one: "one_controller_at_most (meta res)" and res: "res = new \<or> (\<exists>old. res = merge old new)"
    using assms(1) by (auto simp: answer_def Let_def split: list.splits if_splits)
  from res assms(3,4) have "merge res new = res" by auto
  with one show ?thesis
    using at_upsert_same [of meta xs res] unfolding key
    by (auto simp: answer_def Let_def split: list.split)
qed

lemma gai_key: "meta_key (cm_Meta (gaiObject i)) = meta_key (cm_Meta (gaiObject j)) \<Longrightarrow> gaiObject i = gaiObject j"
  by (simp add: gaiObject_def renderGaiConfigMap_def meta_key_def zero_ObjectMeta_def)

lemma planned_ConfigMap:
  assumes "pl_ConfigMap (plan_of q w) = Some c"
  obtains j where "answer cm_Meta merge_ConfigMap (at cm_Meta (cl_ConfigMaps w) (meta_key (cm_Meta (gaiObject j)))) (gaiObject j) = Inr c"
proof -
  from assms obtain i t m where p: "pl_ConfigMap (apply_plan w i m (tenantConfig t)) = Some c"
    by (auto simp: plan_of_def no_plan_def split: sum.splits)
  then have "gai_answer w i = Inr (Some c)"
    by (auto simp: apply_plan_def no_plan_def split: sum.splits option.splits)
  then show thesis
    by (auto simp: gai_answer_def intro: that [of i] split: if_splits) (cases "answer cm_Meta merge_ConfigMap (at cm_Meta (cl_ConfigMaps w) (meta_key (cm_Meta (gaiObject i)))) (gaiObject i)"; auto intro: that [of i])
qed

text \<open>All services of a namespace apply the same ConfigMap, so none changes the answer another gets.\<close>

lemma gai_step: "gai_answer (settle_step q w) i = gai_answer w i"
proof (cases "pl_ConfigMap (plan_of q w)")
  case None
  then show ?thesis by (intro answers_cong(1)) simp
next
  case (Some c)
  then obtain j where c: "answer cm_Meta merge_ConfigMap (at cm_Meta (cl_ConfigMaps w) (meta_key (cm_Meta (gaiObject j)))) (gaiObject j) = Inr c"
    by (rule planned_ConfigMap)
  have key: "meta_key (cm_Meta c) = meta_key (cm_Meta (gaiObject j))"
    by (rule answer_key [OF c]) (rule merged_key)
  show ?thesis
  proof (cases "meta_key (cm_Meta (gaiObject i)) = meta_key (cm_Meta (gaiObject j))")
    case False
    with Some key show ?thesis by (intro answers_cong(1)) (simp add: at_upsert_other)
  next
    case True
    from gai_key [OF True] have same: "gaiObject i = gaiObject j" .
    have "answer cm_Meta merge_ConfigMap (at cm_Meta (upsert cm_Meta (cl_ConfigMaps w) c) (meta_key (cm_Meta (gaiObject j)))) (gaiObject j) = Inr c"
      by (rule answer_again [OF c]) (simp_all add: merge_ConfigMap_def merge_meta_idem map_add_self map_add_again)
    with c Some show ?thesis by (simp add: gai_answer_def same)
  qed
qed

lemma set_meta_key: "ref_setControllerReference owner m = Inr m' \<Longrightarrow> meta_key m' = meta_key m"
  using ref.cr.set_key(1,2) [of owner m m'] by (simp add: meta_key_def)

lemma owned_keys:
  "renderDeployment i m cfg = Some (Inr rendered) \<Longrightarrow> ownedDeployment ref_kube i rendered = Inr d \<Longrightarrow>
     meta_key (d_Meta d) = meta_key (is_Meta i)"
  "ownedService ref_kube i = Inr sv \<Longrightarrow>
     meta_key (svc_Meta sv) = \<lparr>nn_Namespace = isvc_Namespace i, nn_Name = ServiceName i\<rparr>"
  by (auto simp: ownedDeployment_def ownedService_def Let_def meta_key_eq render_simps renderService_fields
      elim!: rendered_deploymentOf dest!: set_meta_key split: sum.splits) (simp add: meta_key_def renderService_fields)?

lemma planned_Service:
  assumes "pl_Service (plan_of q w) = Some sr"
  shows "meta_key (svc_Meta sr) = \<lparr>nn_Namespace = nn_Namespace q, nn_Name = nn_Name q @ ''-svc''\<rparr>"
proof -
  from assms obtain i t m where clear: "cleared_at q w i t m"
    and p: "pl_Service (apply_plan w i m (tenantConfig t)) = Some sr"
    by (auto simp: plan_of_def no_plan_def cleared_at_def split: sum.splits)
  then have "svc_answer w i = Some sr"
    by (auto simp: apply_plan_def no_plan_def split: sum.splits option.splits)
  then obtain sv where own: "ownedService ref_kube i = Inr sv"
    and ans: "answer svc_Meta merge_Service (at svc_Meta (cl_Services w) (meta_key (svc_Meta sv))) sv = Inr sr"
    by (auto simp: svc_answer_def split: sum.splits)
  have "meta_key (svc_Meta sr) = meta_key (svc_Meta sv)" by (rule answer_key [OF ans]) (rule merged_key)
  moreover have "meta_key (is_Meta i) = q" using clear by (auto simp: cleared_at_def dest: get_from_key)
  ultimately show ?thesis using owned_keys(2) [OF own] by (auto simp: ServiceName_def meta_key_def)
qed

text \<open>The plan of an application is the same after the step of another service.\<close>

lemma apply_plan_step:
  assumes "meta_key (is_Meta i) = req" and "req \<noteq> q"
  shows "apply_plan (settle_step q w) i m cfg = apply_plan w i m cfg"
proof -
  have dep: "dep_answer (settle_step q w) i rendered = dep_answer w i rendered"
    if "renderDeployment i m cfg = Some (Inr rendered)" for rendered
  proof (cases "ownedDeployment ref_kube i rendered")
    case (Inr d)
    with that assms(1) have "meta_key (d_Meta d) = req" by (simp add: owned_keys(1))
    moreover have "at d_Meta (cl_Deployments (settle_step q w)) req = at d_Meta (cl_Deployments w) req"
    proof (cases "pl_Deployment (plan_of q w)")
      case (Some dr)
      then have "meta_key (d_Meta dr) = q" by (rule planned_Deployment)
      with Some assms(2) show ?thesis by (simp add: at_upsert_other)
    qed simp
    ultimately show ?thesis unfolding dep_answer_def Inr by simp
  qed (simp add: dep_answer_def)
  have svc: "svc_answer (settle_step q w) i = svc_answer w i"
  proof (cases "ownedService ref_kube i")
    case (Inr sv)
    have key: "meta_key (svc_Meta sv) = \<lparr>nn_Namespace = nn_Namespace req, nn_Name = nn_Name req @ ''-svc''\<rparr>"
      using owned_keys(2) [OF Inr] assms(1) by (auto simp: ServiceName_def meta_key_def)
    have "at svc_Meta (cl_Services (settle_step q w)) (meta_key (svc_Meta sv)) = at svc_Meta (cl_Services w) (meta_key (svc_Meta sv))"
    proof (cases "pl_Service (plan_of q w)")
      case (Some sr)
      with planned_Service [OF Some] assms(2) show ?thesis
        unfolding key by (cases req; cases q) (simp add: at_upsert_other)
    qed simp
    then show ?thesis unfolding svc_answer_def Inr by simp
  qed (simp add: svc_answer_def)
  obtain rd where "renderDeployment i m cfg = Some rd" using renderDeployment_not_None by blast
  then show ?thesis using dep unfolding apply_plan_def gai_step svc
    by (cases "gai_answer w i"; cases rd) simp_all
qed

lemma plan_step_cleared:
  assumes "cleared_at req w i t m" and "req \<noteq> q"
  shows "plan_of req (settle_step q w) = plan_of req w"
proof -
  from assms(1) have key: "meta_key (is_Meta i) = req" by (auto simp: cleared_at_def dest: get_from_key)
  obtain st where "cleared_at req (settle_step q w) (i\<lparr>is_Status := st\<rparr>) t m" "i\<lparr>is_Status := st\<rparr> = i"
    using cleared_step [OF assms(1), of q] assms(2) by metis
  with assms(1) show ?thesis by (simp add: plan_of_def cleared_at_def apply_plan_step [OF key assms(2)])
qed

lemma plan_step_kept:
  assumes "cl_Deployments (settle_step q w) = cl_Deployments w" and "req \<noteq> q"
  shows "plan_of req (settle_step q w) = plan_of req w"
proof (cases "get_from is_Meta (cl_InferenceServices w) req")
  case (Inl e)
  with assms(2) show ?thesis by (simp add: plan_of_def restated_parts(3))
next
  case (Inr i)
  have key: "meta_key (is_Meta i) = req" using get_from_key [OF Inr] by simp
  let ?f = "\<lambda>x. case pl_Status (plan_of q w) of None \<Rightarrow> x | Some st \<Rightarrow> x\<lparr>is_Status := st\<rparr>"
  have "i = i\<lparr>is_Status := is_Status i\<rparr>" by simp
  moreover have "cl_InferenceServices (settle_step q w) = put_to is_Meta (cl_InferenceServices w) q ?f"
    by (simp add: restated_at_def split: option.split)
  moreover have "\<exists>st. ?f x = x\<lparr>is_Status := st\<rparr>" for x
    by (cases "pl_Status (plan_of q w)") (auto intro: exI [of _ "is_Status x"])
  ultimately have "decide req (settle_step q w) i = decide req w i"
    using assms(1) by (intro decide_after [where st = "is_Status i" and key = q and f = ?f]) (simp_all del: step_frames(6))
  with Inr assms(2) show ?thesis
    by (simp add: plan_of_def restated_parts(3) apply_plan_step [OF key assms(2)] split: sum.split)
qed

subsection \<open>Coming to rest\<close>

lemma step_idem: "settle_step req (settle_step req w) = settle_step req w"
proof -
  obtain r w' cs where run: "run (ReconcileISVC ref_kube req) w = (r, w', cs)" by (metis prod.collapse)
  from reconcile_again [OF run] run show ?thesis by (simp add: settle_step_def)
qed

lemma written_id_other:
  assumes "written meta xs p = xs"
    and "\<And>x y. p = Some x \<Longrightarrow> p' = Some y \<Longrightarrow> meta_key (meta x) = meta_key (meta y) \<Longrightarrow> x = y"
  shows "written meta (written meta xs p') p = written meta xs p'"
proof (cases p; cases p')
  fix x y assume p: "p = Some x" and p': "p' = Some y"
  show ?thesis
  proof (cases "meta_key (meta x) = meta_key (meta y)")
    case True
    from assms(2) [OF p p' True] assms(1) p p' show ?thesis by simp
  next
    case False
    with assms(1) p p' show ?thesis unfolding written_simps upsert_id by (simp add: at_upsert_other upsert_id)
  qed
qed (use assms(1) in simp_all)

text \<open>Steps of different services write the same ConfigMap, if any, and never the same Deployment or Service.\<close>

lemma planned_keys:
  assumes "req \<noteq> q"
  shows "pl_ConfigMap (plan_of req w) = Some c \<Longrightarrow> pl_ConfigMap (plan_of q w) = Some c' \<Longrightarrow>
      meta_key (cm_Meta c) = meta_key (cm_Meta c') \<Longrightarrow> c = c'"
    and "pl_Deployment (plan_of req w) = Some d \<Longrightarrow> pl_Deployment (plan_of q w') = Some d' \<Longrightarrow>
      meta_key (d_Meta d) \<noteq> meta_key (d_Meta d')"
    and "pl_Service (plan_of req w) = Some sv \<Longrightarrow> pl_Service (plan_of q w') = Some sv' \<Longrightarrow>
      meta_key (svc_Meta sv) \<noteq> meta_key (svc_Meta sv')"
proof -
  show "c = c'" if "pl_ConfigMap (plan_of req w) = Some c" "pl_ConfigMap (plan_of q w) = Some c'"
    "meta_key (cm_Meta c) = meta_key (cm_Meta c')"
  proof -
    from that(1) obtain i where i: "answer cm_Meta merge_ConfigMap (at cm_Meta (cl_ConfigMaps w) (meta_key (cm_Meta (gaiObject i)))) (gaiObject i) = Inr c"
      by (rule planned_ConfigMap)
    from that(2) obtain j where j: "answer cm_Meta merge_ConfigMap (at cm_Meta (cl_ConfigMaps w) (meta_key (cm_Meta (gaiObject j)))) (gaiObject j) = Inr c'"
      by (rule planned_ConfigMap)
    from answer_key [OF i] answer_key [OF j] that(3) have "gaiObject i = gaiObject j"
      by (intro gai_key) (simp add: merged_key)
    with i j show ?thesis by simp
  qed
  show "meta_key (d_Meta d) \<noteq> meta_key (d_Meta d')"
    if "pl_Deployment (plan_of req w) = Some d" "pl_Deployment (plan_of q w') = Some d'"
    using that assms by (metis planned_Deployment)
  show "meta_key (svc_Meta sv) \<noteq> meta_key (svc_Meta sv')"
    if "pl_Service (plan_of req w) = Some sv" "pl_Service (plan_of q w') = Some sv'"
    using planned_Service [OF that(1)] planned_Service [OF that(2)] assms by (cases req; cases q) simp
qed

text \<open>A service whose step changes nothing stays so while no Deployment changes.\<close>

lemma quiet_step:
  assumes "settle_step req w = w" and "cl_Deployments (settle_step q w) = cl_Deployments w"
  shows "settle_step req (settle_step q w) = settle_step q w"
proof (cases "req = q")
  case True
  then show ?thesis by (simp add: step_idem)
next
  case False
  let ?p = "plan_of req w" and ?w = "settle_step q w"
  note same = plan_step_kept [OF assms(2) False]
  note planned = planned_keys [OF False]
  have quiet: "written cm_Meta (cl_ConfigMaps w) (pl_ConfigMap ?p) = cl_ConfigMaps w"
    "written d_Meta (cl_Deployments w) (pl_Deployment ?p) = cl_Deployments w"
    "written svc_Meta (cl_Services w) (pl_Service ?p) = cl_Services w"
    "restated_at req (cl_InferenceServices w) (pl_Status ?p) = cl_InferenceServices w"
    using step_frames(5-8) [of req w] unfolding assms(1) by simp_all
  have "restated_at req (cl_InferenceServices ?w) (pl_Status ?p) = cl_InferenceServices ?w"
    using quiet(4) restated_parts(2) [OF False, of "cl_InferenceServices w" "pl_Status (plan_of q w)"]
    by (cases "pl_Status ?p") (simp_all add: restated_at_def [of req] put_to_status_id)
  moreover have "written cm_Meta (cl_ConfigMaps ?w) (pl_ConfigMap ?p) = cl_ConfigMaps ?w"
    unfolding step_frames using planned(1) by (intro written_id_other quiet) blast
  moreover have "written d_Meta (cl_Deployments ?w) (pl_Deployment ?p) = cl_Deployments ?w"
    unfolding assms(2) by (rule quiet(2))
  moreover have "written svc_Meta (cl_Services ?w) (pl_Service ?p) = cl_Services ?w"
    unfolding step_frames using planned(3) by (intro written_id_other quiet) blast
  ultimately show ?thesis unfolding run_plan [of req ?w] same commit_def by simp
qed

text \<open>A service that may run and whose Deployment is as it wants it.\<close>

definition at_rest :: "NamespacedName \<Rightarrow> cluster \<Rightarrow> bool" where
  "at_rest req w \<longleftrightarrow> (\<exists>i t m. cleared_at req w i t m) \<and> cl_Deployments (settle_step req w) = cl_Deployments w"

lemma rest_own: "cleared_at req w i t m \<Longrightarrow> at_rest req (settle_step req w)"
  unfolding at_rest_def step_idem using cleared_step by (metis)

lemma rest_step:
  assumes "at_rest req w"
  shows "at_rest req (settle_step q w)"
proof -
  from assms obtain i t m where clear: "cleared_at req w i t m"
    and kept: "cl_Deployments (settle_step req w) = cl_Deployments w" by (auto simp: at_rest_def)
  show ?thesis
  proof (cases "req = q")
    case True
    with rest_own [OF clear] show ?thesis by simp
  next
    case False
    note planned = planned_keys(2) [OF False]
    have "written d_Meta (cl_Deployments (settle_step q w)) (pl_Deployment (plan_of req w)) = cl_Deployments (settle_step q w)"
      unfolding step_frames using kept planned by (intro written_id_other) (simp, blast)
    then have "cl_Deployments (settle_step req (settle_step q w)) = cl_Deployments (settle_step q w)"
      by (simp add: plan_step_cleared [OF clear False])
    moreover obtain st where "cleared_at req (settle_step q w) (i\<lparr>is_Status := st\<rparr>) t m"
      using cleared_step [OF clear] by metis
    ultimately show ?thesis unfolding at_rest_def by blast
  qed
qed

lemma change_rests:
  assumes "cl_Deployments (settle_step req w) \<noteq> cl_Deployments w"
  shows "\<not> at_rest req w" and "at_rest req (settle_step req w)"
    and "req \<in> (\<lambda>i. meta_key (is_Meta i)) ` set (cl_InferenceServices w)"
proof -
  from assms obtain dr where "pl_Deployment (plan_of req w) = Some dr"
    by (cases "pl_Deployment (plan_of req w)") simp_all
  then obtain i t m where clear: "cleared_at req w i t m" by (rule planned_Deployment)
  then show "at_rest req (settle_step req w)" by (rule rest_own)
  from clear show "req \<in> (\<lambda>i. meta_key (is_Meta i)) ` set (cl_InferenceServices w)"
    by (auto simp: cleared_at_def dest!: get_from_key)
  from assms show "\<not> at_rest req w" by (simp add: at_rest_def)
qed

subsection \<open>Models and tenants\<close>

text \<open>The two validators write statuses, which no plan depends on.\<close>

lemma at_put: "(\<And>y. meta (f y) = meta y) \<Longrightarrow>
    at meta (put_to meta xs k f) key = (if key = k then map f (at meta xs key) else at meta xs key)"
  unfolding at_def put_to_def by (induction xs) auto

lemma get_put: "(\<And>y. meta (f y) = meta y) \<Longrightarrow>
    get_from meta (put_to meta xs k f) key = map_sum id (\<lambda>x. if key = k then f x else x) (get_from meta xs key)"
  by (simp add: get_from_at at_put split: list.split)

lemma model_restatus [simp]:
  "ServedModelName (m\<lparr>bm_Status := st\<rparr>) = ServedModelName m"
  "specProblem i (m\<lparr>bm_Status := st\<rparr>) = specProblem i m"
  "tenantConfig (t\<lparr>bt_Status := st'\<rparr>) = tenantConfig t"
  by (simp_all add: ServedModelName_def specProblem_def tenantConfig_def)

lemma model_restatus_parts [simp]:
  "engineArgs i (m\<lparr>bm_Status := st\<rparr>) = engineArgs i m" "engineEnv (m\<lparr>bm_Status := st\<rparr>) = engineEnv m"
  by (simp_all add: engineArgs_def engineEnv_def)

lemma model_restatus_render [simp]:
  "container i (m\<lparr>bm_Status := st\<rparr>) img b = container i m img b"
  by (simp add: container_def)

lemma model_restatus_plan [simp]:
  "renderDeployment i (m\<lparr>bm_Status := st\<rparr>) cfg = renderDeployment i m cfg"
  "readyService K i (m\<lparr>bm_Status := st\<rparr>) d cfg = readyService K i m d cfg"
  by (simp_all add: renderDeployment_def readyService_def split: sum.split)

lemma apply_plan_restatus [simp]: "apply_plan w i (m\<lparr>bm_Status := st\<rparr>) cfg = apply_plan w i m cfg"
  unfolding apply_plan_def model_restatus_plan ..

definition validated :: "cluster \<Rightarrow> cluster \<Rightarrow> bool" where
  "validated w w' \<longleftrightarrow> (\<exists>k f k' f'. (\<forall>m. \<exists>st. f m = m\<lparr>bm_Status := st\<rparr>) \<and> (\<forall>t. \<exists>st. f' t = t\<lparr>bt_Status := st\<rparr>) \<and>
     w' = w\<lparr>cl_BrukModels := put_to bm_Meta (cl_BrukModels w) k f,
            cl_BrukTenants := put_to bt_Meta (cl_BrukTenants w) k' f'\<rparr>)"

lemma validated_parts:
  assumes "validated w w'"
  shows "cl_InferenceServices w' = cl_InferenceServices w" "cl_Deployments w' = cl_Deployments w"
    "cl_Services w' = cl_Services w" "cl_ConfigMaps w' = cl_ConfigMaps w" "cl_Pods w' = cl_Pods w"
    "cl_Secrets w' = cl_Secrets w"
  using assms by (auto simp: validated_def)

lemma validated_get:
  assumes "validated w w'"
  obtains fm ft where "get_from bm_Meta (cl_BrukModels w') key = map_sum id fm (get_from bm_Meta (cl_BrukModels w) key)"
    "get_from bt_Meta (cl_BrukTenants w') key' = map_sum id ft (get_from bt_Meta (cl_BrukTenants w) key')"
    "\<And>m. \<exists>st. fm m = m\<lparr>bm_Status := st\<rparr>" "\<And>t. \<exists>st. ft t = t\<lparr>bt_Status := st\<rparr>"
proof -
  from assms obtain k f k' f' where f: "\<And>m. \<exists>st. f m = m\<lparr>bm_Status := st\<rparr>" "\<And>t. \<exists>st. f' t = t\<lparr>bt_Status := st\<rparr>"
    and w': "w' = w\<lparr>cl_BrukModels := put_to bm_Meta (cl_BrukModels w) k f,
            cl_BrukTenants := put_to bt_Meta (cl_BrukTenants w) k' f'\<rparr>"
    by (auto simp: validated_def)
  have "bm_Meta (f m) = bm_Meta m" "bt_Meta (f' t) = bt_Meta t" for m t using f(1) [of m] f(2) [of t] by auto
  moreover have "\<exists>st. x = x\<lparr>bm_Status := st\<rparr>" for x :: BrukModel by (intro exI [of _ "bm_Status x"]) simp
  moreover have "\<exists>st. x = x\<lparr>bt_Status := st\<rparr>" for x :: BrukTenant by (intro exI [of _ "bt_Status x"]) simp
  ultimately show thesis
    using f by (intro that [of "\<lambda>x. if key = k then f x else x" "\<lambda>x. if key' = k' then f' x else x"])
      (simp_all add: w' get_put)
qed

lemma validated_plan:
  assumes "validated w w'"
  shows "plan_of req w' = plan_of req w"
    and "cleared_at req w i t m \<Longrightarrow> \<exists>t' m'. cleared_at req w' i t' m'"
proof -
  note same = validated_parts [OF assms]
  have decided: "\<exists>fm ft. snd (decide req w' i) = map_sum id (\<lambda>(t, m). (ft t, fm m)) (snd (decide req w i)) \<and>
      (\<forall>m. \<exists>st. fm m = m\<lparr>bm_Status := st\<rparr>) \<and> (\<forall>t. \<exists>st. ft t = t\<lparr>bt_Status := st\<rparr>)" for i
  proof -
    obtain fm ft where f: "get_from bm_Meta (cl_BrukModels w') (modelKey i) = map_sum id fm (get_from bm_Meta (cl_BrukModels w) (modelKey i))"
      "get_from bt_Meta (cl_BrukTenants w') tenantKey = map_sum id ft (get_from bt_Meta (cl_BrukTenants w) tenantKey)"
      "\<And>m. \<exists>st. fm m = m\<lparr>bm_Status := st\<rparr>" "\<And>t. \<exists>st. ft t = t\<lparr>bt_Status := st\<rparr>"
      using validated_get [OF assms, of "modelKey i" tenantKey] by blast
    have "specProblem i (fm m) = specProblem i m" for m using f(3) [of m] by auto
    with f show ?thesis
      by (intro exI [of _ fm] exI [of _ ft])
        (auto simp: decide_def Let_def same split: sum.split option.split)
  qed
  show "plan_of req w' = plan_of req w"
  proof (cases "get_from is_Meta (cl_InferenceServices w) req")
    case (Inl e)
    then show ?thesis by (simp add: plan_of_def same)
  next
    case (Inr i)
    from decided [of i] obtain fm ft where d: "snd (decide req w' i) = map_sum id (\<lambda>(t, m). (ft t, fm m)) (snd (decide req w i))"
      "\<And>m. \<exists>st. fm m = m\<lparr>bm_Status := st\<rparr>" "\<And>t. \<exists>st. ft t = t\<lparr>bt_Status := st\<rparr>" by blast
    have "apply_plan w' i m cfg = apply_plan w i m cfg" for m cfg
      unfolding apply_plan_def gai_answer_def dep_answer_def svc_answer_def same ..
    moreover have "tenantConfig (ft t) = tenantConfig t" "apply_plan w i (fm m) cfg = apply_plan w i m cfg" for t m cfg
      using d(2) [of m] d(3) [of t] by auto
    ultimately show ?thesis
      using Inr d(1) by (cases "snd (decide req w i)") (auto simp: plan_of_def same)
  qed
  show "\<exists>t' m'. cleared_at req w' i t' m'" if "cleared_at req w i t m"
    using that decided [of i] by (auto simp: cleared_at_def same)
qed

lemma validated_quiet:
  assumes "validated w w'" and "settle_step req w = w"
  shows "settle_step req w' = w'"
proof -
  note same = validated_parts [OF assms(1)]
  from assms(2) step_frames(5-8) [of req w] show ?thesis
    by (simp add: run_plan [of req w'] validated_plan(1) [OF assms(1)] commit_def same del: step_frames flip: same)
qed

lemma validated_rest:
  assumes "validated w w'" and "at_rest req w"
  shows "at_rest req w'"
proof -
  from assms(2) obtain i t m where "cleared_at req w i t m" and kept: "cl_Deployments (settle_step req w) = cl_Deployments w"
    by (auto simp: at_rest_def)
  with validated_plan(2) [OF assms(1)] obtain t' m' where "cleared_at req w' i t' m'" by blast
  moreover have "cl_Deployments (settle_step req w') = cl_Deployments w'"
    using kept by (simp add: validated_plan(1) [OF assms(1)] validated_parts(2) [OF assms(1)])
  ultimately show ?thesis unfolding at_rest_def by blast
qed

text \<open>A step of any of the three controllers.\<close>

definition op_step :: "controller \<times> NamespacedName \<Rightarrow> cluster \<Rightarrow> cluster" where
  "op_step a w = fst (snd (run (reconcile_of ref_kube (fst a) (snd a)) w))"

lemma op_step_service [simp]: "op_step (InferenceServiceController, q) = settle_step q"
  by (simp add: op_step_def settle_step_def fun_eq_iff)

lemma op_step_idem: "op_step a (op_step a w) = op_step a w"
proof -
  obtain r w' cs where run: "run (reconcile_of ref_kube (fst a) (snd a)) w = (r, w', cs)" by (metis prod.collapse)
  then have "run (reconcile_of ref_kube (fst a) (snd a)) w' = (r, w', cs)"
    using reconcile_again model_again tenant_again by (cases "fst a") simp_all
  with run show ?thesis by (simp add: op_step_def)
qed

lemma model_step:
  obtains f where "\<And>m. \<exists>st. f m = m\<lparr>bm_Status := st\<rparr>"
    "\<And>w'. get_from bm_Meta (cl_BrukModels w') k = get_from bm_Meta (cl_BrukModels w) k \<Longrightarrow> cl_Secrets w' = cl_Secrets w \<Longrightarrow>
       op_step (BrukModelController, k) w' = w'\<lparr>cl_BrukModels := put_to bm_Meta (cl_BrukModels w') k f\<rparr>"
proof (cases "get_from bm_Meta (cl_BrukModels w) k")
  case (Inl e)
  have "\<exists>st. m = m\<lparr>bm_Status := st\<rparr>" for m :: BrukModel by (intro exI [of _ "bm_Status m"]) simp
  with Inl get_from_error [OF Inl] show thesis
    by (intro that [of "\<lambda>m. m"]) (simp_all add: op_step_def run_def ReconcileModel_def client_call_defs go_simps)
next
  case (Inr model)
  obtain reads st reason msg where decides: "\<And>s m. bm_Meta m = bm_Meta model \<Longrightarrow> bm_Spec m = bm_Spec model \<Longrightarrow>
       get_from bm_Meta (cl_BrukModels (world s)) k = Inr m \<Longrightarrow> cl_Secrets (world s) = cl_Secrets w \<Longrightarrow>
       run_state (ReconcileModel ref_kube k) s =
         run_state (setReady ref_kube m st reason msg) (s\<lparr>calls := calls s @ reads\<rparr>)"
    using model_decides [of model k "cl_Secrets w"] by metis
  let ?j = "setReadyModel ref_kube model st reason msg"
  have key: "meta_key (bm_Meta ?j) = k" using get_from_key [OF Inr] by (simp add: setReadyModel_def)
  show thesis
  proof (rule that [of "\<lambda>m. m\<lparr>bm_Status := bm_Status ?j\<rparr>"])
    fix w' :: cluster assume w': "get_from bm_Meta (cl_BrukModels w') k = get_from bm_Meta (cl_BrukModels w) k" "cl_Secrets w' = cl_Secrets w"
    with Inr decides [of model "\<lparr>world = w', calls = []\<rparr>"] key has_key_get [of bm_Meta "cl_BrukModels w'" k model]
    show "op_step (BrukModelController, k) w' = w'\<lparr>cl_BrukModels := put_to bm_Meta (cl_BrukModels w') k (\<lambda>m. m\<lparr>bm_Status := bm_Status ?j\<rparr>)\<rparr>"
      by (simp add: op_step_def run_def setReady_def updateBrukModelStatus_def go_simps ref_kube_def update_status_def Let_def)
  qed blast
qed

lemma tenant_step:
  obtains f where "\<And>t. \<exists>st. f t = t\<lparr>bt_Status := st\<rparr>"
    "\<And>w'. get_from bt_Meta (cl_BrukTenants w') k = get_from bt_Meta (cl_BrukTenants w) k \<Longrightarrow>
       op_step (BrukTenantController, k) w' = w'\<lparr>cl_BrukTenants := put_to bt_Meta (cl_BrukTenants w') k f\<rparr>"
proof (cases "get_from bt_Meta (cl_BrukTenants w) k")
  case (Inl e)
  have "\<exists>st. t = t\<lparr>bt_Status := st\<rparr>" for t :: BrukTenant by (intro exI [of _ "bt_Status t"]) simp
  with Inl get_from_error [OF Inl] show thesis
    by (intro that [of "\<lambda>t. t"]) (simp_all add: op_step_def run_def ReconcileTenant_def client_call_defs go_simps)
next
  case (Inr tenant)
  let ?j = "reconciledTenant ref_kube tenant"
  have key: "meta_key (bt_Meta ?j) = k" using get_from_key [OF Inr] by (simp add: reconciledTenant_def)
  show thesis
  proof (rule that [of "\<lambda>t. t\<lparr>bt_Status := bt_Status ?j\<rparr>"])
    fix w' :: cluster assume w': "get_from bt_Meta (cl_BrukTenants w') k = get_from bt_Meta (cl_BrukTenants w) k"
    with Inr key has_key_get [of bt_Meta "cl_BrukTenants w'" k tenant]
    show "op_step (BrukTenantController, k) w' = w'\<lparr>cl_BrukTenants := put_to bt_Meta (cl_BrukTenants w') k (\<lambda>t. t\<lparr>bt_Status := bt_Status ?j\<rparr>)\<rparr>"
      by (simp add: op_step_def run_def ReconcileTenant_def getBrukTenant_def updateBrukTenantStatus_def go_simps
          ref_kube_def update_status_def Let_def)
  qed blast
qed

text \<open>What a validator's step changes, for a service and for another object of its kind.\<close>

lemma model_validated: "validated w (op_step (BrukModelController, k) w)"
proof -
  obtain f where f: "\<And>m. \<exists>st. f m = m\<lparr>bm_Status := st\<rparr>"
    "op_step (BrukModelController, k) w = w\<lparr>cl_BrukModels := put_to bm_Meta (cl_BrukModels w) k f\<rparr>"
    using model_step [of k w] by metis
  have "\<exists>st. t = t\<lparr>bt_Status := st\<rparr>" for t :: BrukTenant by (intro exI [of _ "bt_Status t"]) simp
  with f show ?thesis unfolding validated_def
    by (intro exI [of _ k] exI [of _ f] exI [of _ k] exI [of _ "\<lambda>t. t"]) simp
qed

lemma tenant_validated: "validated w (op_step (BrukTenantController, k) w)"
proof -
  obtain f where f: "\<And>t. \<exists>st. f t = t\<lparr>bt_Status := st\<rparr>"
    "op_step (BrukTenantController, k) w = w\<lparr>cl_BrukTenants := put_to bt_Meta (cl_BrukTenants w) k f\<rparr>"
    using tenant_step [of k w] by metis
  have "\<exists>st. m = m\<lparr>bm_Status := st\<rparr>" for m :: BrukModel by (intro exI [of _ "bm_Status m"]) simp
  with f show ?thesis unfolding validated_def
    by (intro exI [of _ k] exI [of _ "\<lambda>m. m"] exI [of _ k] exI [of _ f]) simp
qed

lemma op_step_models:
  assumes "a \<noteq> (BrukModelController, k)"
  shows "at bm_Meta (cl_BrukModels (op_step a w)) k = at bm_Meta (cl_BrukModels w) k"
    and "cl_Secrets (op_step a w) = cl_Secrets w"
proof -
  obtain c q where a: "a = (c, q)" by fastforce
  have "at bm_Meta (cl_BrukModels (op_step a w)) k = at bm_Meta (cl_BrukModels w) k \<and> cl_Secrets (op_step a w) = cl_Secrets w"
  proof (cases c)
    case BrukModelController
    with assms a have "k \<noteq> q" by simp
    obtain f where f: "\<And>m. \<exists>st. f m = m\<lparr>bm_Status := st\<rparr>"
      "op_step a w = w\<lparr>cl_BrukModels := put_to bm_Meta (cl_BrukModels w) q f\<rparr>"
      using model_step [of q w] a BrukModelController by metis
    have "bm_Meta (f m) = bm_Meta m" for m using f(1) [of m] by auto
    with f(2) \<open>k \<noteq> q\<close> show ?thesis by (simp add: at_put)
  next
    case BrukTenantController
    obtain f where "op_step a w = w\<lparr>cl_BrukTenants := put_to bt_Meta (cl_BrukTenants w) q f\<rparr>"
      using tenant_step [of q w] a BrukTenantController by metis
    then show ?thesis by simp
  qed (simp add: a)
  then show "at bm_Meta (cl_BrukModels (op_step a w)) k = at bm_Meta (cl_BrukModels w) k"
    "cl_Secrets (op_step a w) = cl_Secrets w" by simp_all
qed

lemma op_step_tenants:
  assumes "a \<noteq> (BrukTenantController, k)"
  shows "at bt_Meta (cl_BrukTenants (op_step a w)) k = at bt_Meta (cl_BrukTenants w) k"
proof -
  obtain c q where a: "a = (c, q)" by fastforce
  show ?thesis
  proof (cases c)
    case BrukModelController
    obtain f where "op_step a w = w\<lparr>cl_BrukModels := put_to bm_Meta (cl_BrukModels w) q f\<rparr>"
      using model_step [of q w] a BrukModelController by metis
    then show ?thesis by simp
  next
    case BrukTenantController
    with assms a have "k \<noteq> q" by simp
    obtain f where f: "\<And>t. \<exists>st. f t = t\<lparr>bt_Status := st\<rparr>"
      "op_step a w = w\<lparr>cl_BrukTenants := put_to bt_Meta (cl_BrukTenants w) q f\<rparr>"
      using tenant_step [of q w] a BrukTenantController by metis
    have "bt_Meta (f t) = bt_Meta t" for t using f(1) [of t] by auto
    with f(2) \<open>k \<noteq> q\<close> show ?thesis by (simp add: at_put)
  qed (simp add: a)
qed

text \<open>A step that changes nothing stays so while no Deployment changes.\<close>

lemma quiet_op:
  assumes "op_step b w = w" and "cl_Deployments (op_step a w) = cl_Deployments w"
  shows "op_step b (op_step a w) = op_step a w"
proof (cases "a = b")
  case True
  then show ?thesis by (simp add: op_step_idem)
next
  case False
  obtain c k where b: "b = (c, k)" by fastforce
  show ?thesis
  proof (cases c)
    case InferenceServiceController
    then have quiet: "settle_step k w = w" using assms(1) b by simp
    obtain c' q where a: "a = (c', q)" by fastforce
    show ?thesis
    proof (cases c')
      case InferenceServiceController
      with quiet_step [OF quiet, of q] assms(2) \<open>c = InferenceServiceController\<close> show ?thesis by (simp add: a b)
    next
      case BrukModelController
      with validated_quiet [OF model_validated quiet] \<open>c = InferenceServiceController\<close> show ?thesis by (simp add: a b)
    next
      case BrukTenantController
      with validated_quiet [OF tenant_validated quiet] \<open>c = InferenceServiceController\<close> show ?thesis by (simp add: a b)
    qed
  next
    case BrukModelController
    obtain f where f: "\<And>w'. get_from bm_Meta (cl_BrukModels w') k = get_from bm_Meta (cl_BrukModels w) k \<Longrightarrow> cl_Secrets w' = cl_Secrets w \<Longrightarrow>
       op_step b w' = w'\<lparr>cl_BrukModels := put_to bm_Meta (cl_BrukModels w') k f\<rparr>"
      using model_step [of k w] b BrukModelController by metis
    have same: "at bm_Meta (cl_BrukModels (op_step a w)) k = at bm_Meta (cl_BrukModels w) k"
      "cl_Secrets (op_step a w) = cl_Secrets w"
      using op_step_models [of a k w] False b BrukModelController by simp_all
    from f [of w] assms(1) have "put_to bm_Meta (cl_BrukModels w) k f = cl_BrukModels w"
      by (metis cluster.select_convs(2) cluster.surjective cluster.update_convs(2))
    then have "put_to bm_Meta (cl_BrukModels (op_step a w)) k f = cl_BrukModels (op_step a w)"
      by (simp add: put_to_status_id same)
    with f [of "op_step a w"] same show ?thesis by (simp add: get_from_at)
  next
    case BrukTenantController
    obtain f where f: "\<And>w'. get_from bt_Meta (cl_BrukTenants w') k = get_from bt_Meta (cl_BrukTenants w) k \<Longrightarrow>
       op_step b w' = w'\<lparr>cl_BrukTenants := put_to bt_Meta (cl_BrukTenants w') k f\<rparr>"
      using tenant_step [of k w] b BrukTenantController by metis
    have same: "at bt_Meta (cl_BrukTenants (op_step a w)) k = at bt_Meta (cl_BrukTenants w) k"
      using op_step_tenants [of a k w] False b BrukTenantController by simp
    from f [of w] assms(1) have "put_to bt_Meta (cl_BrukTenants w) k f = cl_BrukTenants w"
      by (metis cluster.select_convs(3) cluster.surjective cluster.update_convs(3))
    then have "put_to bt_Meta (cl_BrukTenants (op_step a w)) k f = cl_BrukTenants (op_step a w)"
      by (simp add: put_to_status_id same)
    with f [of "op_step a w"] same show ?thesis by (simp add: get_from_at)
  qed
qed

subsection \<open>The whole operator\<close>

text \<open>The requests for the objects of a cluster; a request for anything else changes nothing.\<close>

definition keys_of :: "('a \<Rightarrow> ObjectMeta) \<Rightarrow> 'a list \<Rightarrow> NamespacedName set" where
  "keys_of meta xs = (\<lambda>x. meta_key (meta x)) ` set xs"

definition requests :: "cluster \<Rightarrow> (controller \<times> NamespacedName) set" where
  "requests w =
     Pair InferenceServiceController ` keys_of is_Meta (cl_InferenceServices w) \<union>
     Pair BrukModelController ` keys_of bm_Meta (cl_BrukModels w) \<union>
     Pair BrukTenantController ` keys_of bt_Meta (cl_BrukTenants w)"

lemma get_from_absent: "k \<notin> keys_of meta xs \<Longrightarrow> get_from meta xs k = Inl NotFoundError"
proof -
  assume "k \<notin> keys_of meta xs"
  then have "at meta xs k = []" by (auto simp: at_def keys_of_def filter_empty_conv)
  then show ?thesis by (simp add: get_from_at)
qed

lemma absent_quiet:
  assumes "a \<notin> requests w"
  shows "op_step a w = w"
proof -
  obtain c q where a: "a = (c, q)" by fastforce
  note defs = op_step_def run_def ReconcileISVC_def ReconcileModel_def ReconcileTenant_def client_call_defs go_simps
  show ?thesis
  proof (cases c)
    case InferenceServiceController
    with assms a have "get_from is_Meta (cl_InferenceServices w) q = Inl NotFoundError"
      by (intro get_from_absent) (auto simp: requests_def)
    then show ?thesis by (simp add: a InferenceServiceController run_plan plan_of_def)
  next
    case BrukModelController
    with assms a have "get_from bm_Meta (cl_BrukModels w) q = Inl NotFoundError"
      by (intro get_from_absent) (auto simp: requests_def)
    with get_from_error show ?thesis by (simp add: a BrukModelController defs)
  next
    case BrukTenantController
    with assms a have "get_from bt_Meta (cl_BrukTenants w) q = Inl NotFoundError"
      by (intro get_from_absent) (auto simp: requests_def)
    with get_from_error show ?thesis by (simp add: a BrukTenantController defs)
  qed
qed

lemma put_keys: "(\<And>y. meta (f y) = meta y) \<Longrightarrow> keys_of meta (put_to meta xs k f) = keys_of meta xs"
proof -
  assume "\<And>y. meta (f y) = meta y"
  then have "meta (if P then f x else x) = meta x" for P x by simp
  then show ?thesis unfolding keys_of_def put_to_def set_map image_image by simp
qed

lemma op_step_requests:
  "keys_of is_Meta (cl_InferenceServices (op_step a w)) = keys_of is_Meta (cl_InferenceServices w)"
  "requests (op_step a w) = requests w"
proof -
  obtain c q where a: "a = (c, q)" by fastforce
  have "keys_of is_Meta (cl_InferenceServices (op_step a w)) = keys_of is_Meta (cl_InferenceServices w) \<and>
      keys_of bm_Meta (cl_BrukModels (op_step a w)) = keys_of bm_Meta (cl_BrukModels w) \<and>
      keys_of bt_Meta (cl_BrukTenants (op_step a w)) = keys_of bt_Meta (cl_BrukTenants w)"
  proof (cases c)
    case InferenceServiceController
    have "keys_of is_Meta (restated_at q xs p) = keys_of is_Meta xs" for xs p
      by (cases p) (simp_all add: restated_at_def put_keys)
    with InferenceServiceController show ?thesis by (simp add: a)
  next
    case BrukModelController
    obtain f where f: "\<And>m. \<exists>st. f m = m\<lparr>bm_Status := st\<rparr>"
      "op_step a w = w\<lparr>cl_BrukModels := put_to bm_Meta (cl_BrukModels w) q f\<rparr>"
      using model_step [of q w] a BrukModelController by metis
    have "bm_Meta (f m) = bm_Meta m" for m using f(1) [of m] by auto
    with f(2) show ?thesis by (simp add: put_keys)
  next
    case BrukTenantController
    obtain f where f: "\<And>t. \<exists>st. f t = t\<lparr>bt_Status := st\<rparr>"
      "op_step a w = w\<lparr>cl_BrukTenants := put_to bt_Meta (cl_BrukTenants w) q f\<rparr>"
      using tenant_step [of q w] a BrukTenantController by metis
    have "bt_Meta (f t) = bt_Meta t" for t using f(1) [of t] by auto
    with f(2) show ?thesis by (simp add: put_keys)
  qed
  then show "keys_of is_Meta (cl_InferenceServices (op_step a w)) = keys_of is_Meta (cl_InferenceServices w)"
    "requests (op_step a w) = requests w" by (simp_all add: requests_def)
qed

text \<open>The services that are not at rest get fewer whenever a Deployment changes.\<close>

definition restless :: "cluster \<Rightarrow> NamespacedName set" where
  "restless w = {r \<in> keys_of is_Meta (cl_InferenceServices w). \<not> at_rest r w}"

lemma finite_restless [simp]: "finite (restless w)"
  by (simp add: restless_def keys_of_def)

lemma restless_step:
  "restless (op_step a w) \<subseteq> restless w"
  "cl_Deployments (op_step a w) \<noteq> cl_Deployments w \<Longrightarrow> restless (op_step a w) \<subset> restless w"
proof -
  obtain c q where a: "a = (c, q)" by fastforce
  have "at_rest r (op_step a w)" if "at_rest r w" for r
    using rest_step [OF that, of q] validated_rest [OF model_validated that, of q]
      validated_rest [OF tenant_validated that, of q] by (cases c) (simp_all add: a)
  then show sub: "restless (op_step a w) \<subseteq> restless w"
    by (auto simp: restless_def op_step_requests(1))
  assume change: "cl_Deployments (op_step a w) \<noteq> cl_Deployments w"
  then have "c = InferenceServiceController"
    using validated_parts(2) [OF model_validated] validated_parts(2) [OF tenant_validated] by (cases c) (auto simp: a)
  then have op: "op_step a w = settle_step q w" by (simp add: a)
  with change change_rests [of q w] have "q \<in> restless w" "q \<notin> restless (op_step a w)"
    by (simp_all add: restless_def keys_of_def)
  with sub show "restless (op_step a w) \<subset> restless w" by blast
qed

lemma restless_steps: "restless (fold op_step as w) \<subseteq> restless w"
proof (induction as arbitrary: w)
  case (Cons a as)
  from Cons.IH [of "op_step a w"] restless_step(1) [of a w] show ?case by simp
qed simp

text \<open>A pass in which none of them comes to rest changes no Deployment, and leaves everything it handled quiet.\<close>

lemma steady_pass:
  assumes "restless (fold op_step as w) = restless w" and "op_step b w = w \<or> b \<in> set as"
  shows "op_step b (fold op_step as w) = fold op_step as w"
  using assms
proof (induction as arbitrary: w)
  case (Cons a as)
  let ?w = "op_step a w"
  have "restless (fold op_step as ?w) = restless w" using Cons.prems(1) by simp
  with restless_steps [of as ?w] restless_step(1) [of a w] have same: "restless ?w = restless w"
    "restless (fold op_step as ?w) = restless ?w" by auto
  then have kept: "cl_Deployments ?w = cl_Deployments w" using restless_step(2) [of a w] by auto
  have "op_step b ?w = ?w \<or> b \<in> set as"
  proof (cases "b = a")
    case True
    then show ?thesis by (simp add: op_step_idem)
  next
    case False
    with Cons.prems(2) quiet_op [OF _ kept, of b] show ?thesis by auto
  qed
  from Cons.IH [OF same(2) this] show ?case by simp
qed simp

lemma fold_quiet: "(\<And>a. op_step a w = w) \<Longrightarrow> fold op_step as w = w"
  by (induction as) simp_all

lemma passes_settle:
  assumes "\<forall>qs \<in> set passes. requests w \<subseteq> set qs" and "card (restless w) < length passes"
  shows "op_step a (fold op_step (concat passes) w) = fold op_step (concat passes) w"
  using assms
proof (induction passes arbitrary: w)
  case (Cons qs passes)
  let ?w = "fold op_step qs w"
  have reqs: "requests (fold op_step qs v) = requests v" for v
    by (induction qs arbitrary: v) (simp_all add: op_step_requests)
  show ?case
  proof (cases "restless ?w = restless w")
    case True
    have "op_step b ?w = ?w" for b
      using absent_quiet [of b w] Cons.prems(1) by (intro steady_pass [OF True]) auto
    then show ?thesis using fold_quiet [of ?w] by simp
  next
    case False
    with restless_steps [of qs w] have "card (restless ?w) < card (restless w)"
      by (intro psubset_card_mono) auto
    with Cons.prems Cons.IH [of ?w] reqs show ?thesis by simp
  qed
qed simp

lemma process_steps: "fst (snd (process ref_kube qs w)) = fold op_step qs w"
proof (induction qs arbitrary: w)
  case (Cons q qs)
  obtain r w1 cs where run: "run (reconcile_of ref_kube (fst q) (snd q)) w = (r, w1, cs)" by (metis prod.collapse)
  moreover obtain rs w2 cs' where "process ref_kube qs w1 = (rs, w2, cs')" by (metis prod.collapse)
  ultimately show ?case using Cons.IH [of w1] by (simp add: op_step_def [of q w])
qed simp



end
