(* ===== verification/Queues.thy ===== *)
theory Queues
  imports Settling Watches
begin

text \<open>
  The manager as it runs: the cluster and the work queues of the three controllers. A change of the
  cluster puts requests in the queues, through the watches each controller has set up. A queued
  request is taken and reconciled; an error puts it back, and what the run wrote is a change of the
  cluster like any other. Here is that the queues always drain, and for which objects a change
  raises no request.
\<close>

subsection \<open>Changes and the requests they raise\<close>

definition change_events :: "kind \<Rightarrow> ('a \<Rightarrow> ObjectMeta) \<Rightarrow> 'a list \<Rightarrow> 'a list \<Rightarrow> event list" where
  "change_events k meta xs ys =
     map (\<lambda>x. \<lparr>ev_Kind = k, ev_Meta = meta x\<rparr>) (filter (\<lambda>x. x \<notin> set ys) xs @ filter (\<lambda>y. y \<notin> set xs) ys)"

text \<open>An object that was changed gives an event for what it was and one for what it is.\<close>

definition events :: "cluster \<Rightarrow> cluster \<Rightarrow> event list" where
  "events w w' =
     change_events InferenceServiceKind is_Meta (cl_InferenceServices w) (cl_InferenceServices w') @
     change_events BrukModelKind bm_Meta (cl_BrukModels w) (cl_BrukModels w') @
     change_events BrukTenantKind bt_Meta (cl_BrukTenants w) (cl_BrukTenants w') @
     change_events DeploymentKind d_Meta (cl_Deployments w) (cl_Deployments w') @
     change_events ServiceKind svc_Meta (cl_Services w) (cl_Services w') @
     change_events ConfigMapKind cm_Meta (cl_ConfigMaps w) (cl_ConfigMaps w') @
     change_events PodKind pod_Meta (cl_Pods w) (cl_Pods w') @
     change_events SecretKind sec_Meta (cl_Secrets w) (cl_Secrets w')"

type_synonym owner_mapper = "kind \<Rightarrow> ObjectMeta \<Rightarrow> NamespacedName list"
type_synonym queue = "(controller \<times> NamespacedName) set"

definition raised :: "owner_mapper \<Rightarrow> cluster \<Rightarrow> cluster \<Rightarrow> queue" where
  "raised H w w' =
     (\<Union>ev \<in> set (events w w'). \<Union>c \<in> {BrukTenantController, BrukModelController, InferenceServiceController}.
        Pair c ` set (fst (run (enqueue ref_kube H c ev) w')))"

lemma finite_raised [simp]: "finite (raised H w w')"
  by (simp add: raised_def)

lemma raised_same [simp]: "raised H w w = {}"
  by (simp add: raised_def events_def change_events_def)

subsection \<open>The manager\<close>

text \<open>
  What the API server guarantees of the objects it stores: a key names one object of a kind, and
  an object has one managing controller at most.
\<close>

definition unique_keys :: "('a \<Rightarrow> ObjectMeta) \<Rightarrow> 'a list \<Rightarrow> bool" where
  "unique_keys meta xs \<longleftrightarrow> distinct (map (\<lambda>x. meta_key (meta x)) xs)"

definition well_formed :: "cluster \<Rightarrow> bool" where
  "well_formed w \<longleftrightarrow>
     unique_keys is_Meta (cl_InferenceServices w) \<and> unique_keys bm_Meta (cl_BrukModels w) \<and>
     unique_keys bt_Meta (cl_BrukTenants w) \<and> unique_keys d_Meta (cl_Deployments w) \<and>
     unique_keys svc_Meta (cl_Services w) \<and> list_all (\<lambda>c. one_controller_at_most (cm_Meta c)) (cl_ConfigMaps w)"

text \<open>A request is taken from its queue, and put back when its run does not return nil.\<close>

definition retried :: "reconcile_outcome \<Rightarrow> controller \<times> NamespacedName \<Rightarrow> queue" where
  "retried r a = (if r = Returned None then {} else {a})"

inductive serves :: "owner_mapper \<Rightarrow> reconcile_outcome \<Rightarrow> cluster \<times> queue \<Rightarrow> cluster \<times> queue \<Rightarrow> bool"
  for H where
  "a \<in> Q \<Longrightarrow> run (reconcile_of ref_kube (fst a) (snd a)) w = (r, w', cs) \<Longrightarrow>
   serves H r (w, Q) (w', Q - {a} \<union> retried r a \<union> raised H w w')"

inductive_cases servesE: "serves H r (w, Q) s'"

text \<open>Requests served one after the other, with any results, while nobody else changes the cluster.\<close>

definition undisturbed :: "owner_mapper \<Rightarrow> cluster \<times> queue \<Rightarrow> cluster \<times> queue \<Rightarrow> bool" where
  "undisturbed H = (\<lambda>s s'. \<exists>r. serves H r s s')\<^sup>*\<^sup>*"

subsection \<open>The queues drain\<close>

text \<open>The requests that would change something.\<close>

definition pending :: "cluster \<Rightarrow> queue" where
  "pending w = {a \<in> requests w. op_step a w \<noteq> w}"

lemma finite_pending [simp]: "finite (pending w)"
  by (simp add: pending_def requests_def keys_of_def)

lemma pending_step:
  assumes "op_step a w \<noteq> w" and "cl_Deployments (op_step a w) = cl_Deployments w"
  shows "pending (op_step a w) \<subset> pending w"
proof -
  have "a \<in> pending w" using assms(1) absent_quiet [of a w] by (auto simp: pending_def)
  moreover have "a \<notin> pending (op_step a w)" by (simp add: pending_def op_step_idem)
  moreover have "pending (op_step a w) \<subseteq> pending w"
    using quiet_op [OF _ assms(2)] by (auto simp: pending_def op_step_requests(2))
  ultimately show ?thesis by blast
qed

definition work :: "cluster \<times> queue \<Rightarrow> nat \<times> nat \<times> nat" where
  "work s = (card (restless (fst s)), card (pending (fst s)), card (snd s))"

lemma serves_work:
  assumes "serves H (Returned None) s s'" and "finite (snd s)"
  shows "finite (snd s')" and "(work s', work s) \<in> less_than <*lex*> less_than <*lex*> less_than"
proof -
  obtain w Q where "s = (w, Q)" by fastforce
  with assms(1) obtain a w' cs where s: "s = (w, Q)" "s' = (w', Q - {a} \<union> raised H w w')" "a \<in> Q"
    and run: "run (reconcile_of ref_kube (fst a) (snd a)) w = (Returned None, w', cs)"
    by (auto simp: retried_def elim!: servesE)
  from run have w': "w' = op_step a w" by (simp add: op_step_def)
  from assms(2) s show "finite (snd s')" by simp
  consider (deployed) "cl_Deployments w' \<noteq> cl_Deployments w"
    | (wrote) "cl_Deployments w' = cl_Deployments w" "w' \<noteq> w" | (idle) "w' = w" by blast
  then show "(work s', work s) \<in> less_than <*lex*> less_than <*lex*> less_than"
  proof cases
    case deployed
    then have "restless w' \<subset> restless w" unfolding w' by (rule restless_step(2))
    then show ?thesis by (simp add: work_def s psubset_card_mono)
  next
    case wrote
    then have "pending w' \<subset> pending w" unfolding w' by (intro pending_step) simp_all
    moreover have "restless w' \<subseteq> restless w" unfolding w' by (rule restless_step(1))
    ultimately show ?thesis
      using card_mono [OF finite_restless \<open>restless w' \<subseteq> restless w\<close>] by (auto simp: work_def s psubset_card_mono)
  next
    case idle
    have "card (Q - {a}) < card Q" using s assms(2) by (intro psubset_card_mono) auto
    moreover have "s' = (w, Q - {a})" using s(2) idle by simp
    ultimately show ?thesis using s(1) by (simp add: work_def del: card_Diff_insert)
  qed
qed

lemma no_endless_service:
  assumes "finite (snd (\<sigma> 0))"
  shows "\<exists>n. \<not> serves H (Returned None) (\<sigma> n) (\<sigma> (Suc n))"
proof (rule ccontr)
  assume "\<nexists>n. \<not> serves H (Returned None) (\<sigma> n) (\<sigma> (Suc n))"
  then have step: "serves H (Returned None) (\<sigma> n) (\<sigma> (Suc n))" for n by blast
  have fin: "finite (snd (\<sigma> n))" for n
    by (induction n) (use assms serves_work(1) [OF step] in auto)
  let ?R = "less_than <*lex*> less_than <*lex*> less_than"
  have "\<exists>f. \<forall>n. (f (Suc n), f n) \<in> ?R"
    using serves_work(2) [OF step fin] by (intro exI [of _ "\<lambda>n. work (\<sigma> n)"]) blast
  moreover have "wf ?R" by (intro wf_lex_prod) auto
  ultimately show False unfolding wf_iff_no_infinite_down_chain by blast
qed


text \<open>The production service: its own writes queue it once more, and then nothing is queued.\<close>

lemma raised_prod:
  "raised ref_owner_requests prodCluster prodDone = {(InferenceServiceController, prodKey)}"
proof -
  let ?i = "prodService\<lparr>is_Status := is_Status prodStatus\<rparr>"
  have "set (events prodCluster prodDone) =
      (if ?i = prodService then {} else {\<lparr>ev_Kind = InferenceServiceKind, ev_Meta = is_Meta prodService\<rparr>}) \<union>
      {\<lparr>ev_Kind = DeploymentKind, ev_Meta = d_Meta prodChild\<rparr>, \<lparr>ev_Kind = ServiceKind, ev_Meta = svc_Meta prodChildService\<rparr>,
       \<lparr>ev_Kind = ConfigMapKind, ev_Meta = cm_Meta (gaiObject prodService)\<rparr>}"
    by (auto simp: events_def change_events_def prodDone_def)
  moreover have "ref_owner_requests InferenceServiceKind (d_Meta prodChild) = [prodKey]"
    "ref_owner_requests InferenceServiceKind (svc_Meta prodChildService) = [prodKey]"
    by (simp_all add: ref_owner_requests_def the_controller_def prodChild_def prodChildService_def goldenDeployment_def
        renderService_fields prodKey_def prod_fields)
  ultimately show ?thesis by (auto simp: raised_def enqueue_service enqueue_other)
qed

definition prodHistory :: "nat \<Rightarrow> cluster \<times> queue" where
  "prodHistory n =
     (if n = 0 then (prodCluster, {(InferenceServiceController, prodKey)})
      else if n = 1 then (prodDone, {(InferenceServiceController, prodKey)}) else (prodDone, {}))"


subsection \<open>Objects that no request was raised for\<close>

lemma at_unique:
  assumes "unique_keys meta xs"
  shows "at meta xs k = [] \<or> (\<exists>x \<in> set xs. at meta xs k = [x])"
proof (cases "at meta xs k")
  case (Cons x ys)
  have "distinct (map (\<lambda>x. meta_key (meta x)) (at meta xs k))"
    using assms by (simp add: unique_keys_def at_def distinct_map_filter)
  moreover have "\<forall>y \<in> set (at meta xs k). meta_key (meta y) = k" by (simp add: at_def)
  ultimately have "ys = []" unfolding Cons by (cases ys) auto
  moreover have "x \<in> set (at meta xs k)" using Cons by simp
  ultimately show ?thesis using Cons by (auto simp: at_def)
qed simp

lemma set_at: "set (at meta xs k) = {x \<in> set xs. meta_key (meta x) = k}"
  by (auto simp: at_def)

lemma at_untouched:
  assumes "unique_keys meta xs" and "unique_keys meta ys"
    and "\<And>e. e \<in> set (change_events kind meta xs ys) \<Longrightarrow> meta_key (ev_Meta e) \<noteq> k"
  shows "at meta ys k = at meta xs k"
proof -
  have same: "x \<in> set xs \<longleftrightarrow> x \<in> set ys" if "meta_key (meta x) = k" for x
    using assms(3) [of "\<lparr>ev_Kind = kind, ev_Meta = meta x\<rparr>"] that by (auto simp: change_events_def)
  then have "set (at meta ys k) = set (at meta xs k)" by (auto simp: set_at)
  with at_unique [OF assms(1), of k] at_unique [OF assms(2), of k] show ?thesis by auto
qed

lemma not_raised:
  assumes "(c, k) \<notin> raised H w w'" and "e \<in> set (events w w')"
  shows "k \<notin> set (fst (run (enqueue ref_kube H c e) w'))"
  using assms by (cases c) (auto simp: raised_def)

end
