(* ===== verification/Freshness.thy ===== *)
theory Freshness
  imports Queues
begin

text \<open>
  What an object that no request was raised for can be out of date about: the status and the
  children of a service are those of a run under the conflict its status reports; only the
  conflict itself may have gone or come since, and the ConfigMap the services of a namespace share
  may have been changed.
\<close>

subsection \<open>The plan under a given answer of the guard\<close>

definition guard_message :: "InferenceService \<Rightarrow> cluster \<Rightarrow> string" where
  "guard_message i w = (case fst (run (trustedStoreConflict ref_kube i) w) of Inl _ \<Rightarrow> [] | Inr msg \<Rightarrow> msg)"

definition refusal :: "InferenceService \<Rightarrow> string \<Rightarrow> string \<Rightarrow> plan" where
  "refusal i reason msg = no_plan\<lparr>pl_Status := Some (is_Status (failedService ref_kube reason msg i))\<rparr>"

definition decision :: "string \<Rightarrow> cluster \<Rightarrow> InferenceService \<Rightarrow> (string \<times> string) + (BrukTenant \<times> BrukModel)" where
  "decision conflict w i =
     (case get_from bt_Meta (cl_BrukTenants w) tenantKey of
        Inl _ \<Rightarrow> Inl (ReasonTenantConfigMissing, tenantMissingMessage)
      | Inr t \<Rightarrow>
      (case get_from bm_Meta (cl_BrukModels w) (modelKey i) of
        Inl _ \<Rightarrow> Inl (ReasonModelNotFound, modelNotFoundMessage i)
      | Inr m \<Rightarrow>
      (case specProblem i m of
        Some p \<Rightarrow> Inl p
      | None \<Rightarrow> (if conflict \<noteq> [] then Inl (ReasonTrustedStoreConflict, conflict) else Inr (t, m)))))"

definition plan_under :: "string \<Rightarrow> NamespacedName \<Rightarrow> cluster \<Rightarrow> plan" where
  "plan_under conflict req w =
     (case get_from is_Meta (cl_InferenceServices w) req of
        Inl _ \<Rightarrow> no_plan
      | Inr i \<Rightarrow>
      (case decision conflict w i of
        Inl p \<Rightarrow> refusal i (fst p) (snd p)
      | Inr p \<Rightarrow> apply_plan w i (snd p) (tenantConfig (fst p))))"

lemma guard_message_eq:
  "guard_message i w =
     (let ns = Some (isvc_Namespace i) in
      case siblingConflict ref_kube i (list_from is_Meta (cl_InferenceServices w) ns) of Some msg \<Rightarrow> msg | None \<Rightarrow>
      (case deploymentConflict ref_kube i (list_from d_Meta (cl_Deployments w) ns) of Some msg \<Rightarrow> msg | None \<Rightarrow>
      (case podConflict i (list_from pod_Meta (cl_Pods w) ns) of Some msg \<Rightarrow> msg | None \<Rightarrow> [])))"
  by (simp add: guard_message_def run_def trustedStoreConflict_def deploymentGuard_def podGuard_def client_call_defs
      go_simps Let_def split: option.split)

lemma decide_decision: "snd (decide req w i) = decision (guard_message i w) w i"
  using siblingConflict_nonempty [of ref_kube i] deploymentConflict_nonempty [of ref_kube i] podConflict_nonempty [of i]
  by (auto simp: decide_def decision_def guard_message_eq Let_def split: sum.split option.split)

lemma plan_of_under:
  assumes "get_from is_Meta (cl_InferenceServices w) req = Inr i"
  shows "plan_of req w = plan_under (guard_message i w) req w"
  using assms by (cases "decision (guard_message i w) w i") (auto simp: plan_of_def plan_under_def refusal_def decide_decision)

text \<open>An accepted object keeps the controller it was sent with, and has no other.\<close>

lemma answer_one: "answer meta merge ys new = Inr res \<Longrightarrow> one_controller_at_most (meta res)"
  by (simp add: answer_def Let_def split: if_splits)

lemma answer_controller:
  assumes "answer meta merge ys new = Inr res" and "the_controller (meta new) = Some c"
    and "\<And>old. meta (merge old new) = merge_meta (meta old) (meta new)"
  shows "the_controller (meta res) = Some c" "one_controller_at_most (meta res)"
proof -
  show one: "one_controller_at_most (meta res)"
    using assms(1) by (rule answer_one)
  show "the_controller (meta res) = Some c"
  proof (cases ys)
    case Nil
    with assms show ?thesis by (simp add: answer_def Let_def split: if_splits)
  next
    case (Cons old olds)
    with assms(1) have "res = merge old new" by (simp add: answer_def Let_def split: if_splits)
    with one assms(2,3) show ?thesis by (simp add: the_controller_merge)
  qed
qed

lemma answer_spec: "answer d_Meta merge_Deployment ys d = Inr dr \<Longrightarrow> d_Spec dr = d_Spec d"
  by (cases ys) (auto simp: answer_def Let_def merge_Deployment_def split: if_splits)

text \<open>An object that an upsert leaves in place is there.\<close>

lemma upsert_member: "upsert meta xs x = xs \<Longrightarrow> x \<in> set xs"
proof -
  assume "upsert meta xs x = xs"
  then have "x \<in> set (at meta xs (meta_key (meta x)))" unfolding upsert_id by (metis last_in_set)
  then show "x \<in> set xs" by (simp add: set_at)
qed

text \<open>What an application plans for the children, and its status, whatever the ConfigMap is.\<close>

lemma applied_Deployment:
  assumes "pl_Deployment (apply_plan w i m cfg) = Some dr"
  shows "meta_key (d_Meta dr) = meta_key (is_Meta i)" "the_controller (d_Meta dr) = Some (controller_ref (is_Meta i))"
    "one_controller_at_most (d_Meta dr)" "claims_of_deployment dr = {isvc_Claim i}"
proof -
  obtain rd where "renderDeployment i m cfg = Some rd" using renderDeployment_not_None by blast
  with assms obtain rendered where r: "renderDeployment i m cfg = Some (Inr rendered)"
    and dr: "dep_answer w i rendered = Some dr"
    by (auto simp: apply_plan_def no_plan_def split: sum.splits option.splits)
  from dr obtain d where own: "ownedDeployment ref_kube i rendered = Inr d"
    and ans: "answer d_Meta merge_Deployment (at d_Meta (cl_Deployments w) (meta_key (d_Meta d))) d = Inr dr"
    by (auto simp: dep_answer_def split: sum.splits)
  obtain co vols where "rendered = deploymentOf i cfg co vols" using r by (rule rendered_deploymentOf)
  with own have "om_OwnerReferences (d_Meta d) = [controller_ref (is_Meta i)]" using owned_refs by blast
  then have ctl: "the_controller (d_Meta d) = Some (controller_ref (is_Meta i))"
    by (simp add: the_controller_def controller_ref_def)
  show "the_controller (d_Meta dr) = Some (controller_ref (is_Meta i))" "one_controller_at_most (d_Meta dr)"
    using answer_controller [OF ans ctl] by (simp_all add: merge_Deployment_def)
  have "child_deployment ref_kube i m cfg d" using r own by (auto simp: child_deployment_def)
  then show "claims_of_deployment dr = {isvc_Claim i}"
    using ref_ds.child_claims(1) answer_spec [OF ans] by (simp add: claims_of_deployment_def)
  have "meta_key (d_Meta dr) = meta_key (d_Meta d)" by (rule answer_key [OF ans]) (rule merged_key)
  with owned_keys(1) [OF r own] show "meta_key (d_Meta dr) = meta_key (is_Meta i)" by (rule trans [rotated])
qed

lemma applied_Service:
  assumes "pl_Service (apply_plan w i m cfg) = Some sr"
  shows "meta_key (svc_Meta sr) = \<lparr>nn_Namespace = isvc_Namespace i, nn_Name = ServiceName i\<rparr>"
    "the_controller (svc_Meta sr) = Some (controller_ref (is_Meta i))" "one_controller_at_most (svc_Meta sr)"
proof -
  from assms have "svc_answer w i = Some sr"
    by (auto simp: apply_plan_def no_plan_def split: sum.splits option.splits)
  then obtain sv where own: "ownedService ref_kube i = Inr sv"
    and ans: "answer svc_Meta merge_Service (at svc_Meta (cl_Services w) (meta_key (svc_Meta sv))) sv = Inr sr"
    by (auto simp: svc_answer_def split: sum.splits)
  have ctl: "the_controller (svc_Meta sv) = Some (controller_ref (is_Meta i))"
    using own by (auto simp: ownedService_def Let_def ref_setControllerReference_def the_controller_def renderService_fields
        controller_ref_def split: sum.splits if_splits)
  show "the_controller (svc_Meta sr) = Some (controller_ref (is_Meta i))" "one_controller_at_most (svc_Meta sr)"
    using answer_controller [OF ans ctl] by (simp_all add: merge_Service_def)
  have "meta_key (svc_Meta sr) = meta_key (svc_Meta sv)" by (rule answer_key [OF ans]) (rule merged_key)
  with owned_keys(2) [OF own] show "meta_key (svc_Meta sr) = \<lparr>nn_Namespace = isvc_Namespace i, nn_Name = ServiceName i\<rparr>"
    by (rule trans [rotated])
qed

lemma gai_accepted:
  assumes "list_all (\<lambda>c. one_controller_at_most (cm_Meta c)) (cl_ConfigMaps w)"
  obtains cm where "gai_answer w i = Inr cm"
proof -
  let ?ys = "at cm_Meta (cl_ConfigMaps w) (meta_key (cm_Meta (gaiObject i)))"
  have "one_controller_at_most (cm_Meta (merge_ConfigMap y (gaiObject i)))" if "y \<in> set ?ys" for y
    using assms that by (simp add: merge_ConfigMap_def merge_meta_def merge_refs_def gaiObject_refs
        one_controller_at_most_def list_all_iff set_at)
  moreover have "one_controller_at_most (cm_Meta (gaiObject i))"
    by (simp add: one_controller_at_most_def gaiObject_refs)
  ultimately have "\<exists>c. answer cm_Meta merge_ConfigMap ?ys (gaiObject i) = Inr c"
    by (auto simp: answer_def Let_def split: list.split)
  then obtain c where "answer cm_Meta merge_ConfigMap ?ys (gaiObject i) = Inr c" by blast
  then have "gai_answer w i = Inr (if isvc_WeightsCache i = None then None else Some c)"
    by (simp add: gai_answer_def)
  then show thesis by (rule that)
qed

lemma apply_plan_same:
  assumes "gai_answer w i = Inr cm" and "gai_answer w' i = Inr cm'"
    and "pl_Status (apply_plan w i m cfg) \<noteq> None"
    and "\<And>dr. pl_Deployment (apply_plan w i m cfg) = Some dr \<Longrightarrow>
      at d_Meta (cl_Deployments w') (meta_key (is_Meta i)) = at d_Meta (cl_Deployments w) (meta_key (is_Meta i))"
    and "\<And>sr. pl_Service (apply_plan w i m cfg) = Some sr \<Longrightarrow>
      at svc_Meta (cl_Services w') \<lparr>nn_Namespace = isvc_Namespace i, nn_Name = ServiceName i\<rparr>
      = at svc_Meta (cl_Services w) \<lparr>nn_Namespace = isvc_Namespace i, nn_Name = ServiceName i\<rparr>"
  shows "apply_plan w' i m cfg = (apply_plan w i m cfg)\<lparr>pl_ConfigMap := cm'\<rparr>"
proof -
  obtain rd where rd: "renderDeployment i m cfg = Some rd" using renderDeployment_not_None by blast
  show ?thesis
  proof (cases rd)
    case (Inl e)
    with rd assms(1,2) show ?thesis by (simp add: apply_plan_def no_plan_def)
  next
    case (Inr rendered)
    from assms(1,3) rd Inr obtain dr sr where p: "dep_answer w i rendered = Some dr" "svc_answer w i = Some sr"
      by (auto simp: apply_plan_def no_plan_def split: option.splits)
    with assms(1) rd Inr have "pl_Deployment (apply_plan w i m cfg) = Some dr" "pl_Service (apply_plan w i m cfg) = Some sr"
      by (simp_all add: apply_plan_def)
    note at = assms(4) [OF this(1)] assms(5) [OF this(2)]
    have "dep_answer w' i rendered = dep_answer w i rendered"
      using rd Inr at(1) owned_keys(1) [of i m cfg rendered]
      by (cases "ownedDeployment ref_kube i rendered") (simp_all add: dep_answer_def)
    moreover have "svc_answer w' i = svc_answer w i"
      using at(2) owned_keys(2) [of i] by (cases "ownedService ref_kube i") (simp_all add: svc_answer_def)
    ultimately show ?thesis using assms(1,2) rd Inr p by (simp add: apply_plan_def)
  qed
qed

subsection \<open>A service for which no request was raised\<close>

text \<open>The children and the status are as planned; a ConfigMap is shared and may be anybody's.\<close>

definition matches :: "string \<Rightarrow> NamespacedName \<Rightarrow> cluster \<Rightarrow> bool" where
  "matches conflict req w \<longleftrightarrow>
     (let p = plan_under conflict req w in
      (at is_Meta (cl_InferenceServices w) req \<noteq> [] \<longrightarrow> pl_Status p \<noteq> None) \<and>
      written d_Meta (cl_Deployments w) (pl_Deployment p) = cl_Deployments w \<and>
      written svc_Meta (cl_Services w) (pl_Service p) = cl_Services w \<and>
      restated_at req (cl_InferenceServices w) (pl_Status p) = cl_InferenceServices w)"

lemma watch_answers:
  "fst (run (allServices ref_kube) w) = map (\<lambda>i. meta_key (is_Meta i)) (cl_InferenceServices w)"
  "set (fst (run (servicesForModel ref_kube k) w))
     = (\<lambda>i. meta_key (is_Meta i)) ` {i \<in> set (cl_InferenceServices w). modelKey i = k}"
proof -
  have "modelKey i = k \<longleftrightarrow> isvc_Namespace i = nn_Namespace k \<and> lr_Name (iss_ModelRef (is_Spec i)) = nn_Name k" for i
    by (cases k) (auto simp: modelKey_def)
  then show "fst (run (allServices ref_kube) w) = map (\<lambda>i. meta_key (is_Meta i)) (cl_InferenceServices w)"
    "set (fst (run (servicesForModel ref_kube k) w))
     = (\<lambda>i. meta_key (is_Meta i)) ` {i \<in> set (cl_InferenceServices w). modelKey i = k}"
    by (simp_all add: run_def allServices_def servicesForModel_def client_call_defs go_simps list_from_def conj_assoc)
qed

lemma change_event_kind: "e \<in> set (change_events k meta xs ys) \<Longrightarrow> ev_Kind e = k"
  by (auto simp: change_events_def)

lemma unraised_service:
  assumes "(InferenceServiceController, req) \<notin> raised H w w'"
  shows "e \<in> set (change_events InferenceServiceKind is_Meta (cl_InferenceServices w) (cl_InferenceServices w')) \<Longrightarrow>
      meta_key (ev_Meta e) \<noteq> req"
    and "e \<in> set (change_events BrukModelKind bm_Meta (cl_BrukModels w) (cl_BrukModels w')) \<Longrightarrow>
      i \<in> set (cl_InferenceServices w') \<Longrightarrow> meta_key (is_Meta i) = req \<Longrightarrow> meta_key (ev_Meta e) \<noteq> modelKey i"
    and "e \<in> set (change_events BrukTenantKind bt_Meta (cl_BrukTenants w) (cl_BrukTenants w')) \<Longrightarrow>
      i \<in> set (cl_InferenceServices w') \<Longrightarrow> meta_key (is_Meta i) \<noteq> req"
    and "e \<in> set (change_events DeploymentKind d_Meta (cl_Deployments w) (cl_Deployments w')) \<Longrightarrow>
      req \<notin> set (H InferenceServiceKind (ev_Meta e))"
    and "e \<in> set (change_events ServiceKind svc_Meta (cl_Services w) (cl_Services w')) \<Longrightarrow>
      req \<notin> set (H InferenceServiceKind (ev_Meta e))"
proof -
  have none: "req \<notin> set (fst (run (enqueue ref_kube H InferenceServiceController e) w'))"
    if "e \<in> set (events w w')" for e
    using assms that by (rule not_raised)
  note kind = change_event_kind
  show "meta_key (ev_Meta e) \<noteq> req"
    if "e \<in> set (change_events InferenceServiceKind is_Meta (cl_InferenceServices w) (cl_InferenceServices w'))"
    using none [of e] kind [OF that] that by (auto simp: enqueue_service events_def)
  show "meta_key (ev_Meta e) \<noteq> modelKey i"
    if "e \<in> set (change_events BrukModelKind bm_Meta (cl_BrukModels w) (cl_BrukModels w'))"
      "i \<in> set (cl_InferenceServices w')" "meta_key (is_Meta i) = req"
    using none [of e] kind [OF that(1)] that by (auto simp: enqueue_service events_def watch_answers)
  show "meta_key (is_Meta i) \<noteq> req"
    if "e \<in> set (change_events BrukTenantKind bt_Meta (cl_BrukTenants w) (cl_BrukTenants w'))"
      "i \<in> set (cl_InferenceServices w')"
    using none [of e] kind [OF that(1)] that by (auto simp: enqueue_service events_def watch_answers)
  show "req \<notin> set (H InferenceServiceKind (ev_Meta e))"
    if "e \<in> set (change_events DeploymentKind d_Meta (cl_Deployments w) (cl_Deployments w'))"
    using none [of e] kind [OF that] that by (auto simp: enqueue_service events_def)
  show "req \<notin> set (H InferenceServiceKind (ev_Meta e))"
    if "e \<in> set (change_events ServiceKind svc_Meta (cl_Services w) (cl_Services w'))"
    using none [of e] kind [OF that] that by (auto simp: enqueue_service events_def)
qed

text \<open>A child that its owner controls cannot change unnoticed.\<close>

lemma child_untouched:
  assumes "owner_handler H" and "unique_keys meta xs" and "unique_keys meta ys"
    and "\<And>e. e \<in> set (change_events k meta xs ys) \<Longrightarrow> meta_key (is_Meta i) \<notin> set (H InferenceServiceKind (ev_Meta e))"
    and "upsert meta xs x = xs" and "the_controller (meta x) = Some (controller_ref (is_Meta i))"
    and "one_controller_at_most (meta x)" and "om_Namespace (meta x) = isvc_Namespace i"
  shows "at meta ys (meta_key (meta x)) = at meta xs (meta_key (meta x))"
proof -
  let ?k = "meta_key (meta x)"
  from assms(5) have "at meta xs ?k \<noteq> []" "\<forall>y \<in> set (at meta xs ?k). y = x" by (simp_all add: upsert_id)
  with at_unique [OF assms(2), of ?k] have xs: "at meta xs ?k = [x]" "x \<in> set xs" by auto
  let ?r = "controller_ref (is_Meta i)"
  have "?r \<in> set (om_OwnerReferences (meta x))"
    using assms(6) unfolding the_controller_def by (blast dest: find_Some_set)
  moreover have "or_Controller ?r" "or_Kind ?r = kind_name InferenceServiceKind" by (simp_all add: controller_ref_def)
  ultimately have "\<lparr>nn_Namespace = om_Namespace (meta x), nn_Name = or_Name ?r\<rparr> \<in> set (H InferenceServiceKind (meta x))"
    unfolding owner_handler.owner_requests [OF assms(1) assms(7) [unfolded one_controller_at_most_def]] by blast
  then have "meta_key (is_Meta i) \<in> set (H InferenceServiceKind (meta x))"
    using assms(8) by (simp add: meta_key_def controller_ref_def)
  with assms(4) [of "\<lparr>ev_Kind = k, ev_Meta = meta x\<rparr>"] xs(2) have "x \<in> set ys"
    by (auto simp: change_events_def)
  then have "x \<in> set (at meta ys ?k)" by (simp add: set_at)
  with at_unique [OF assms(3), of ?k] xs(1) show ?thesis by auto
qed

text \<open>So what matched before a change that raises no request for the service matches after it.\<close>

lemma get_at_cong: "at meta ys k = at meta xs k \<Longrightarrow> get_from meta ys k = get_from meta xs k"
  by (simp add: get_from_at)

lemma written_kept:
  assumes "written meta xs p = xs" and "\<And>x. p = Some x \<Longrightarrow> at meta ys (meta_key (meta x)) = at meta xs (meta_key (meta x))"
  shows "written meta ys p = ys"
  using assms by (cases p) (simp_all add: upsert_id)

lemma matches_changed:
  assumes H: "owner_handler H" and wf: "well_formed w" "well_formed w'"
    and unraised: "(InferenceServiceController, req) \<notin> raised H w w'" and now: "matches c req w"
  shows "matches c req w'"
proof -
  note unraised = unraised_service [OF unraised]
  let ?p = "plan_under c req w"
  from wf have keys: "unique_keys is_Meta (cl_InferenceServices w)" "unique_keys is_Meta (cl_InferenceServices w')"
    "unique_keys bm_Meta (cl_BrukModels w)" "unique_keys bm_Meta (cl_BrukModels w')"
    "unique_keys bt_Meta (cl_BrukTenants w)" "unique_keys bt_Meta (cl_BrukTenants w')"
    "unique_keys d_Meta (cl_Deployments w)" "unique_keys d_Meta (cl_Deployments w')"
    "unique_keys svc_Meta (cl_Services w)" "unique_keys svc_Meta (cl_Services w')"
    and cms: "list_all (\<lambda>c. one_controller_at_most (cm_Meta c)) (cl_ConfigMaps w)"
    "list_all (\<lambda>c. one_controller_at_most (cm_Meta c)) (cl_ConfigMaps w')"
    by (simp_all add: well_formed_def)
  have at: "at is_Meta (cl_InferenceServices w') req = at is_Meta (cl_InferenceServices w) req"
    by (rule at_untouched [OF keys(1,2) unraised(1)])
  from now have status: "restated_at req (cl_InferenceServices w) (pl_Status ?p) = cl_InferenceServices w"
    and children: "written d_Meta (cl_Deployments w) (pl_Deployment ?p) = cl_Deployments w"
      "written svc_Meta (cl_Services w) (pl_Service ?p) = cl_Services w"
    by (simp_all add: matches_def Let_def)
  show ?thesis
  proof (cases "at is_Meta (cl_InferenceServices w) req")
    case Nil
    with at show ?thesis by (simp add: matches_def plan_under_def get_from_at no_plan_def)
  next
    case (Cons i js)
    then have "i \<in> set (at is_Meta (cl_InferenceServices w') req)" by (simp add: at)
    then have i: "i \<in> set (cl_InferenceServices w')" "meta_key (is_Meta i) = req" by (simp_all add: set_at)
    have got: "get_from is_Meta (cl_InferenceServices w) req = Inr i" "get_from is_Meta (cl_InferenceServices w') req = Inr i"
      using at Cons by (simp_all add: get_from_at)
    have tenant: "get_from bt_Meta (cl_BrukTenants w') tenantKey = get_from bt_Meta (cl_BrukTenants w) tenantKey"
      using unraised(3) i by (intro get_at_cong at_untouched [OF keys(5,6)]) blast
    have model: "get_from bm_Meta (cl_BrukModels w') (modelKey i) = get_from bm_Meta (cl_BrukModels w) (modelKey i)"
      using unraised(2) i by (intro get_at_cong at_untouched [OF keys(3,4)]) blast
    from now Cons have planned: "pl_Status ?p \<noteq> None" by (simp add: matches_def Let_def)
    have restated: "restated_at req (cl_InferenceServices w') (pl_Status ?p) = cl_InferenceServices w'"
      using status at by (cases "pl_Status ?p") (simp_all add: restated_at_def put_to_status_id)
    have same: "decision c w' i = decision c w i" unfolding decision_def tenant model ..
    show ?thesis
    proof (cases "decision c w i")
      case (Inl p)
      with same got restated planned show ?thesis
        by (simp add: matches_def plan_under_def refusal_def no_plan_def)
    next
      case (Inr p)
      let ?a = "apply_plan w i (snd p) (tenantConfig (fst p))"
      from Inr got have p: "?p = ?a" by (simp add: plan_under_def)
      have dep: "at d_Meta (cl_Deployments w') (meta_key (d_Meta dr)) = at d_Meta (cl_Deployments w) (meta_key (d_Meta dr))"
        if dr: "pl_Deployment ?a = Some dr" for dr
      proof (rule child_untouched [OF H keys(7,8)])
        show "om_Namespace (d_Meta dr) = isvc_Namespace i" using applied_Deployment(1) [OF dr] by (simp add: meta_key_eq)
      qed (use unraised(4) i(2) children(1) dr p applied_Deployment [OF dr] in auto)
      have svc: "at svc_Meta (cl_Services w') (meta_key (svc_Meta sr)) = at svc_Meta (cl_Services w) (meta_key (svc_Meta sr))"
        if sr: "pl_Service ?a = Some sr" for sr
      proof (rule child_untouched [OF H keys(9,10)])
        show "om_Namespace (svc_Meta sr) = isvc_Namespace i" using applied_Service(1) [OF sr] by (simp add: meta_key_def)
      qed (use unraised(5) i(2) children(2) sr p applied_Service [OF sr] in auto)
      obtain cm cm' where cm: "gai_answer w i = Inr cm" "gai_answer w' i = Inr cm'"
        using gai_accepted [OF cms(1)] gai_accepted [OF cms(2)] by metis
      have "apply_plan w' i (snd p) (tenantConfig (fst p)) = ?a\<lparr>pl_ConfigMap := cm'\<rparr>"
      proof (rule apply_plan_same [OF cm])
        show "pl_Status ?a \<noteq> None" using planned p by simp
      qed (use dep svc applied_Deployment(1) applied_Service(1) in metis)+
      with Inr same got have "plan_under c req w' = ?p\<lparr>pl_ConfigMap := cm'\<rparr>" by (simp add: plan_under_def)
      moreover have "written d_Meta (cl_Deployments w') (pl_Deployment ?p) = cl_Deployments w'"
        using dep p by (intro written_kept [OF children(1)]) simp
      moreover have "written svc_Meta (cl_Services w') (pl_Service ?p) = cl_Services w'"
        using svc p by (intro written_kept [OF children(2)]) simp
      ultimately show ?thesis using restated planned by (simp add: matches_def)
    qed
  qed
qed

subsection \<open>What a run leaves behind\<close>

lemma unique_put:
  assumes "\<And>y. meta (f y) = meta y"
  shows "unique_keys meta (put_to meta xs k f) = unique_keys meta xs"
proof -
  have "map (\<lambda>y. meta_key (meta y)) (put_to meta xs k f) = map (\<lambda>y. meta_key (meta y)) xs"
    using assms unfolding put_to_def by (induction xs) simp_all
  then show ?thesis by (simp add: unique_keys_def)
qed

lemma unique_upsert:
  assumes "unique_keys meta xs"
  shows "unique_keys meta (upsert meta xs x)"
proof (cases "at meta xs (meta_key (meta x)) = []")
  case True
  with assms show ?thesis by (auto simp: upsert_def Let_def unique_keys_def at_def filter_empty_conv)
next
  case False
  have "map (\<lambda>y. meta_key (meta y)) (put_to meta xs (meta_key (meta x)) (\<lambda>_. x)) = map (\<lambda>y. meta_key (meta y)) xs"
    unfolding put_to_def by (induction xs) auto
  with False assms show ?thesis by (simp add: upsert_def Let_def unique_keys_def)
qed

lemma well_formed_validated: "validated w w' \<Longrightarrow> well_formed w \<Longrightarrow> well_formed w'"
proof -
  assume "validated w w'" and wf: "well_formed w"
  then obtain k f k' f' where f: "\<And>m. \<exists>st. f m = m\<lparr>bm_Status := st\<rparr>" "\<And>t. \<exists>st. f' t = t\<lparr>bt_Status := st\<rparr>"
    and w': "w' = w\<lparr>cl_BrukModels := put_to bm_Meta (cl_BrukModels w) k f,
            cl_BrukTenants := put_to bt_Meta (cl_BrukTenants w) k' f'\<rparr>"
    by (auto simp: validated_def)
  have "bm_Meta (f m) = bm_Meta m" "bt_Meta (f' t) = bt_Meta t" for m t using f(1) [of m] f(2) [of t] by auto
  with wf show "well_formed w'" by (simp add: well_formed_def w' unique_put)
qed

lemma well_formed_settle:
  assumes "well_formed w"
  shows "well_formed (settle_step q w)"
proof -
  have "one_controller_at_most (cm_Meta c)" if "pl_ConfigMap (plan_of q w) = Some c" for c
    using planned_ConfigMap [OF that] answer_one [where meta = cm_Meta] by metis
  with assms have "list_all (\<lambda>c. one_controller_at_most (cm_Meta c)) (cl_ConfigMaps (settle_step q w))"
    using set_upsert by (cases "pl_ConfigMap (plan_of q w)") (fastforce simp: well_formed_def list_all_iff)+
  moreover have "unique_keys d_Meta (cl_Deployments (settle_step q w))"
    using assms by (cases "pl_Deployment (plan_of q w)") (simp_all add: well_formed_def unique_upsert)
  moreover have "unique_keys svc_Meta (cl_Services (settle_step q w))"
    using assms by (cases "pl_Service (plan_of q w)") (simp_all add: well_formed_def unique_upsert)
  moreover have "unique_keys is_Meta (cl_InferenceServices (settle_step q w))"
    using assms by (cases "pl_Status (plan_of q w)") (simp_all add: well_formed_def restated_at_def unique_put)
  ultimately show ?thesis using assms by (simp add: well_formed_def)
qed

lemma well_formed_op: "well_formed w \<Longrightarrow> well_formed (op_step a w)"
proof -
  assume wf: "well_formed w"
  obtain c q where a: "a = (c, q)" by fastforce
  show ?thesis
    using well_formed_settle [OF wf, of q] well_formed_validated [OF model_validated wf, of q]
      well_formed_validated [OF tenant_validated wf, of q]
    by (cases c) (simp_all add: a)
qed

text \<open>A run that returns nil has planned a status.\<close>

lemma nil_apply:
  assumes "fst (run_state (reconcileApply ref_kube i m cfg) s) = Returned None"
  shows "pl_Status (apply_plan (world s) i m cfg) \<noteq> None"
proof (cases rule: gai_run [of s i])
  case (refused e cs)
  with assms show ?thesis by (simp add: reconcileApply_def go_simps)
next
  case gai: (ok cm cs)
  obtain rd where rd: "renderDeployment i m cfg = Some rd" using renderDeployment_not_None by blast
  let ?s1 = "s\<lparr>world := (world s)\<lparr>cl_ConfigMaps := written cm_Meta (cl_ConfigMaps (world s)) cm\<rparr>, calls := cs\<rparr>"
  show ?thesis
  proof (cases rd)
    case (Inl err)
    with gai rd show ?thesis by (simp add: apply_plan_def)
  next
    case (Inr rendered)
    have same: "dep_answer (world ?s1) i rendered = dep_answer (world s) i rendered" by (rule answers_cong(2)) simp
    show ?thesis
    proof (cases rule: dep_run [of ?s1 i rendered])
      case (refused e cs')
      with assms gai rd Inr show ?thesis by (simp add: reconcileApply_def go_simps)
    next
      case dep: (ok dr cs')
      let ?s2 = "?s1\<lparr>world := (world ?s1)\<lparr>cl_Deployments := upsert d_Meta (cl_Deployments (world ?s1)) dr\<rparr>, calls := cs'\<rparr>"
      have svc_same: "svc_answer (world ?s2) i = svc_answer (world s) i" by (rule answers_cong(3)) simp
      show ?thesis
      proof (cases rule: svc_run [of ?s2 i])
        case (refused e cs'')
        with assms gai rd Inr dep(2) show ?thesis by (simp add: reconcileApply_def applyServiceAndStatus_def go_simps)
      next
        case (ok sr cs'')
        then have "svc_answer (world s) i = Some sr" using svc_same by simp
        moreover have "dep_answer (world s) i rendered = Some dr" using dep(1) same by simp
        ultimately show ?thesis using gai(1) rd Inr by (simp add: apply_plan_def)
      qed
    qed
  qed
qed

lemma nil_plan:
  assumes "run (ReconcileISVC ref_kube req) w = (Returned None, w', cs)"
    and "get_from is_Meta (cl_InferenceServices w) req = Inr i"
  shows "pl_Status (plan_of req w) \<noteq> None"
proof (cases "snd (decide req w i)")
  case (Inl p)
  with assms(2) show ?thesis by (cases p) (simp add: plan_of_def)
next
  case (Inr p)
  obtain t m where p: "p = (t, m)" by fastforce
  let ?s = "\<lparr>world = w, calls = fst (decide req w i)\<rparr>"
  from run_decides [of "\<lparr>world = w, calls = []\<rparr>" req i] assms Inr p
  have "fst (run_state (reconcileApply ref_kube i m (tenantConfig t)) ?s) = Returned None"
    by (auto simp: run_def carry_out_def split: prod.splits)
  from nil_apply [OF this] assms(2) Inr p show ?thesis by (simp add: plan_of_def)
qed

lemma served_matches_guard:
  assumes "run (ReconcileISVC ref_kube req) w = (Returned None, w', cs)"
    and "get_from is_Meta (cl_InferenceServices w') req = Inr i"
  shows "matches (guard_message i w') req w'"
proof -
  from reconcile_again [OF assms(1)] have again: "run (ReconcileISVC ref_kube req) w' = (Returned None, w', cs)" .
  then have "settle_step req w' = w'" by (simp add: settle_step_def)
  with step_frames(6-8) [of req w'] nil_plan [OF again assms(2)] show ?thesis
    by (simp add: matches_def flip: plan_of_under [OF assms(2)])
qed

lemma served_matches:
  assumes "run (ReconcileISVC ref_kube req) w = (Returned None, w', cs)"
  shows "\<exists>c. matches c req w'"
proof (cases "get_from is_Meta (cl_InferenceServices w') req")
  case (Inl e)
  then have "matches [] req w'"
    by (cases "at is_Meta (cl_InferenceServices w') req") (simp_all add: matches_def plan_under_def get_from_at no_plan_def)
  then show ?thesis by blast
qed (use served_matches_guard [OF assms] in blast)

subsection \<open>What holds of an object from one run to the next\<close>

text \<open>A model is validated as some past content of the secrets made it; a tenant as it is.\<close>

fun settled :: "controller \<Rightarrow> NamespacedName \<Rightarrow> cluster \<Rightarrow> bool" where
  "settled InferenceServiceController req w \<longleftrightarrow> (\<exists>conflict. matches conflict req w)"
| "settled BrukModelController req w \<longleftrightarrow>
     (\<exists>secrets. op_step (BrukModelController, req) (w\<lparr>cl_Secrets := secrets\<rparr>) = w\<lparr>cl_Secrets := secrets\<rparr>)"
| "settled BrukTenantController req w \<longleftrightarrow> op_step (BrukTenantController, req) w = w"

lemma unraised_validators:
  "(BrukModelController, req) \<notin> raised H w w' \<Longrightarrow>
     e \<in> set (change_events BrukModelKind bm_Meta (cl_BrukModels w) (cl_BrukModels w')) \<Longrightarrow> meta_key (ev_Meta e) \<noteq> req"
  "(BrukTenantController, req) \<notin> raised H w w' \<Longrightarrow>
     e \<in> set (change_events BrukTenantKind bt_Meta (cl_BrukTenants w) (cl_BrukTenants w')) \<Longrightarrow> meta_key (ev_Meta e) \<noteq> req"
proof -
  show "meta_key (ev_Meta e) \<noteq> req" if "(BrukModelController, req) \<notin> raised H w w'"
    "e \<in> set (change_events BrukModelKind bm_Meta (cl_BrukModels w) (cl_BrukModels w'))"
    using not_raised [OF that(1), of e] change_event_kind [OF that(2)] that(2) by (simp add: events_def enqueue_other)
  show "meta_key (ev_Meta e) \<noteq> req" if "(BrukTenantController, req) \<notin> raised H w w'"
    "e \<in> set (change_events BrukTenantKind bt_Meta (cl_BrukTenants w) (cl_BrukTenants w'))"
    using not_raised [OF that(1), of e] change_event_kind [OF that(2)] that(2) by (simp add: events_def enqueue_other)
qed

lemma settled_changed:
  assumes "owner_handler H" and wf: "well_formed w" "well_formed w'"
    and unraised: "(c, req) \<notin> raised H w w'" and now: "settled c req w"
  shows "settled c req w'"
proof (cases c)
  case InferenceServiceController
  with matches_changed [OF assms(1) wf] unraised now show ?thesis by auto
next
  case BrukModelController
  with now obtain secrets where quiet: "op_step (BrukModelController, req) (w\<lparr>cl_Secrets := secrets\<rparr>) = w\<lparr>cl_Secrets := secrets\<rparr>"
    by auto
  have at: "at bm_Meta (cl_BrukModels w') req = at bm_Meta (cl_BrukModels w) req"
    using wf unraised_validators(1) [of req H w w'] unraised BrukModelController
    by (intro at_untouched) (auto simp: well_formed_def)
  let ?w = "w\<lparr>cl_Secrets := secrets\<rparr>"
  obtain f where f: "\<And>v. get_from bm_Meta (cl_BrukModels v) req = get_from bm_Meta (cl_BrukModels ?w) req \<Longrightarrow> cl_Secrets v = cl_Secrets ?w \<Longrightarrow>
     op_step (BrukModelController, req) v = v\<lparr>cl_BrukModels := put_to bm_Meta (cl_BrukModels v) req f\<rparr>"
    using model_step [of req ?w] by metis
  have "cl_BrukModels (op_step (BrukModelController, req) ?w) = put_to bm_Meta (cl_BrukModels ?w) req f"
    by (simp add: f [of ?w])
  with quiet have "put_to bm_Meta (cl_BrukModels w) req f = cl_BrukModels w" by simp
  then have "put_to bm_Meta (cl_BrukModels w') req f = cl_BrukModels w'" by (simp add: put_to_status_id at)
  with f [of "w'\<lparr>cl_Secrets := secrets\<rparr>"] at
  have "op_step (BrukModelController, req) (w'\<lparr>cl_Secrets := secrets\<rparr>) = w'\<lparr>cl_Secrets := secrets\<rparr>"
    by (simp add: get_from_at)
  with BrukModelController show ?thesis by auto
next
  case BrukTenantController
  have at: "at bt_Meta (cl_BrukTenants w') req = at bt_Meta (cl_BrukTenants w) req"
    using wf unraised_validators(2) [of req H w w'] unraised BrukTenantController
    by (intro at_untouched) (auto simp: well_formed_def)
  obtain f where f: "\<And>v. get_from bt_Meta (cl_BrukTenants v) req = get_from bt_Meta (cl_BrukTenants w) req \<Longrightarrow>
     op_step (BrukTenantController, req) v = v\<lparr>cl_BrukTenants := put_to bt_Meta (cl_BrukTenants v) req f\<rparr>"
    using tenant_step [of req w] by metis
  have "cl_BrukTenants (op_step (BrukTenantController, req) w) = put_to bt_Meta (cl_BrukTenants w) req f"
    by (simp add: f [of w])
  with now BrukTenantController have "put_to bt_Meta (cl_BrukTenants w) req f = cl_BrukTenants w" by simp
  then have "put_to bt_Meta (cl_BrukTenants w') req f = cl_BrukTenants w'" by (simp add: put_to_status_id at)
  with f [of w'] at BrukTenantController show ?thesis by (simp add: get_from_at)
qed

lemma settled_served:
  assumes "run (reconcile_of ref_kube c req) w = (Returned None, w', cs)"
  shows "settled c req w'"
proof -
  have "op_step (c, req) w' = w'"
    using op_step_idem [of "(c, req)" w] assms by (simp add: op_step_def)
  moreover have "w' = w'\<lparr>cl_Secrets := cl_Secrets w'\<rparr>" by simp
  ultimately show ?thesis using assms served_matches by (cases c) (auto intro!: exI [of _ "cl_Secrets w'"])
qed

subsection \<open>Nothing queued\<close>

text \<open>The conflict a service's status reports, empty when it reports none.\<close>

definition reported_conflict :: "InferenceService \<Rightarrow> string" where
  "reported_conflict i =
     (case findCondition (ist_Conditions (is_Status i)) ConditionConfigured of
        Some c \<Rightarrow> (if c_Reason c = ReasonTrustedStoreConflict then c_Message c else [])
      | None \<Rightarrow> [])"

lemma reported_by:
  "is_Status i = is_Status (failedService ref_kube reason msg j) \<Longrightarrow>
     reported_conflict i = (if reason = ReasonTrustedStoreConflict then msg else [])"
  "is_Status i = is_Status (readyService ref_kube j m d cfg) \<Longrightarrow> reported_conflict i = []"
proof -
  have "status_conditions (k_setStatusCondition ref_kube)" using ref_sc.status_conditions_axioms by simp
  note found = failed_conditions [OF this] ready_conditions [OF this]
  show "reported_conflict i = (if reason = ReasonTrustedStoreConflict then msg else [])"
    if "is_Status i = is_Status (failedService ref_kube reason msg j)"
    using found(1) [of reason msg j] by (simp add: reported_conflict_def that)
  show "reported_conflict i = []" if "is_Status i = is_Status (readyService ref_kube j m d cfg)"
    using found(2) [of j m d cfg] by (simp add: reported_conflict_def that ready_condition_def reason_defs)
qed

text \<open>The status a service has is the planned one.\<close>

lemma matches_status:
  assumes "matches c req w" and "get_from is_Meta (cl_InferenceServices w) req = Inr i"
  shows "pl_Status (plan_under c req w) = Some (is_Status i)"
proof -
  from assms(2) have i: "i \<in> set (at is_Meta (cl_InferenceServices w) req)"
    by (simp add: get_from_at split: list.splits)
  then have "at is_Meta (cl_InferenceServices w) req \<noteq> []" by auto
  with assms(1) obtain st where st: "pl_Status (plan_under c req w) = Some st"
    and "restated_at req (cl_InferenceServices w) (Some st) = cl_InferenceServices w" by (auto simp: matches_def Let_def)
  with i have "i\<lparr>is_Status := st\<rparr> = i" by (simp add: restated_at_def put_to_status_id)
  then have "is_Status i = st" by (metis InferenceService.select_convs(3) InferenceService.surjective InferenceService.update_convs(3))
  with st show ?thesis by simp
qed

text \<open>The plan a service matches is the one under the conflict it reports.\<close>

lemma matches_reported:
  assumes "matches c req w" and "get_from is_Meta (cl_InferenceServices w) req = Inr i"
  shows "plan_under (reported_conflict i) req w = plan_under c req w"
proof -
  from matches_status [OF assms] obtain st where st: "pl_Status (plan_under c req w) = Some st" "is_Status i = st" by simp
  note status = st(2)
  have "decision (reported_conflict i) w i = decision c w i"
  proof (cases "\<exists>t m. get_from bt_Meta (cl_BrukTenants w) tenantKey = Inr t \<and>
      get_from bm_Meta (cl_BrukModels w) (modelKey i) = Inr m \<and> specProblem i m = None")
    case False
    then show ?thesis by (auto simp: decision_def split: sum.split option.split)
  next
    case True
    then obtain t m where go: "\<And>x. decision x w i = (if x \<noteq> [] then Inl (ReasonTrustedStoreConflict, x) else Inr (t, m))"
      by (auto simp: decision_def)
    have "reported_conflict i = c"
    proof (cases "c = []")
      case False
      with go st assms(2) have "st = is_Status (failedService ref_kube ReasonTrustedStoreConflict c i)"
        by (simp add: plan_under_def refusal_def)
      with status have "is_Status i = is_Status (failedService ref_kube ReasonTrustedStoreConflict c i)" by simp
      from reported_by(1) [OF this] show ?thesis by simp
    next
      case True
      with go st assms(2) have "pl_Status (apply_plan w i m (tenantConfig t)) = Some st" by (simp add: plan_under_def)
      then obtain x where "st = is_Status (failedService ref_kube ReasonInvalidConfig x i) \<or>
          (\<exists>d. st = is_Status (readyService ref_kube i m d (tenantConfig t)))"
        by (auto simp: apply_plan_def no_plan_def split: sum.splits option.splits)
      with status have "reported_conflict i = []"
        using reported_by(1) [of i ReasonInvalidConfig x i] reported_by(2) [of i i m _ "tenantConfig t"]
        by (auto simp: reason_defs)
      with True show ?thesis by simp
    qed
    then show ?thesis by simp
  qed
  with assms(2) show ?thesis by (simp add: plan_under_def)
qed

text \<open>If the guard answers what the status reports, a run changes nothing but perhaps the ConfigMap.\<close>

lemma matches_current:
  assumes "matches c req w" and "get_from is_Meta (cl_InferenceServices w) req = Inr i"
    and "fst (run (trustedStoreConflict ref_kube i) w) = Inr (reported_conflict i)"
  shows "\<exists>r cs configMaps. run (ReconcileISVC ref_kube req) w = (r, w\<lparr>cl_ConfigMaps := configMaps\<rparr>, cs)"
proof -
  from assms(3) have "guard_message i w = reported_conflict i" by (simp add: guard_message_def)
  with plan_of_under [OF assms(2)] matches_reported [OF assms(1,2)]
  have "plan_of req w = plan_under c req w" by simp
  with assms(1) have "settle_step req w = w\<lparr>cl_ConfigMaps := written cm_Meta (cl_ConfigMaps w) (pl_ConfigMap (plan_of req w))\<rparr>"
    by (simp add: run_plan commit_def matches_def Let_def)
  then show ?thesis unfolding settle_step_def by (metis prod.collapse)
qed

text \<open>And if the status says Ready, the Deployment is there.\<close>

lemma matches_ready:
  assumes "matches c req w" and "get_from is_Meta (cl_InferenceServices w) req = Inr i" and "condition_true i ConditionReady"
  shows "\<exists>d \<in> set (cl_Deployments w). meta_key (d_Meta d) = req \<and> ref_isControlledBy (d_Meta d) (is_Meta i) \<and>
    claims_of_deployment d = {isvc_Claim i} \<and> deploymentAvailable d"
proof -
  have lib: "status_conditions (k_setStatusCondition ref_kube)" using ref_sc.status_conditions_axioms by simp
  note status = matches_status [OF assms(1,2)]
  have failed: "is_Status i \<noteq> is_Status (failedService ref_kube reason msg i)" for reason msg
    using failed_true(2) [OF lib, of reason msg i] assms(3) by (auto simp: condition_true_def)
  show ?thesis
  proof (cases "decision c w i")
    case (Inl p)
    with status assms(2) have "is_Status i = is_Status (failedService ref_kube (fst p) (snd p) i)"
      by (simp add: plan_under_def refusal_def)
    with failed show ?thesis by blast
  next
    case (Inr p)
    let ?m = "snd p" and ?cfg = "tenantConfig (fst p)"
    let ?a = "apply_plan w i ?m ?cfg"
    from Inr assms(2) have plan: "plan_under c req w = ?a" by (simp add: plan_under_def)
    obtain rd where "renderDeployment i ?m ?cfg = Some rd" using renderDeployment_not_None by blast
    with status failed failed [symmetric] obtain dr where dr: "pl_Deployment ?a = Some dr"
      and ready: "is_Status i = is_Status (readyService ref_kube i ?m dr ?cfg)"
      unfolding plan by (auto simp: apply_plan_def no_plan_def split: sum.splits option.splits)
    from assms(1) plan dr have "upsert d_Meta (cl_Deployments w) dr = cl_Deployments w" by (simp add: matches_def Let_def)
    then have "dr \<in> set (cl_Deployments w)" by (rule upsert_member)
    moreover have "deploymentAvailable dr"
      using ready_true(3) [OF lib, of i ?m dr ?cfg] assms(3) ready by (simp add: condition_true_def)
    moreover have "meta_key (is_Meta i) = req" using get_from_key [OF assms(2)] by simp
    moreover have "ref_isControlledBy (d_Meta dr) (is_Meta i)"
      using applied_Deployment(2) [OF dr] by (simp add: ref_isControlledBy_def controller_ref_def)
    ultimately show ?thesis using applied_Deployment(1,4) [OF dr] by auto
  qed
qed

text \<open>The request makes its reconciler read a secret.\<close>

definition names_token :: "controller \<Rightarrow> NamespacedName \<Rightarrow> cluster \<Rightarrow> bool" where
  "names_token c req w \<longleftrightarrow> c = BrukModelController \<and>
     (case get_from bm_Meta (cl_BrukModels w) req of
        Inl _ \<Rightarrow> False
      | Inr m \<Rightarrow> (case model_HuggingFace m of None \<Rightarrow> False | Some hf \<Rightarrow> hf_TokenSecretRef hf \<noteq> None))"

lemma model_without_token:
  assumes "\<not> names_token BrukModelController req w"
  shows "op_step (BrukModelController, req) (w\<lparr>cl_Secrets := ss\<rparr>) = (op_step (BrukModelController, req) w)\<lparr>cl_Secrets := ss\<rparr>"
proof -
  note defs = op_step_def run_def ReconcileModel_def getBrukModel_def setReady_def updateBrukModelStatus_def go_simps Let_def
  have update: "k_updateBrukModelStatus ref_kube m (w\<lparr>cl_Secrets := ss\<rparr>) =
      (let u = k_updateBrukModelStatus ref_kube m w in (fst u, (snd u)\<lparr>cl_Secrets := ss\<rparr>))" for m
    by (simp add: ref_kube_def Let_def split: prod.split)
  show ?thesis
  proof (cases "get_from bm_Meta (cl_BrukModels w) req")
    case (Inl e)
    then show ?thesis by (simp add: defs)
  next
    case (Inr m)
    with assms show ?thesis
      by (auto simp: names_token_def defs update split: option.splits prod.split)
  qed
qed

text \<open>A validator's object that is settled is up to date, but perhaps for its token secret.\<close>

lemma settled_validator:
  assumes now: "settled c req w" and "c \<noteq> InferenceServiceController"
  shows "\<exists>secrets r cs. (secrets = cl_Secrets w \<or> names_token c req w) \<and>
    run (reconcile_of ref_kube c req) (w\<lparr>cl_Secrets := secrets\<rparr>) = (r, w\<lparr>cl_Secrets := secrets\<rparr>, cs)"
proof -
  have same: "w\<lparr>cl_Secrets := cl_Secrets w\<rparr> = w" by simp
  have "\<exists>secrets. (secrets = cl_Secrets w \<or> names_token c req w) \<and>
    op_step (c, req) (w\<lparr>cl_Secrets := secrets\<rparr>) = w\<lparr>cl_Secrets := secrets\<rparr>"
  proof (cases c)
    case BrukTenantController
    with now show ?thesis by (intro exI [of _ "cl_Secrets w"]) simp
  next
    case BrukModelController
    with now obtain ss where ss: "op_step (c, req) (w\<lparr>cl_Secrets := ss\<rparr>) = w\<lparr>cl_Secrets := ss\<rparr>" by auto
    show ?thesis
    proof (cases "names_token c req w")
      case False
      let ?v = "op_step (c, req) w"
      from ss False have "?v\<lparr>cl_Secrets := ss\<rparr> = w\<lparr>cl_Secrets := ss\<rparr>"
        using model_without_token [of req w ss] BrukModelController by simp
      then have "?v\<lparr>cl_Secrets := ss, cl_Secrets := cl_Secrets w\<rparr> = w\<lparr>cl_Secrets := cl_Secrets w\<rparr>" by simp
      moreover have "cl_Secrets ?v = cl_Secrets w"
        using validated_parts(6) [OF model_validated] BrukModelController by simp
      ultimately have "?v = w" by (metis cluster.surjective cluster.update_convs(4) same)
      with same show ?thesis by (intro exI [of _ "cl_Secrets w"]) simp
    qed (use ss in blast)
  qed (use assms(2) in simp)
  then show ?thesis unfolding op_step_def fst_conv snd_conv by (metis prod.collapse)
qed

subsection \<open>The production cluster\<close>

text \<open>A request that is served again finds nothing to do, and leaves its queue.\<close>

lemma served_out_steps:
  assumes "(c, req) \<in> Q" and "run (reconcile_of ref_kube c req) w = (Returned None, w', cs)"
  obtains Q' where "undisturbed H (w, Q) (w', Q')" "(c, req) \<notin> Q'"
proof -
  let ?Q = "Q - {(c, req)} \<union> raised H w w'"
  have "serves H (Returned None) (w, Q) (w', ?Q)"
    using serves.intros [OF assms(1), of w "Returned None" w' cs H] assms(2) by (simp add: retried_def)
  then have once: "undisturbed H (w, Q) (w', ?Q)" unfolding undisturbed_def by blast
  show thesis
  proof (cases "(c, req) \<in> ?Q")
    case True
    have "run (reconcile_of ref_kube c req) w' = (Returned None, w', cs)"
      using assms(2) reconcile_again model_again tenant_again by (cases c) simp_all
    with serves.intros [OF True, of w' "Returned None" w' cs H]
    have "serves H (Returned None) (w', ?Q) (w', ?Q - {(c, req)})" by (simp add: retried_def)
    with once have "undisturbed H (w, Q) (w', ?Q - {(c, req)})"
      unfolding undisturbed_def by (auto intro: rtranclp.rtrancl_into_rtrancl)
    from that [OF this] show thesis by simp
  qed (rule that [OF once])
qed

lemma started_requests: "requests w \<subseteq> raised H empty_cluster w"
proof
  fix a assume a: "a \<in> requests w"
  obtain c k where ck: "a = (c, k)" by fastforce
  note defs = enqueue_service enqueue_other events_def change_events_def empty_cluster_def
  from a ck consider (service) x where "c = InferenceServiceController" "k = meta_key (is_Meta x)" "x \<in> set (cl_InferenceServices w)"
    | (model) x where "c = BrukModelController" "k = meta_key (bm_Meta x)" "x \<in> set (cl_BrukModels w)"
    | (tenant) x where "c = BrukTenantController" "k = meta_key (bt_Meta x)" "x \<in> set (cl_BrukTenants w)"
    by (auto simp: requests_def keys_of_def)
  then have "\<exists>e \<in> set (events empty_cluster w). k \<in> set (fst (run (enqueue ref_kube H c e) w))"
  proof cases
    case (service x)
    then show ?thesis by (intro bexI [of _ "\<lparr>ev_Kind = InferenceServiceKind, ev_Meta = is_Meta x\<rparr>"]) (simp_all add: defs)
  next
    case (model x)
    then show ?thesis by (intro bexI [of _ "\<lparr>ev_Kind = BrukModelKind, ev_Meta = bm_Meta x\<rparr>"]) (simp_all add: defs)
  next
    case (tenant x)
    then show ?thesis by (intro bexI [of _ "\<lparr>ev_Kind = BrukTenantKind, ev_Meta = bt_Meta x\<rparr>"]) (simp_all add: defs)
  qed
  then show "a \<in> raised H empty_cluster w" unfolding ck raised_def by (cases c) auto
qed

lemma well_formed_prod: "well_formed prodCluster"
  by (simp add: well_formed_def unique_keys_def)

text \<open>The production service once its Deployment is Available.\<close>

definition availableChild :: Deployment where
  "availableChild = prodChild\<lparr>d_StatusConditions := [\<lparr>dc_Type = DeploymentAvailable, dc_Status = ConditionTrue\<rparr>]\<rparr>"

definition availableCluster :: cluster where
  "availableCluster = prodCluster\<lparr>cl_Deployments := [availableChild]\<rparr>"

definition availableService :: InferenceService where
  "availableService = readyService ref_kube prodService prodModel availableChild testConfig"

definition availableDone :: cluster where
  "availableDone = availableCluster
     \<lparr>cl_InferenceServices := [prodService\<lparr>is_Status := is_Status availableService\<rparr>],
      cl_Services := [prodChildService], cl_ConfigMaps := [gaiObject prodService]\<rparr>"

lemma apply_availableChild:
  "cl_Deployments w = [availableChild] \<Longrightarrow> k_applyDeployment ref_kube prodChild w = (Inr availableChild, w)"
proof -
  assume w: "cl_Deployments w = [availableChild]"
  have "merge_Deployment availableChild prodChild = availableChild"
    by (simp add: merge_Deployment_def availableChild_def merge_meta_idem)
  moreover have "meta_key (d_Meta availableChild) = prodKey" "one_controller_at_most (d_Meta availableChild)"
    by (simp_all add: availableChild_def one_controller_at_most_def)
  moreover have "w\<lparr>cl_Deployments := [availableChild]\<rparr> = w" using w by (cases w) simp
  ultimately show ?thesis using w by (simp add: ref_kube_def apply_to_def has_key_def put_to_def Let_def)
qed

lemma apply_first_gai:
  "cl_ConfigMaps w = [] \<Longrightarrow> k_applyConfigMap ref_kube (gaiObject i) w = (Inr (gaiObject i), w\<lparr>cl_ConfigMaps := [gaiObject i]\<rparr>)"
  by (simp add: ref_calls Let_def gaiObject_refs)

lemma run_available:
  "run (ReconcileISVC ref_kube prodKey) availableCluster =
     (Returned None, availableDone, prodRead @ [ApplyConfigMap (gaiObject prodService),
        ApplyDeployment prodChild, ApplyService prodChildService, UpdateInferenceServiceStatus availableService])"
proof -
  have "ref_isControlledBy (d_Meta availableChild) (is_Meta prodService)"
    by (simp add: availableChild_def ref_isControlledBy_def the_controller_def prod_metas)
  then show ?thesis
    by (simp add: run_def ReconcileISVC_def reconcileTenantConfig_def reconcileModel_def reconcileChecked_def
        trustedStoreConflict_def deploymentGuard_def podGuard_def prod_specProblem client_call_defs go_simps
        prod_metas prodRead_def guard_calls_def prod_fields availableCluster_def get_from_def list_from_def
        reconcileApply_def stage_defs applyServiceAndStatus_def updateReadyStatus_def render_prod
        owned_prod owned_prodService availableDone_def availableService_def apply_availableChild apply_first_gai)
qed

end
