(* ===== verification/Outcome.thy ===== *)
theory Outcome
  imports Freshness
begin

text \<open>
  What an operator that is left alone makes of a cluster. The verdict of every service is fixed by
  what the cluster holds when the manager starts: its own writes move statuses and Deployments,
  but no verdict. So when the queues have drained, every service reports, and has applied, what
  the table of \<open>Verdict\<close> says of the cluster it found.
\<close>

subsection \<open>The verdict on a cluster\<close>

definition found :: "ApiError + 'a \<Rightarrow> 'a option" where
  "found r = (case r of Inl _ \<Rightarrow> None | Inr x \<Rightarrow> Some x)"

definition view_of :: "cluster \<Rightarrow> InferenceService \<Rightarrow> snapshot" where
  "view_of w i =
     (let ns = Some (isvc_Namespace i) in
      \<lparr>sn_Service = i,
       sn_Tenant = found (get_from bt_Meta (cl_BrukTenants w) tenantKey),
       sn_Model = found (get_from bm_Meta (cl_BrukModels w) (modelKey i)),
       sn_Siblings = list_from is_Meta (cl_InferenceServices w) ns,
       sn_Deployments = list_from d_Meta (cl_Deployments w) ns,
       sn_Pods = list_from pod_Meta (cl_Pods w) ns\<rparr>)"

lemma verdict_decision:
  "failure_of ref_kube (view_of w i) = (case decision (guard_message i w) w i of Inl p \<Rightarrow> Some p | Inr _ \<Rightarrow> None)"
proof -
  note none = siblingConflict_nonempty [of ref_kube i] deploymentConflict_nonempty [of ref_kube i] podConflict_nonempty [of i]
  show ?thesis
    using none
    by (auto simp: failure_of_def view_of_def found_def decision_def workload_checks_def specProblem_def unless_def
        guard_message_eq Let_def split: sum.split option.split)
qed

subsection \<open>What no run changes\<close>

text \<open>The objects are the same but for their statuses; pods are the same.\<close>

definition same_specs :: "cluster \<Rightarrow> cluster \<Rightarrow> bool" where
  "same_specs w w' \<longleftrightarrow>
     map (\<lambda>i. (is_Meta i, is_Spec i)) (cl_InferenceServices w') = map (\<lambda>i. (is_Meta i, is_Spec i)) (cl_InferenceServices w) \<and>
     (\<forall>k. map_sum id (\<lambda>m. (bm_Meta m, bm_Spec m)) (get_from bm_Meta (cl_BrukModels w') k) =
          map_sum id (\<lambda>m. (bm_Meta m, bm_Spec m)) (get_from bm_Meta (cl_BrukModels w) k)) \<and>
     (\<forall>k. map_sum id (\<lambda>t. (bt_Meta t, bt_Spec t)) (get_from bt_Meta (cl_BrukTenants w') k) =
          map_sum id (\<lambda>t. (bt_Meta t, bt_Spec t)) (get_from bt_Meta (cl_BrukTenants w) k)) \<and>
     cl_Pods w' = cl_Pods w"

lemma same_specs_refl [simp]: "same_specs w w"
  by (simp add: same_specs_def)

lemma same_specs_trans: "same_specs u v \<Longrightarrow> same_specs v w \<Longrightarrow> same_specs u w"
  by (simp add: same_specs_def)

lemma same_specs_validated:
  assumes "validated w w'"
  shows "same_specs w w'"
proof -
  have "map_sum id (\<lambda>m. (bm_Meta m, bm_Spec m)) (get_from bm_Meta (cl_BrukModels w') k) =
      map_sum id (\<lambda>m. (bm_Meta m, bm_Spec m)) (get_from bm_Meta (cl_BrukModels w) k) \<and>
    map_sum id (\<lambda>t. (bt_Meta t, bt_Spec t)) (get_from bt_Meta (cl_BrukTenants w') k) =
      map_sum id (\<lambda>t. (bt_Meta t, bt_Spec t)) (get_from bt_Meta (cl_BrukTenants w) k)" for k
  proof -
    obtain fm ft where f: "get_from bm_Meta (cl_BrukModels w') k = map_sum id fm (get_from bm_Meta (cl_BrukModels w) k)"
      "get_from bt_Meta (cl_BrukTenants w') k = map_sum id ft (get_from bt_Meta (cl_BrukTenants w) k)"
      "\<And>m. \<exists>st. fm m = m\<lparr>bm_Status := st\<rparr>" "\<And>t. \<exists>st. ft t = t\<lparr>bt_Status := st\<rparr>"
      using validated_get [OF assms, of k k] by blast
    have "bm_Meta (fm m) = bm_Meta m \<and> bm_Spec (fm m) = bm_Spec m" "bt_Meta (ft t) = bt_Meta t \<and> bt_Spec (ft t) = bt_Spec t" for m t
      using f(3) [of m] f(4) [of t] by auto
    with f(1,2) show ?thesis by (simp add: sum.map_comp comp_def id_def)
  qed
  with validated_parts [OF assms] show ?thesis by (simp add: same_specs_def)
qed

lemma same_specs_op: "same_specs w (op_step a w)"
proof -
  obtain c q where a: "a = (c, q)" by fastforce
  show ?thesis
  proof (cases c)
    case InferenceServiceController
    then show ?thesis by (simp add: a same_specs_def restated_parts(1))
  qed (simp_all add: a same_specs_validated model_validated tenant_validated)
qed

abbreviation siblings :: "cluster \<Rightarrow> InferenceService \<Rightarrow> InferenceService list" where
  "siblings w i \<equiv> list_from is_Meta (cl_InferenceServices w) (Some (isvc_Namespace i))"

lemma sibling_verdict:
  assumes "same_specs w w'" and "is_Meta i' = is_Meta i" and "is_Spec i' = is_Spec i"
  shows "siblingConflict ref_kube i' (siblings w' i') = siblingConflict ref_kube i (siblings w i)"
proof -
  have "map (\<lambda>i. (is_Meta i, is_Spec i)) (siblings w' i) = map (\<lambda>i. (is_Meta i, is_Spec i)) (siblings w i)"
    using assms(1) by (intro list_from_specs) (simp add: same_specs_def)
  from siblingConflict_cong [OF assms(2,3) this] show ?thesis unfolding assms(2) .
qed

subsection \<open>Claims stay with their winners\<close>

text \<open>
  A Deployment that mounts the claim of a service is that service's, or the service has an older
  sibling on the claim. It is so on a cluster without Deployments.
\<close>

definition claims_held :: "cluster \<Rightarrow> bool" where
  "claims_held w \<longleftrightarrow>
     (\<forall>d \<in> set (cl_Deployments w). \<forall>i \<in> set (cl_InferenceServices w).
        om_Namespace (d_Meta d) = isvc_Namespace i \<longrightarrow> isvc_Claim i \<in> claims_of_deployment d \<longrightarrow>
        ref_isControlledBy (d_Meta d) (is_Meta i) \<or> siblingConflict ref_kube i (siblings w i) \<noteq> None)"

lemma claims_held_fresh: "cl_Deployments w = [] \<Longrightarrow> claims_held w"
  by (simp add: claims_held_def)

lemma claims_held_step:
  assumes "well_formed w" and held: "claims_held w"
  shows "claims_held (op_step a w)"
  unfolding claims_held_def
proof (intro ballI impI)
  fix d i'
  assume d: "d \<in> set (cl_Deployments (op_step a w))" and i': "i' \<in> set (cl_InferenceServices (op_step a w))"
    and ns: "om_Namespace (d_Meta d) = isvc_Namespace i'" and claim: "isvc_Claim i' \<in> claims_of_deployment d"
  have same: "same_specs w (op_step a w)" by (rule same_specs_op)
  from i' have "(is_Meta i', is_Spec i') \<in> set (map (\<lambda>i. (is_Meta i, is_Spec i)) (cl_InferenceServices (op_step a w)))" by force
  with same obtain i where i: "i \<in> set (cl_InferenceServices w)" "is_Meta i' = is_Meta i" "is_Spec i' = is_Spec i"
    by (auto simp: same_specs_def)
  note sib = sibling_verdict [OF same i(2,3), unfolded i(2)]
  show "ref_isControlledBy (d_Meta d) (is_Meta i') \<or> siblingConflict ref_kube i' (siblings (op_step a w) i') \<noteq> None"
  proof (cases "d \<in> set (cl_Deployments w)")
    case True
    have "om_Namespace (d_Meta d) = isvc_Namespace i" "isvc_Claim i \<in> claims_of_deployment d"
      using ns claim i(2,3) by simp_all
    with held True i(1) have "ref_isControlledBy (d_Meta d) (is_Meta i) \<or> siblingConflict ref_kube i (siblings w i) \<noteq> None"
      unfolding claims_held_def by blast
    then show ?thesis unfolding i(2) sib .
  next
    case False
    obtain c q where a: "a = (c, q)" by fastforce
    with d False have "c = InferenceServiceController"
      using validated_parts(2) [OF model_validated] validated_parts(2) [OF tenant_validated] by (cases c) auto
    with d False a have planned: "pl_Deployment (plan_of q w) = Some d"
      using set_upsert by (cases "pl_Deployment (plan_of q w)") fastforce+
    from planned obtain j t m where j: "cleared_at q w j t m" "meta_key (d_Meta d) = q"
      "ref_isControlledBy (d_Meta d) (is_Meta j)" "claims_of_deployment d = {isvc_Claim j}"
      by (rule planned_Deployment)
    from j(1) have "meta_key (is_Meta j) = q" "j \<in> set (cl_InferenceServices w)"
      by (auto simp: cleared_at_def dest: get_from_key)
    with j(2) have jns: "isvc_Namespace j = isvc_Namespace i'" using ns by (auto simp: meta_key_def)
    from claim j(4) have same_claim: "isvc_Claim j = isvc_Claim i" by (simp add: i)
    show ?thesis
    proof (cases "isvc_Name j = isvc_Name i")
      case True
      with jns i(2) have "meta_key (is_Meta j) = meta_key (is_Meta i)" by (simp add: meta_key_def)
      with assms(1) i(1) \<open>j \<in> set (cl_InferenceServices w)\<close> have "j = i"
        unfolding well_formed_def unique_keys_def by (blast dest: distinct_map_key_eq)
      with j(3) i(2) show ?thesis by simp
    next
      case False
      from j(1) have "siblingConflict ref_kube j (siblings w j) = None" by (simp add: cleared_at_def decide_go)
      with False same_claim jns i(1,2) have "\<not> precedes ref_kube i j"
        by (auto simp: siblingConflict_None list_from_def)
      with ref.co.claim_decides [OF False] have "precedes ref_kube j i" by blast
      with False same_claim jns i(2) \<open>j \<in> set (cl_InferenceServices w)\<close>
      have "siblingConflict ref_kube i (siblings w i) \<noteq> None"
        by (auto simp: siblingConflict_None list_from_def)
      then show ?thesis unfolding i(2) sib by blast
    qed
  qed
qed

subsection \<open>The verdicts stay\<close>

definition listed :: "InferenceService \<Rightarrow> cluster \<Rightarrow> bool" where
  "listed i w \<longleftrightarrow> (is_Meta i, is_Spec i) \<in> set (map (\<lambda>i. (is_Meta i, is_Spec i)) (cl_InferenceServices w))"

lemma listed_same: "same_specs w w' \<Longrightarrow> listed i w' = listed i w"
  by (simp only: listed_def same_specs_def)

lemma listed_get: "get_from is_Meta (cl_InferenceServices w) req = Inr i \<Longrightarrow> listed i w"
  by (auto simp: listed_def dest: get_from_key)

lemma held_guard:
  assumes "claims_held w" and "listed i w"
  shows "guard_message i w =
    (case siblingConflict ref_kube i (siblings w i) of Some msg \<Rightarrow> msg
     | None \<Rightarrow> (case podConflict i (list_from pod_Meta (cl_Pods w) (Some (isvc_Namespace i))) of Some msg \<Rightarrow> msg | None \<Rightarrow> []))"
proof (cases "siblingConflict ref_kube i (siblings w i)")
  case None
  from assms(2) obtain j where j: "j \<in> set (cl_InferenceServices w)" "is_Meta j = is_Meta i" "is_Spec j = is_Spec i"
    by (auto simp: listed_def)
  have "siblingConflict ref_kube j (siblings w j) = None"
    using sibling_verdict [OF same_specs_refl j(2,3), of w] None by simp
  then have "ref_isControlledBy (d_Meta d) (is_Meta i)"
    if "d \<in> set (cl_Deployments w)" "om_Namespace (d_Meta d) = isvc_Namespace i" "isvc_Claim i \<in> claims_of_deployment d" for d
    using assms(1) j that unfolding claims_held_def by metis
  then have "deploymentConflict ref_kube i (list_from d_Meta (cl_Deployments w) (Some (isvc_Namespace i))) = None"
    by (auto simp: deploymentConflict_None list_from_def podSpecMountsClaim_def volumesMountClaim_claims claims_of_deployment_def)
  with None show ?thesis by (simp add: guard_message_eq Let_def)
qed (simp add: guard_message_eq)

lemma guard_stays:
  assumes "same_specs w w'" and "claims_held w" and "claims_held w'" and "listed i w"
  shows "guard_message i w' = guard_message i w"
proof -
  have "siblingConflict ref_kube i (siblings w' i) = siblingConflict ref_kube i (siblings w i)"
    by (rule sibling_verdict [OF assms(1)]) simp_all
  moreover have "cl_Pods w' = cl_Pods w" using assms(1) by (simp add: same_specs_def)
  moreover have "listed i w'" using assms(4) listed_same [OF assms(1)] by simp
  ultimately show ?thesis
    unfolding held_guard [OF assms(2,4)] held_guard [OF assms(3) \<open>listed i w'\<close>] by (simp only:)
qed

text \<open>A decision is the same but for the statuses of the tenant and the model.\<close>

lemma restated_parts_eq:
  "map_sum id (\<lambda>m. (bm_Meta m, bm_Spec m)) r' = map_sum id (\<lambda>m. (bm_Meta m, bm_Spec m)) r \<Longrightarrow>
     r' = map_sum id (\<lambda>m. m\<lparr>bm_Status := bm_Status (projr r')\<rparr>) r"
  "map_sum id (\<lambda>t. (bt_Meta t, bt_Spec t)) q' = map_sum id (\<lambda>t. (bt_Meta t, bt_Spec t)) q \<Longrightarrow>
     q' = map_sum id (\<lambda>t. t\<lparr>bt_Status := bt_Status (projr q')\<rparr>) q"
  for r r' :: "ApiError + BrukModel" and q q' :: "ApiError + BrukTenant"
  by (cases r; cases r'; simp add: BrukModel.equality) (cases q; cases q'; simp add: BrukTenant.equality)

lemma decision_stays:
  assumes "same_specs w w'"
  obtains st st' where "decision c w' i = map_sum id (\<lambda>(t, m). (t\<lparr>bt_Status := st\<rparr>, m\<lparr>bm_Status := st'\<rparr>)) (decision c w i)"
proof -
  let ?t = "get_from bt_Meta (cl_BrukTenants w) tenantKey" and ?t' = "get_from bt_Meta (cl_BrukTenants w') tenantKey"
    and ?m = "get_from bm_Meta (cl_BrukModels w) (modelKey i)" and ?m' = "get_from bm_Meta (cl_BrukModels w') (modelKey i)"
  from assms restated_parts_eq(1) [of ?m' ?m] restated_parts_eq(2) [of ?t' ?t]
  obtain st st' where "?t' = map_sum id (\<lambda>t. t\<lparr>bt_Status := st\<rparr>) ?t" "?m' = map_sum id (\<lambda>m. m\<lparr>bm_Status := st'\<rparr>) ?m"
    unfolding same_specs_def by blast
  then show thesis
    by (intro that [of st st']) (simp add: decision_def split: sum.split option.split)
qed

lemma verdict_stays:
  assumes "same_specs w w'" and "claims_held w" and "claims_held w'" and "listed i w"
  shows "failure_of ref_kube (view_of w' i) = failure_of ref_kube (view_of w i)"
proof -
  obtain st st' where "decision (guard_message i w) w' i =
      map_sum id (\<lambda>(t, m). (t\<lparr>bt_Status := st\<rparr>, m\<lparr>bm_Status := st'\<rparr>)) (decision (guard_message i w) w i)"
    using decision_stays [OF assms(1)] by blast
  then show ?thesis
    unfolding verdict_decision guard_stays [OF assms] by (cases "decision (guard_message i w) w i") auto
qed

lemma dep_answer_spec:
  assumes "dep_answer w i rendered = Some dr"
  shows "d_Spec dr = d_Spec rendered"
proof -
  from assms obtain d where own: "ownedDeployment ref_kube i rendered = Inr d"
    and ans: "answer d_Meta merge_Deployment (at d_Meta (cl_Deployments w) (meta_key (d_Meta d))) d = Inr dr"
    by (auto simp: dep_answer_def split: sum.splits)
  from own have "d_Spec d = d_Spec rendered" by (auto simp: ownedDeployment_def Let_def split: sum.splits)
  with answer_spec [OF ans] show ?thesis by simp
qed

subsection \<open>An operator that is left alone\<close>

lemma verdict_restatus: "failure_of ref_kube (view_of w (i\<lparr>is_Status := st\<rparr>)) = failure_of ref_kube (view_of w i)"
proof -
  let ?i = "i\<lparr>is_Status := st\<rparr>"
  have sib: "siblingConflict ref_kube ?i xs = siblingConflict ref_kube i xs" for xs by (rule siblingConflict_cong) simp_all
  have dep: "deploymentConflict ref_kube ?i ds = deploymentConflict ref_kube i ds" for ds by (rule deploymentConflict_cong) simp_all
  have pod: "podConflict ?i ps = podConflict i ps" for ps by (rule podConflict_cong) simp_all
  have meta: "is_Meta ?i = is_Meta i" by simp
  have "guard_message ?i w = guard_message i w" unfolding guard_message_eq Let_def sib dep pod meta ..
  then show ?thesis unfolding verdict_decision by (simp add: decision_def split: sum.split option.split)
qed

text \<open>What a step does to the Deployments under a key.\<close>

lemma refused_Deployments:
  assumes "get_from is_Meta (cl_InferenceServices w) req = Inr i" and "failure_of ref_kube (view_of w i) \<noteq> None"
  shows "at d_Meta (cl_Deployments (op_step a w)) req = at d_Meta (cl_Deployments w) req"
proof -
  obtain c q where a: "a = (c, q)" by fastforce
  show ?thesis
  proof (cases c)
    case InferenceServiceController
    show ?thesis
    proof (cases "pl_Deployment (plan_of q w)")
      case (Some dr)
      then obtain j t m where j: "cleared_at q w j t m" and key: "meta_key (d_Meta dr) = q" by (rule planned_Deployment)
      have "q \<noteq> req"
      proof
        assume "q = req"
        with j assms(1) have "j = i" and "snd (decide req w i) = Inr (t, m)" by (simp_all add: cleared_at_def)
        moreover from this have "specProblem i m = None" "guard_message i w = []"
          by (simp_all add: decide_go guard_message_eq)
        ultimately have "decision (guard_message i w) w i = Inr (t, m)" by (simp add: decide_go decision_def)
        with assms(2) show False by (simp add: verdict_decision)
      qed
      with Some key show ?thesis by (simp add: a InferenceServiceController at_upsert_other)
    qed (simp add: a InferenceServiceController)
  qed (use validated_parts(2) [OF model_validated] validated_parts(2) [OF tenant_validated] in \<open>simp_all add: a\<close>)
qed

lemma same_specs_get:
  assumes "same_specs w w'" and "get_from is_Meta (cl_InferenceServices w') req = Inr i'"
  obtains i where "get_from is_Meta (cl_InferenceServices w) req = Inr i" "i' = i\<lparr>is_Status := is_Status i'\<rparr>"
proof -
  have "\<exists>i. get_from is_Meta xs req = Inr i \<and> i' = i\<lparr>is_Status := is_Status i'\<rparr>"
    if "map (\<lambda>i. (is_Meta i, is_Spec i)) ys = map (\<lambda>i. (is_Meta i, is_Spec i)) xs" "get_from is_Meta ys req = Inr i'"
    for xs ys :: "InferenceService list"
    using that
  proof (induction ys arbitrary: xs)
    case (Cons y ys)
    then obtain x xs' where "xs = x # xs'" by (cases xs) auto
    with Cons show ?case by (auto simp: get_from_def split: if_splits intro!: InferenceService.equality)
  qed (simp add: get_from_def)
  with assms that show thesis unfolding same_specs_def by blast
qed

definition decided :: "cluster \<Rightarrow> cluster \<times> queue \<Rightarrow> bool" where
  "decided w0 s \<longleftrightarrow>
     well_formed (fst s) \<and> claims_held (fst s) \<and> same_specs w0 (fst s) \<and>
     (\<forall>req i. get_from is_Meta (cl_InferenceServices (fst s)) req = Inr i \<longrightarrow>
        ((InferenceServiceController, req) \<in> snd s \<or> matches (guard_message i (fst s)) req (fst s)) \<and>
        (failure_of ref_kube (view_of (fst s) i) \<noteq> None \<longrightarrow>
           at d_Meta (cl_Deployments (fst s)) req = at d_Meta (cl_Deployments w0) req))"

lemma decided_serves:
  assumes H: "owner_handler H" and "decided w0 s" and "serves H r s s'"
  shows "decided w0 s'"
proof -
  obtain w Q where s: "s = (w, Q)" by fastforce
  with assms(3) obtain a w' cs where a: "a \<in> Q" "run (reconcile_of ref_kube (fst a) (snd a)) w = (r, w', cs)"
    and s': "s' = (w', Q - {a} \<union> retried r a \<union> raised H w w')" by (auto elim: servesE)
  then have w': "w' = op_step a w" by (simp add: op_step_def)
  from assms(2) have wf: "well_formed w" and held: "claims_held w" and specs: "same_specs w0 w"
    and IH: "\<And>req i. get_from is_Meta (cl_InferenceServices w) req = Inr i \<Longrightarrow>
      ((InferenceServiceController, req) \<in> Q \<or> matches (guard_message i w) req w) \<and>
      (failure_of ref_kube (view_of w i) \<noteq> None \<longrightarrow> at d_Meta (cl_Deployments w) req = at d_Meta (cl_Deployments w0) req)"
    by (simp_all add: decided_def s)
  have wf': "well_formed w'" and held': "claims_held w'" and step: "same_specs w w'"
    unfolding w' using wf held by (simp_all add: well_formed_op claims_held_step same_specs_op)
  have "((InferenceServiceController, req) \<in> snd s' \<or> matches (guard_message i' w') req w') \<and>
      (failure_of ref_kube (view_of w' i') \<noteq> None \<longrightarrow> at d_Meta (cl_Deployments w') req = at d_Meta (cl_Deployments w0) req)"
    if i': "get_from is_Meta (cl_InferenceServices w') req = Inr i'" for req i'
  proof
    obtain i where i: "get_from is_Meta (cl_InferenceServices w) req = Inr i" "i' = i\<lparr>is_Status := is_Status i'\<rparr>"
      using same_specs_get [OF step i'] by blast
    have verdict: "failure_of ref_kube (view_of w' i') = failure_of ref_kube (view_of w i)"
      using verdict_stays [OF step held held' listed_get [OF i(1)]] i(2) verdict_restatus by metis
    with IH [OF i(1)] refused_Deployments [OF i(1), of a]
    show "failure_of ref_kube (view_of w' i') \<noteq> None \<longrightarrow> at d_Meta (cl_Deployments w') req = at d_Meta (cl_Deployments w0) req"
      unfolding w' by simp
    show "(InferenceServiceController, req) \<in> snd s' \<or> matches (guard_message i' w') req w'"
    proof (cases "(InferenceServiceController, req) = a")
      case True
      with a(2) served_matches_guard [of req w w' cs i', OF _ i'] s' show ?thesis
        by (cases "r = Returned None") (auto simp: retried_def)
    next
      case False
      show ?thesis
      proof (cases "(InferenceServiceController, req) \<in> snd s'")
        case out: False
        with False s' have unqueued: "(InferenceServiceController, req) \<notin> Q" "(InferenceServiceController, req) \<notin> raised H w w'"
          by auto
        have "at is_Meta (cl_InferenceServices w') req = at is_Meta (cl_InferenceServices w) req"
          using wf wf' unraised_service(1) [OF unqueued(2)] by (intro at_untouched) (auto simp: well_formed_def)
        with i(1) i' have "i' = i" by (simp add: get_from_at)
        moreover have "guard_message i w' = guard_message i w"
          by (rule guard_stays [OF step held held' listed_get [OF i(1)]])
        ultimately show ?thesis
          using matches_changed [OF H wf wf' unqueued(2)] IH [OF i(1)] unqueued(1) by simp
      qed simp
    qed
  qed
  with wf' held' same_specs_trans [OF specs step] show ?thesis by (simp add: decided_def s')
qed

lemma undisturbed_decided:
  assumes "owner_handler H" and "well_formed w" and "claims_held w" and "undisturbed H (w, raised H empty_cluster w) s"
  shows "decided w s"
  using assms(4) unfolding undisturbed_def
proof (induction rule: rtranclp_induct)
  case base
  have "(InferenceServiceController, req) \<in> raised H empty_cluster w"
    if "get_from is_Meta (cl_InferenceServices w) req = Inr i" for req i
    using get_from_key [OF that] started_requests [of w H] by (auto simp: requests_def keys_of_def)
  with assms(2,3) show ?case by (simp add: decided_def)
next
  case (step s s')
  with decided_serves [OF assms(1)] show ?case by blast
qed



end
