(* ===== verification/Caches.thy ===== *)
theory Caches
  imports Freshness
begin

text \<open>
  The informers' cache. The manager's client reads objects from a cache that the informers keep, and
  writes to the API server; only Secrets are read from the server, and a status computed from an
  object that has changed since is refused. Here are the reconcilers on such a client: a run
  decides on the objects in the cache and carries the decision out on the server, where it then
  has nothing more to do, or ends in an error.
\<close>

subsection \<open>A client with a cache\<close>

text \<open>The world is the cache and the server.\<close>

definition on_server :: "('w \<Rightarrow> 'a \<times> 'w) \<Rightarrow> 'c \<times> 'w \<Rightarrow> 'a \<times> 'c \<times> 'w" where
  "on_server f v = (case f (snd v) of (r, s) \<Rightarrow> (r, fst v, s))"

definition in_cache :: "('c \<Rightarrow> 'a \<times> 'c) \<Rightarrow> 'c \<times> 'w \<Rightarrow> 'a \<times> 'c \<times> 'w" where
  "in_cache f v = (fst (f (fst v)), v)"

text \<open>
  A status update carries the resource version of the object it was computed from; the server
  refuses it with a conflict when its object has changed since.
\<close>

definition ConflictError :: ApiError where "ConflictError = StatusError ''Conflict'' ''the object has been modified''"

definition versioned ::
    "('a \<Rightarrow> ObjectMeta) \<Rightarrow> (cluster \<Rightarrow> 'a list) \<Rightarrow> NamespacedName \<Rightarrow> (cluster \<Rightarrow> ApiError option \<times> cluster)
      \<Rightarrow> cluster \<times> cluster \<Rightarrow> ApiError option \<times> cluster \<times> cluster" where
  "versioned meta objs key f v =
     (if at meta (objs (fst v)) key = at meta (objs (snd v)) key then on_server f v else (Some ConflictError, v))"

definition cached_kube :: "(cluster \<times> cluster) kube" where
  "cached_kube =
     \<lparr>k_isNotFound = ref_isNotFound,
      k_ignoreNotFound = ref_ignoreNotFound,
      k_timeEqual = (=),
      k_timeBefore = (<),
      k_isControlledBy = ref_isControlledBy,
      k_setControllerReference = ref_setControllerReference,
      k_setStatusCondition = ref_setStatusCondition,
      k_getInferenceService = (\<lambda>key. in_cache (k_getInferenceService ref_kube key)),
      k_getBrukModel = (\<lambda>key. in_cache (k_getBrukModel ref_kube key)),
      k_getBrukTenant = (\<lambda>key. in_cache (k_getBrukTenant ref_kube key)),
      k_getSecret = (\<lambda>key. on_server (k_getSecret ref_kube key)),
      k_listInferenceServices = (\<lambda>ns. in_cache (k_listInferenceServices ref_kube ns)),
      k_listDeployments = (\<lambda>ns. in_cache (k_listDeployments ref_kube ns)),
      k_listPods = (\<lambda>ns. in_cache (k_listPods ref_kube ns)),
      k_applyConfigMap = (\<lambda>cm. on_server (k_applyConfigMap ref_kube cm)),
      k_applyDeployment = (\<lambda>d. on_server (k_applyDeployment ref_kube d)),
      k_applyService = (\<lambda>sv. on_server (k_applyService ref_kube sv)),
      k_updateInferenceServiceStatus = (\<lambda>i. versioned is_Meta cl_InferenceServices (meta_key (is_Meta i)) (k_updateInferenceServiceStatus ref_kube i)),
      k_updateBrukModelStatus = (\<lambda>m. versioned bm_Meta cl_BrukModels (meta_key (bm_Meta m)) (k_updateBrukModelStatus ref_kube m)),
      k_updateBrukTenantStatus = (\<lambda>t. versioned bt_Meta cl_BrukTenants (meta_key (bt_Meta t)) (k_updateBrukTenantStatus ref_kube t))\<rparr>"

text \<open>The library functions are those of the reference server, so are the program's on top of them.\<close>

lemma cached_sels [simp]:
  "k_isNotFound cached_kube = ref_isNotFound" "k_ignoreNotFound cached_kube = ref_ignoreNotFound"
  "k_timeEqual cached_kube = (=)" "k_timeBefore cached_kube = (<)"
  "k_isControlledBy cached_kube = ref_isControlledBy" "k_setControllerReference cached_kube = ref_setControllerReference"
  "k_setStatusCondition cached_kube = ref_setStatusCondition"
  by (simp_all add: cached_kube_def)

lemma cached_answers [simp]:
  "k_getInferenceService cached_kube key v = (get_from is_Meta (cl_InferenceServices (fst v)) key, v)"
  "k_getBrukModel cached_kube key v = (get_from bm_Meta (cl_BrukModels (fst v)) key, v)"
  "k_getBrukTenant cached_kube key v = (get_from bt_Meta (cl_BrukTenants (fst v)) key, v)"
  "k_listInferenceServices cached_kube ns v = (Inr (list_from is_Meta (cl_InferenceServices (fst v)) ns), v)"
  "k_listDeployments cached_kube ns v = (Inr (list_from d_Meta (cl_Deployments (fst v)) ns), v)"
  "k_listPods cached_kube ns v = (Inr (list_from pod_Meta (cl_Pods (fst v)) ns), v)"
  by (simp_all add: cached_kube_def in_cache_def)

lemma cached_pure [simp]:
  "precedes cached_kube = precedes ref_kube"
  "deploymentConflict cached_kube i ds = deploymentConflict ref_kube i ds"
  "siblingConflict cached_kube i sibs = siblingConflict ref_kube i sibs"
  "setCondition cached_kube = setCondition ref_kube"
  "failedService cached_kube = failedService ref_kube"
  "readyService cached_kube = readyService ref_kube"
  "ownedDeployment cached_kube = ownedDeployment ref_kube"
  "ownedService cached_kube = ownedService ref_kube"
proof -
  show prec: "precedes cached_kube = precedes ref_kube" by (simp add: precedes_def fun_eq_iff)
  show "deploymentConflict cached_kube i ds = deploymentConflict ref_kube i ds" by (induction ds) simp_all
  show "siblingConflict cached_kube i sibs = siblingConflict ref_kube i sibs" by (induction sibs) (simp_all add: prec)
  show cond: "setCondition cached_kube = setCondition ref_kube" by (simp add: setCondition_def fun_eq_iff)
  show "failedService cached_kube = failedService ref_kube" by (simp add: failedService_def fun_eq_iff cond)
  show "readyService cached_kube = readyService ref_kube" by (intro ext) (simp only: readyService_def cond)
  show "ownedDeployment cached_kube = ownedDeployment ref_kube" by (simp add: ownedDeployment_def fun_eq_iff)
  show "ownedService cached_kube = ownedService ref_kube" by (simp add: ownedService_def fun_eq_iff)
qed

subsection \<open>A run: decided in the cache, carried out on the server\<close>

definition beside :: "'c \<Rightarrow> 'w sys \<Rightarrow> ('c \<times> 'w) sys" where
  "beside c s = \<lparr>world = (c, world s), calls = calls s\<rparr>"

definition lifted :: "(('c \<times> 'w) sys, 'a) state \<Rightarrow> ('w sys, 'a) state \<Rightarrow> bool" where
  "lifted m n \<longleftrightarrow> (\<forall>c s. run_state m (beside c s) = (case run_state n s of (r, s') \<Rightarrow> (r, beside c s')))"

lemma lifted_return [simp]: "lifted (State_Monad.return x) (State_Monad.return x)"
  by (simp add: lifted_def)

lemma lifted_bind:
  assumes "lifted m n" and "\<And>r. lifted (f r) (g r)"
  shows "lifted (State_Monad.bind m f) (State_Monad.bind n g)"
  unfolding lifted_def
proof (intro allI)
  fix c s
  obtain r s' where n: "run_state n s = (r, s')" by fastforce
  with assms(1) have "run_state m (beside c s) = (r, beside c s')" by (simp add: lifted_def)
  with n assms(2) [of r] show "run_state (State_Monad.bind m f) (beside c s) =
      (case run_state (State_Monad.bind n g) s of (r, s') \<Rightarrow> (r, beside c s'))"
    by (simp add: lifted_def)
qed

lemma lifted_invoke: "lifted (invoke k (on_server f)) (invoke k f)"
  by (auto simp: lifted_def run_state_invoke on_server_def beside_def split: prod.split)

lemma lifted_writes [simp]:
  "lifted (applyConfigMap cached_kube cm) (applyConfigMap ref_kube cm)"
  "lifted (applyDeployment cached_kube d) (applyDeployment ref_kube d)"
  "lifted (applyService cached_kube sv) (applyService ref_kube sv)"
  by (simp_all add: client_call_defs cached_kube_def lifted_invoke)

text \<open>
  A run that writes to the server and then updates the status: what the same run would do without
  the cache, unless the service has changed since; then all but the status, and an error.
\<close>

definition fresh :: "NamespacedName \<Rightarrow> cluster \<Rightarrow> cluster \<Rightarrow> bool" where
  "fresh req c s \<longleftrightarrow> at is_Meta (cl_InferenceServices c) req = at is_Meta (cl_InferenceServices s) req"

definition carries :: "NamespacedName \<Rightarrow> ((cluster \<times> cluster) sys, reconcile_outcome) state
    \<Rightarrow> (cluster sys, reconcile_outcome) state \<Rightarrow> bool" where
  "carries req m n \<longleftrightarrow> (\<forall>c s r s'. run_state n s = (r, s') \<longrightarrow>
     (if fresh req c (world s) then run_state m (beside c s) = (r, beside c s')
      else \<exists>e s1. run_state m (beside c s) = (Returned (Some e), beside c s1) \<and>
        world s1 = (world s')\<lparr>cl_InferenceServices := cl_InferenceServices (world s)\<rparr>))"

lemma carriesD:
  assumes "carries req m n" and "run_state n s = (r, s')"
  shows "if fresh req c (world s) then run_state m (beside c s) = (r, beside c s')
      else \<exists>e s1. run_state m (beside c s) = (Returned (Some e), beside c s1) \<and>
        world s1 = (world s')\<lparr>cl_InferenceServices := cl_InferenceServices (world s)\<rparr>"
  using assms unfolding carries_def by blast

definition steady :: "(cluster sys, 'a) state \<Rightarrow> bool" where
  "steady n \<longleftrightarrow> (\<forall>s. cl_InferenceServices (world (snd (run_state n s))) = cl_InferenceServices (world s))"

lemma steady_return [simp]: "steady (State_Monad.return x)"
  by (simp add: steady_def)

lemma steady_bind: "steady m \<Longrightarrow> (\<And>r. steady (f r)) \<Longrightarrow> steady (State_Monad.bind m f)"
  unfolding steady_def by (auto split: prod.splits) (metis prod.sel(2))

lemma steady_writes [simp]:
  "steady (applyConfigMap ref_kube cm)" "steady (applyDeployment ref_kube d)" "steady (applyService ref_kube sv)"
  by (auto simp: steady_def client_call_defs run_state_invoke ref_kube_def split: sum.split prod.split)

lemma carries_error [simp]: "carries req (State_Monad.return (Returned (Some e))) (State_Monad.return (Returned (Some e)))"
  by (auto simp: carries_def)

lemma carries_bind:
  assumes "lifted m n" and "steady n" and "\<And>r. carries req (f r) (g r)"
  shows "carries req (State_Monad.bind m f) (State_Monad.bind n g)"
  unfolding carries_def
proof (intro allI impI)
  fix c s r s' assume run: "run_state (State_Monad.bind n g) s = (r, s')"
  obtain r1 s1 where n: "run_state n s = (r1, s1)" by fastforce
  with run have g: "run_state (g r1) s1 = (r, s')" by simp
  from assms(1) n have "run_state m (beside c s) = (r1, beside c s1)" by (simp add: lifted_def)
  moreover have same: "cl_InferenceServices (world s1) = cl_InferenceServices (world s)"
    using assms(2) n unfolding steady_def by (metis snd_conv)
  then have "fresh req c (world s1) = fresh req c (world s)" by (simp add: fresh_def)
  ultimately show "if fresh req c (world s) then run_state (State_Monad.bind m f) (beside c s) = (r, beside c s')
      else \<exists>e s1. run_state (State_Monad.bind m f) (beside c s) = (Returned (Some e), beside c s1) \<and>
        world s1 = (world s')\<lparr>cl_InferenceServices := cl_InferenceServices (world s)\<rparr>"
    using carriesD [OF assms(3) g, of c] same by (auto split: if_splits)
qed

lemma carries_update:
  assumes "meta_key (is_Meta i) = req"
  shows "carries req
    (do { err \<leftarrow> updateInferenceServiceStatus cached_kube i; State_Monad.return (Returned (map_option Api err)) })
    (do { err \<leftarrow> updateInferenceServiceStatus ref_kube i; State_Monad.return (Returned (map_option Api err)) })"
  unfolding carries_def
proof (intro allI impI)
  fix c s r s'
  let ?m = "do { err \<leftarrow> updateInferenceServiceStatus cached_kube i; State_Monad.return (Returned (map_option Api err)) }"
  let ?n = "do { err \<leftarrow> updateInferenceServiceStatus ref_kube i; State_Monad.return (Returned (map_option Api err)) }"
  assume run: "run_state ?n s = (r, s')"
  note defs = client_call_defs go_simps beside_def
  show "if fresh req c (world s) then run_state ?m (beside c s) = (r, beside c s')
      else \<exists>e s1. run_state ?m (beside c s) = (Returned (Some e), beside c s1) \<and>
        world s1 = (world s')\<lparr>cl_InferenceServices := cl_InferenceServices (world s)\<rparr>"
  proof (cases "fresh req c (world s)")
    case True
    with run assms show ?thesis
      by (auto simp: defs cached_kube_def versioned_def fresh_def on_server_def split: prod.splits)
  next
    case False
    have "(world s')\<lparr>cl_InferenceServices := cl_InferenceServices (world s)\<rparr> = world s"
      using run by (auto simp: defs ref_kube_def split: prod.splits)
    moreover have "run_state ?m (beside c s) = (Returned (Some (Api ConflictError)),
        beside c (s\<lparr>calls := calls s @ [UpdateInferenceServiceStatus i]\<rparr>))"
      using False assms by (simp add: defs cached_kube_def versioned_def fresh_def)
    ultimately show ?thesis using False by auto
  qed
qed

lemma carries_fail:
  "meta_key (is_Meta i) = req \<Longrightarrow> carries req (failConfigured cached_kube i reason msg) (failConfigured ref_kube i reason msg)"
  unfolding failConfigured_def cached_pure by (rule carries_update) simp

lemma carries_apply:
  assumes "meta_key (is_Meta i) = req"
  shows "carries req (reconcileApply cached_kube i m cfg) (reconcileApply ref_kube i m cfg)"
proof -
  have gai: "lifted (applyGaiConfigMap cached_kube i) (applyGaiConfigMap ref_kube i)" "steady (applyGaiConfigMap ref_kube i)"
    unfolding applyGaiConfigMap_def by (auto intro!: lifted_bind steady_bind)
  have dep: "lifted (applyOwnedDeployment cached_kube i rd) (applyOwnedDeployment ref_kube i rd)"
    "steady (applyOwnedDeployment ref_kube i rd)" for rd
    unfolding applyOwnedDeployment_def by (auto intro!: lifted_bind steady_bind split: sum.split)
  have svc: "lifted (applyOwnedService cached_kube i) (applyOwnedService ref_kube i)" "steady (applyOwnedService ref_kube i)"
    unfolding applyOwnedService_def by (auto intro!: lifted_bind steady_bind split: sum.split)
  have update: "carries req (updateReadyStatus cached_kube i m d cfg) (updateReadyStatus ref_kube i m d cfg)" for d
    unfolding updateReadyStatus_def cached_pure by (rule carries_update) (simp add: assms)
  have rest: "carries req (applyServiceAndStatus cached_kube i m cfg d) (applyServiceAndStatus ref_kube i m cfg d)" for d
    unfolding applyServiceAndStatus_def by (intro carries_bind svc) (auto intro: update split: option.split)
  obtain rd where rd: "renderDeployment i m cfg = Some rd" using renderDeployment_not_None by blast
  show ?thesis
    unfolding reconcileApply_def rd option.case
    by (intro carries_bind gai)
      (auto intro!: carries_bind dep rest carries_fail [OF assms] split: option.split sum.split)
qed

lemma carries_out:
  "meta_key (is_Meta i) = req \<Longrightarrow> carries req (case d of Inl p \<Rightarrow> failConfigured cached_kube i (fst p) (snd p)
    | Inr (t, m) \<Rightarrow> reconcileApply cached_kube i m (tenantConfig t)) (carry_out d i)"
  by (cases d) (auto simp: carry_out_def carries_fail carries_apply)

lemma cached_decides:
  assumes "get_from is_Meta (cl_InferenceServices c) req = Inr i"
  shows "run_state (ReconcileISVC cached_kube req) (beside c s) =
    run_state (case snd (decide req c i) of Inl p \<Rightarrow> failConfigured cached_kube i (fst p) (snd p)
        | Inr (t, m) \<Rightarrow> reconcileApply cached_kube i m (tenantConfig t))
      (beside c (s\<lparr>calls := calls s @ fst (decide req c i)\<rparr>))"
proof -
  note defs = decide_def object_calls_def guard_calls_def ReconcileISVC_def reconcileTenantConfig_def
    reconcileModel_def reconcileChecked_def trustedStoreConflict_def deploymentGuard_def podGuard_def
    client_call_defs go_simps Let_def assms beside_def
  show ?thesis
  proof (cases "get_from bt_Meta (cl_BrukTenants c) tenantKey")
    case (Inl e)
    with get_from_error [OF Inl] show ?thesis by (simp add: defs)
  next
    case t: (Inr t)
    show ?thesis
    proof (cases "get_from bm_Meta (cl_BrukModels c) (modelKey i)")
      case (Inl e)
      with t get_from_error [OF Inl] show ?thesis by (simp add: defs)
    next
      case (Inr m)
      with t siblingConflict_nonempty [of ref_kube i] deploymentConflict_nonempty [of ref_kube i]
        podConflict_nonempty [of i] show ?thesis
        by (auto simp: defs split: option.split)
    qed
  qed
qed

text \<open>What a run writes to the server, decided on the objects in the cache.\<close>

definition carried :: "NamespacedName \<Rightarrow> (string \<times> string) + (BrukTenant \<times> BrukModel) \<Rightarrow> InferenceService \<Rightarrow> cluster \<Rightarrow> plan" where
  "carried req d i s =
     (case d of Inl p \<Rightarrow> refusal i (fst p) (snd p) | Inr p \<Rightarrow> apply_plan s i (snd p) (tenantConfig (fst p)))"

lemma carry_world:
  assumes "meta_key (is_Meta i) = req"
  shows "world (snd (run_state (carry_out d i) s)) = commit req (carried req d i (world s)) (world s)"
proof (cases d)
  case (Inl p)
  obtain reason msg where p: "p = (reason, msg)" by fastforce
  from assms status_world [of "failedService ref_kube reason msg i" req s] show ?thesis
    by (simp add: Inl p carry_out_def carried_def refusal_def failConfigured_def commit_def no_plan_def failedService_status)
next
  case (Inr p)
  obtain t m where p: "p = (t, m)" by fastforce
  from apply_world [OF assms, of m "tenantConfig t" s] show ?thesis by (simp add: Inr p carry_out_def carried_def)
qed

lemma carry_nil:
  assumes "fst (run_state (carry_out d i) s) = Returned None"
  shows "pl_Status (carried req d i (world s)) \<noteq> None"
proof (cases d)
  case (Inl p)
  then show ?thesis by (simp add: carried_def refusal_def)
next
  case (Inr p)
  obtain t m where p: "p = (t, m)" by fastforce
  from assms have "fst (run_state (reconcileApply ref_kube i m (tenantConfig t)) s) = Returned None"
    by (simp add: Inr p carry_out_def)
  from nil_apply [OF this] show ?thesis by (simp add: Inr p carried_def)
qed

lemma cached_carry:
  assumes "run (ReconcileISVC cached_kube req) (c, s) = (r, v, cs)"
    and i: "get_from is_Meta (cl_InferenceServices c) req = Inr i"
  obtains s0 r1 s1 where "s0 = \<lparr>world = s, calls = fst (decide req c i)\<rparr>"
    "run_state (carry_out (decision (guard_message i c) c i) i) s0 = (r1, s1)"
    "if fresh req c s then r = r1 \<and> v = (c, world s1)
     else r \<noteq> Returned None \<and> v = (c, (world s1)\<lparr>cl_InferenceServices := cl_InferenceServices s\<rparr>)"
proof -
  let ?s = "\<lparr>world = s, calls = []\<rparr>" and ?d = "decision (guard_message i c) c i"
  let ?s' = "?s\<lparr>calls := calls ?s @ fst (decide req c i)\<rparr>"
  have key: "meta_key (is_Meta i) = req" using get_from_key [OF i] by simp
  obtain r1 s1 where s1: "run_state (carry_out ?d i) ?s' = (r1, s1)" by fastforce
  let ?m = "case ?d of Inl p \<Rightarrow> failConfigured cached_kube i (fst p) (snd p)
    | Inr (t, m) \<Rightarrow> reconcileApply cached_kube i m (tenantConfig t)"
  have start: "\<lparr>world = (c, s), calls = []\<rparr> = beside c ?s" by (simp add: beside_def)
  have run: "run_state (ReconcileISVC cached_kube req) (beside c ?s) = run_state ?m (beside c ?s')"
    using cached_decides [OF i, of ?s] unfolding decide_decision by simp
  from carriesD [OF carries_out [OF key, of ?d] s1, of c]
  have "if fresh req c s then run_state ?m (beside c ?s') = (r1, beside c s1)
      else \<exists>e s2. run_state ?m (beside c ?s') = (Returned (Some e), beside c s2) \<and>
        world s2 = (world s1)\<lparr>cl_InferenceServices := cl_InferenceServices s\<rparr>"
    by (auto split: if_splits)
  with assms(1) have "if fresh req c s then r = r1 \<and> v = (c, world s1)
     else r \<noteq> Returned None \<and> v = (c, (world s1)\<lparr>cl_InferenceServices := cl_InferenceServices s\<rparr>)"
    unfolding run_def start run by (auto simp: beside_def split: if_splits)
  from that [OF _ s1 this] show thesis by simp
qed

text \<open>The writes of a run: without the status, if the service has changed on the server.\<close>

definition accepted :: "bool \<Rightarrow> plan \<Rightarrow> plan" where
  "accepted ok p = (if ok then p else p\<lparr>pl_Status := None\<rparr>)"

lemma cached_run:
  assumes "run (ReconcileISVC cached_kube req) (c, s) = (r, v, cs)"
  shows "fst v = c"
    and "get_from is_Meta (cl_InferenceServices c) req = Inl e \<Longrightarrow> snd v = s"
    and "get_from is_Meta (cl_InferenceServices c) req = Inr i \<Longrightarrow>
      snd v = commit req (accepted (fresh req c s) (carried req (decision (guard_message i c) c i) i s)) s"
    and "get_from is_Meta (cl_InferenceServices c) req = Inr i \<Longrightarrow> r = Returned None \<Longrightarrow>
      fresh req c s \<and> pl_Status (carried req (decision (guard_message i c) c i) i s) \<noteq> None"
proof -
  have absent: "v = (c, s)" if "get_from is_Meta (cl_InferenceServices c) req = Inl e" for e
    using assms that get_from_error [OF that] by (simp add: run_def ReconcileISVC_def client_call_defs go_simps)
  have ended: "v = (c, commit req (accepted (fresh req c s) (carried req (decision (guard_message j c) c j) j s)) s) \<and>
      (r = Returned None \<longrightarrow> fresh req c s \<and> pl_Status (carried req (decision (guard_message j c) c j) j s) \<noteq> None)"
    if j: "get_from is_Meta (cl_InferenceServices c) req = Inr j" for j
  proof -
    let ?d = "decision (guard_message j c) c j"
    from assms j obtain s0 r1 s1 where s0: "s0 = \<lparr>world = s, calls = fst (decide req c j)\<rparr>"
      "run_state (carry_out ?d j) s0 = (r1, s1)"
      and v: "if fresh req c s then r = r1 \<and> v = (c, world s1)
        else r \<noteq> Returned None \<and> v = (c, (world s1)\<lparr>cl_InferenceServices := cl_InferenceServices s\<rparr>)"
      by (rule cached_carry)
    have key: "meta_key (is_Meta j) = req" using get_from_key [OF j] by simp
    from s0(1) have "world s0 = s" by simp
    with s0(2) carry_world [OF key, of ?d s0] carry_nil [of ?d j s0 req]
    have "world s1 = commit req (carried req ?d j s) s" "r1 = Returned None \<Longrightarrow> pl_Status (carried req ?d j s) \<noteq> None"
      by simp_all
    with v show ?thesis by (auto simp: accepted_def commit_def split: if_splits)
  qed
  show "fst v = c" using absent ended by (cases "get_from is_Meta (cl_InferenceServices c) req") auto
  show "snd v = s" if "get_from is_Meta (cl_InferenceServices c) req = Inl e" using absent [OF that] by simp
  show "snd v = commit req (accepted (fresh req c s) (carried req (decision (guard_message i c) c i) i s)) s"
    if "get_from is_Meta (cl_InferenceServices c) req = Inr i" using ended [OF that] by simp
  show "fresh req c s \<and> pl_Status (carried req (decision (guard_message i c) c i) i s) \<noteq> None"
    if "get_from is_Meta (cl_InferenceServices c) req = Inr i" "r = Returned None" using ended [OF that(1)] that(2) by simp
qed

text \<open>With a cache that is up to date, a run is the one on the server.\<close>

lemma cached_same:
  assumes "run (ReconcileISVC ref_kube req) w = (r, w', cs)"
  obtains cs' where "run (ReconcileISVC cached_kube req) (w, w) = (r, (w, w'), cs')"
proof -
  obtain r1 v cs' where run: "run (ReconcileISVC cached_kube req) (w, w) = (r1, v, cs')" by (metis prod.collapse)
  have "r1 = r \<and> v = (w, w')"
  proof (cases "get_from is_Meta (cl_InferenceServices w) req")
    case (Inl e)
    with assms run get_from_error [OF Inl] show ?thesis by (auto simp: run_def ReconcileISVC_def client_call_defs go_simps)
  next
    case (Inr i)
    from run Inr obtain s0 r2 s1 where "s0 = \<lparr>world = w, calls = fst (decide req w i)\<rparr>"
      "run_state (carry_out (decision (guard_message i w) w i) i) s0 = (r2, s1)"
      "if fresh req w w then r1 = r2 \<and> v = (w, world s1)
       else r1 \<noteq> Returned None \<and> v = (w, (world s1)\<lparr>cl_InferenceServices := cl_InferenceServices w\<rparr>)"
      by (rule cached_carry)
    moreover have "fresh req w w" by (simp add: fresh_def)
    ultimately show ?thesis using assms run_decides [of "\<lparr>world = w, calls = []\<rparr>" req i] Inr
      by (simp add: run_def decide_decision)
  qed
  with run that show thesis by simp
qed

subsection \<open>The validators on this client\<close>

lemma cached_setReadyModel [simp]: "setReadyModel cached_kube = setReadyModel ref_kube"
  by (simp add: setReadyModel_def fun_eq_iff)

lemma cached_reconciledTenant [simp]: "reconciledTenant cached_kube = reconciledTenant ref_kube"
  by (simp add: reconciledTenant_def fun_eq_iff)

text \<open>A run is the one on the server, or it changes nothing and returns nil only if the object is not in the cache.\<close>

lemma cached_model:
  assumes "run (ReconcileModel cached_kube req) (c, s) = (r, v, cs)"
  shows "v = (c, if at bm_Meta (cl_BrukModels c) req = at bm_Meta (cl_BrukModels s) req
      then op_step (BrukModelController, req) s else s)"
    and "at bm_Meta (cl_BrukModels c) req = at bm_Meta (cl_BrukModels s) req \<Longrightarrow>
      fst (run (ReconcileModel ref_kube req) s) = r"
proof -
  note defs = run_def ReconcileModel_def setReady_def client_call_defs go_simps Let_def op_step_def
  have upd: "k_updateBrukModelStatus cached_kube m (c, s) =
      (if at bm_Meta (cl_BrukModels c) (meta_key (bm_Meta m)) = at bm_Meta (cl_BrukModels s) (meta_key (bm_Meta m))
       then (let u = k_updateBrukModelStatus ref_kube m s in (fst u, c, snd u)) else (Some ConflictError, c, s))" for m
    by (simp add: cached_kube_def versioned_def on_server_def Let_def split: prod.split)
  have sec: "k_getSecret cached_kube k (c, s) = (fst (k_getSecret ref_kube k s), c, s)" for k
    by (simp add: cached_kube_def on_server_def ref_kube_def)
  have key: "meta_key (bm_Meta (setReadyModel ref_kube m st reason msg)) = meta_key (bm_Meta m)" for m st reason msg
    by (simp add: setReadyModel_def)
  have "v = (c, if at bm_Meta (cl_BrukModels c) req = at bm_Meta (cl_BrukModels s) req
      then op_step (BrukModelController, req) s else s) \<and>
    (at bm_Meta (cl_BrukModels c) req = at bm_Meta (cl_BrukModels s) req \<longrightarrow>
      fst (run (ReconcileModel ref_kube req) s) = r)"
  proof (cases "get_from bm_Meta (cl_BrukModels c) req")
    case (Inl e)
    then have "get_from bm_Meta (cl_BrukModels s) req = Inl e"
      if "at bm_Meta (cl_BrukModels c) req = at bm_Meta (cl_BrukModels s) req" using that by (simp add: get_from_at)
    with Inl assms show ?thesis by (auto simp: defs)
  next
    case (Inr m)
    have m: "meta_key (bm_Meta m) = req" using get_from_key [OF Inr] by simp
    from Inr have "get_from bm_Meta (cl_BrukModels s) req = Inr m"
      if "at bm_Meta (cl_BrukModels c) req = at bm_Meta (cl_BrukModels s) req" using that by (simp add: get_from_at)
    with Inr assms m show ?thesis
      by (auto simp: defs upd sec key split: option.splits sum.splits prod.splits if_splits)
  qed
  then show "v = (c, if at bm_Meta (cl_BrukModels c) req = at bm_Meta (cl_BrukModels s) req
      then op_step (BrukModelController, req) s else s)"
    and "at bm_Meta (cl_BrukModels c) req = at bm_Meta (cl_BrukModels s) req \<Longrightarrow>
      fst (run (ReconcileModel ref_kube req) s) = r" by simp_all
qed

lemma cached_tenant:
  assumes "run (ReconcileTenant cached_kube req) (c, s) = (r, v, cs)"
  shows "v = (c, if at bt_Meta (cl_BrukTenants c) req = at bt_Meta (cl_BrukTenants s) req
      then op_step (BrukTenantController, req) s else s)"
    and "at bt_Meta (cl_BrukTenants c) req = at bt_Meta (cl_BrukTenants s) req \<Longrightarrow>
      fst (run (ReconcileTenant ref_kube req) s) = r"
proof -
  note defs = run_def ReconcileTenant_def client_call_defs go_simps Let_def op_step_def
  have upd: "k_updateBrukTenantStatus cached_kube t (c, s) =
      (if at bt_Meta (cl_BrukTenants c) (meta_key (bt_Meta t)) = at bt_Meta (cl_BrukTenants s) (meta_key (bt_Meta t))
       then (let u = k_updateBrukTenantStatus ref_kube t s in (fst u, c, snd u)) else (Some ConflictError, c, s))" for t
    by (simp add: cached_kube_def versioned_def on_server_def Let_def split: prod.split)
  have key: "meta_key (bt_Meta (reconciledTenant ref_kube t)) = meta_key (bt_Meta t)" for t
    by (simp add: reconciledTenant_def)
  have "v = (c, if at bt_Meta (cl_BrukTenants c) req = at bt_Meta (cl_BrukTenants s) req
      then op_step (BrukTenantController, req) s else s) \<and>
    (at bt_Meta (cl_BrukTenants c) req = at bt_Meta (cl_BrukTenants s) req \<longrightarrow>
      fst (run (ReconcileTenant ref_kube req) s) = r)"
  proof (cases "get_from bt_Meta (cl_BrukTenants c) req")
    case (Inl e)
    then have "get_from bt_Meta (cl_BrukTenants s) req = Inl e"
      if "at bt_Meta (cl_BrukTenants c) req = at bt_Meta (cl_BrukTenants s) req" using that by (simp add: get_from_at)
    with Inl assms show ?thesis by (auto simp: defs)
  next
    case (Inr t)
    have t: "meta_key (bt_Meta t) = req" using get_from_key [OF Inr] by simp
    from Inr have "get_from bt_Meta (cl_BrukTenants s) req = Inr t"
      if "at bt_Meta (cl_BrukTenants c) req = at bt_Meta (cl_BrukTenants s) req" using that by (simp add: get_from_at)
    with Inr assms t show ?thesis by (auto simp: defs upd key split: prod.splits if_splits)
  qed
  then show "v = (c, if at bt_Meta (cl_BrukTenants c) req = at bt_Meta (cl_BrukTenants s) req
      then op_step (BrukTenantController, req) s else s)"
    and "at bt_Meta (cl_BrukTenants c) req = at bt_Meta (cl_BrukTenants s) req \<Longrightarrow>
      fst (run (ReconcileTenant ref_kube req) s) = r" by simp_all
qed

subsection \<open>What a run leaves on the server\<close>

lemma well_formed_commit:
  assumes "well_formed w" and "\<And>c. pl_ConfigMap p = Some c \<Longrightarrow> one_controller_at_most (cm_Meta c)"
  shows "well_formed (commit req p w)"
proof -
  have "list_all (\<lambda>c. one_controller_at_most (cm_Meta c)) (cl_ConfigMaps (commit req p w))"
    using assms set_upsert by (cases "pl_ConfigMap p") (fastforce simp: well_formed_def list_all_iff commit_def)+
  moreover have "unique_keys d_Meta (cl_Deployments (commit req p w))"
    using assms(1) by (cases "pl_Deployment p") (simp_all add: well_formed_def unique_upsert commit_def)
  moreover have "unique_keys svc_Meta (cl_Services (commit req p w))"
    using assms(1) by (cases "pl_Service p") (simp_all add: well_formed_def unique_upsert commit_def)
  moreover have "unique_keys is_Meta (cl_InferenceServices (commit req p w))"
    using assms(1) by (cases "pl_Status p") (simp_all add: well_formed_def restated_at_def unique_put commit_def)
  ultimately show ?thesis using assms(1) by (simp add: well_formed_def commit_def)
qed

lemma applied_ConfigMap:
  assumes "pl_ConfigMap (apply_plan w i m cfg) = Some c"
  shows "one_controller_at_most (cm_Meta c)"
proof -
  from assms have "gai_answer w i = Inr (Some c)"
    by (auto simp: apply_plan_def no_plan_def split: sum.splits option.splits)
  then have "map_sum id Some (answer cm_Meta merge_ConfigMap (at cm_Meta (cl_ConfigMaps w) (meta_key (cm_Meta (gaiObject i)))) (gaiObject i))
      = Inr (Some c)"
    by (simp add: gai_answer_def split: if_splits)
  then have "answer cm_Meta merge_ConfigMap (at cm_Meta (cl_ConfigMaps w) (meta_key (cm_Meta (gaiObject i)))) (gaiObject i) = Inr c"
    by (cases "answer cm_Meta merge_ConfigMap (at cm_Meta (cl_ConfigMaps w) (meta_key (cm_Meta (gaiObject i)))) (gaiObject i)") simp_all
  then show ?thesis by (rule answer_one)
qed

lemma carried_ConfigMap: "pl_ConfigMap (carried req d i w) = Some c \<Longrightarrow> one_controller_at_most (cm_Meta c)"
  by (auto simp: carried_def refusal_def no_plan_def split: sum.splits dest: applied_ConfigMap)

text \<open>Where a plan has been carried out, it has nothing more to do.\<close>

lemma upsert_again: "upsert meta (upsert meta xs x) x = upsert meta xs x"
  unfolding upsert_id at_upsert_same by simp

lemma written_again:
  "written meta (written meta xs q) q = written meta xs q"
  "restated_at req (restated_at req js p) p = restated_at req js p"
  by (cases q, simp_all add: upsert_again) (cases p, simp_all add: restated_at_def put_to_idem)

lemma dep_again:
  assumes "dep_answer w i rendered = Some dr" and "cl_Deployments w' = upsert d_Meta (cl_Deployments w) dr"
  shows "dep_answer w' i rendered = Some dr"
proof -
  from assms(1) obtain d where own: "ownedDeployment ref_kube i rendered = Inr d"
    and ans: "answer d_Meta merge_Deployment (at d_Meta (cl_Deployments w) (meta_key (d_Meta d))) d = Inr dr"
    by (auto simp: dep_answer_def split: sum.splits)
  have "answer d_Meta merge_Deployment (at d_Meta (upsert d_Meta (cl_Deployments w) dr) (meta_key (d_Meta d))) d = Inr dr"
    by (rule answer_again [OF ans]) (simp_all add: merge_Deployment_def merge_meta_idem)
  with own show ?thesis by (simp add: dep_answer_def assms(2))
qed

lemma svc_again:
  assumes "svc_answer w i = Some sr" and "cl_Services w' = upsert svc_Meta (cl_Services w) sr"
  shows "svc_answer w' i = Some sr"
proof -
  from assms(1) obtain sv where own: "ownedService ref_kube i = Inr sv"
    and ans: "answer svc_Meta merge_Service (at svc_Meta (cl_Services w) (meta_key (svc_Meta sv))) sv = Inr sr"
    by (auto simp: svc_answer_def split: sum.splits)
  have "answer svc_Meta merge_Service (at svc_Meta (upsert svc_Meta (cl_Services w) sr) (meta_key (svc_Meta sv))) sv = Inr sr"
    by (rule answer_again [OF ans]) (simp_all add: merge_Service_def merge_meta_idem)
  with own show ?thesis by (simp add: svc_answer_def assms(2))
qed

lemma apply_plan_again:
  assumes "pl_Status (apply_plan w i m cfg) = Some st" and "well_formed w"
    and w': "w' = commit req (apply_plan w i m cfg) w"
  obtains cm where "apply_plan w' (i\<lparr>is_Status := st\<rparr>) m cfg = (apply_plan w i m cfg)\<lparr>pl_ConfigMap := cm\<rparr>"
proof -
  let ?i = "i\<lparr>is_Status := st\<rparr>"
  have "well_formed w'" unfolding w' by (intro well_formed_commit [OF assms(2)]) (rule applied_ConfigMap)
  then obtain cm' where cm': "gai_answer w' ?i = Inr cm'"
    using gai_accepted [of w' ?i] by (auto simp: well_formed_def)
  from assms(1) obtain cm where cm: "gai_answer w i = Inr cm" by (auto simp: apply_plan_def no_plan_def split: sum.splits)
  obtain rd where rd: "renderDeployment i m cfg = Some rd" using renderDeployment_not_None by blast
  show thesis
  proof (cases rd)
    case (Inl err)
    with assms(1) cm rd have st: "st = is_Status (failedService ref_kube ReasonInvalidConfig (error_text err) i)"
      by (simp add: apply_plan_def)
    then have i: "?i = failedService ref_kube ReasonInvalidConfig (error_text err) i" by (simp add: restated)
    have "is_Status (failedService ref_kube ReasonInvalidConfig (error_text err) ?i) = st"
      unfolding i failedService_again by (rule st [symmetric])
    with cm cm' rd Inl st show thesis by (intro that [of cm']) (simp add: apply_plan_def no_plan_def)
  next
    case (Inr rendered)
    from assms(1) cm rd Inr obtain dr sr where a: "dep_answer w i rendered = Some dr" "svc_answer w i = Some sr"
      by (auto simp: apply_plan_def no_plan_def split: option.splits)
    with assms(1) cm rd Inr have st: "st = is_Status (readyService ref_kube i m dr cfg)" by (simp add: apply_plan_def)
    then have i: "?i = readyService ref_kube i m dr cfg" by (simp add: restated)
    have again: "is_Status (readyService ref_kube ?i m dr cfg) = st"
      unfolding i readyService_again by (rule st [symmetric])
    have "cl_Deployments w' = upsert d_Meta (cl_Deployments w) dr" "cl_Services w' = upsert svc_Meta (cl_Services w) sr"
      using a cm rd Inr by (simp_all add: w' commit_def apply_plan_def)
    with dep_again [OF a(1)] svc_again [OF a(2)] have "dep_answer w' i rendered = Some dr" "svc_answer w' i = Some sr" by simp_all
    then have "dep_answer w' ?i rendered = Some dr" "svc_answer w' ?i = Some sr"
      by (simp_all add: dep_answer_def svc_answer_def)
    with cm cm' rd Inr a st again show thesis by (intro that [of cm']) (simp add: apply_plan_def)
  qed
qed

lemma commit_matches:
  assumes "get_from is_Meta (cl_InferenceServices w) req = Inr i" and "well_formed w"
    and "pl_Status (plan_under conflict req w) \<noteq> None"
  shows "matches conflict req (commit req (plan_under conflict req w) w)"
proof -
  let ?p = "plan_under conflict req w"
  let ?w = "commit req ?p w"
  from assms(3) obtain st where st: "pl_Status ?p = Some st" by blast
  let ?i = "i\<lparr>is_Status := st\<rparr>"
  have got: "get_from is_Meta (cl_InferenceServices ?w) req = Inr ?i"
    using get_put_to [OF assms(1), of "\<lambda>x. x\<lparr>is_Status := st\<rparr>"] by (simp add: commit_def restated_at_def st)
  have same: "decision conflict ?w ?i = decision conflict w i"
    by (simp add: decision_def commit_def split: sum.split option.split)
  have "\<exists>cm. plan_under conflict req ?w = ?p\<lparr>pl_ConfigMap := cm\<rparr>"
  proof (cases "decision conflict w i")
    case (Inl p)
    then have p: "?p = refusal i (fst p) (snd p)" using assms(1) by (simp add: plan_under_def)
    with st have i: "?i = failedService ref_kube (fst p) (snd p) i" by (simp add: refusal_def restated)
    have "refusal ?i (fst p) (snd p) = refusal i (fst p) (snd p)"
      unfolding refusal_def i failedService_again ..
    with Inl same got p have "plan_under conflict req ?w = ?p\<lparr>pl_ConfigMap := pl_ConfigMap ?p\<rparr>" by (simp add: plan_under_def)
    then show ?thesis by blast
  next
    case (Inr p)
    then have p: "?p = apply_plan w i (snd p) (tenantConfig (fst p))" using assms(1) by (simp add: plan_under_def)
    from apply_plan_again [OF st [unfolded p] assms(2) refl, of req]
    obtain cm where "apply_plan ?w ?i (snd p) (tenantConfig (fst p)) = ?p\<lparr>pl_ConfigMap := cm\<rparr>" unfolding p by blast
    with Inr same got have "plan_under conflict req ?w = ?p\<lparr>pl_ConfigMap := cm\<rparr>" by (simp add: plan_under_def)
    then show ?thesis by blast
  qed
  then obtain cm where again: "plan_under conflict req ?w = ?p\<lparr>pl_ConfigMap := cm\<rparr>" by blast
  show ?thesis unfolding matches_def Let_def again using st by (simp add: commit_def written_again)
qed

end
