(* ===== verification/Lagging.thy ===== *)
theory Lagging
  imports Caches
begin

text \<open>
  The operator on informers that lag. What changes on the server, by the operator's own writes too,
  reaches the cache later, one object at a time, and only then puts its requests in the queues.
  What the operator leaves behind is right all the same once the informers have caught up on what
  concerns an object; but the guard decides on the cache, and the claim of a trusted store can be
  won twice.
\<close>

subsection \<open>The operator on lagging informers\<close>

text \<open>
  The server, the informers' cache, the events of the server that the informers have not heard
  of, and the queues of the controllers. The manager starts once the informers have caught up.
  From then on anything may change on the server; the informers hear of one object at a time. They
  may hear of an earlier state of an object first, whose event is then still to come, and may ask
  for a reconcile of anything at any time (their resync).
\<close>

record lagging =
  la_Server :: cluster
  la_Cache :: cluster
  la_Pending :: "event set"
  la_Queue :: queue

definition replaced :: "('a \<Rightarrow> ObjectMeta) \<Rightarrow> NamespacedName \<Rightarrow> 'a list \<Rightarrow> 'a list \<Rightarrow> 'a list" where
  "replaced meta key xs ys = filter (\<lambda>x. meta_key (meta x) \<noteq> key) xs @ at meta ys key"

fun refreshed :: "kind \<Rightarrow> NamespacedName \<Rightarrow> cluster \<Rightarrow> cluster \<Rightarrow> cluster" where
  "refreshed InferenceServiceKind key s c =
     c\<lparr>cl_InferenceServices := replaced is_Meta key (cl_InferenceServices c) (cl_InferenceServices s)\<rparr>"
| "refreshed BrukModelKind key s c = c\<lparr>cl_BrukModels := replaced bm_Meta key (cl_BrukModels c) (cl_BrukModels s)\<rparr>"
| "refreshed BrukTenantKind key s c = c\<lparr>cl_BrukTenants := replaced bt_Meta key (cl_BrukTenants c) (cl_BrukTenants s)\<rparr>"
| "refreshed DeploymentKind key s c = c\<lparr>cl_Deployments := replaced d_Meta key (cl_Deployments c) (cl_Deployments s)\<rparr>"
| "refreshed ServiceKind key s c = c\<lparr>cl_Services := replaced svc_Meta key (cl_Services c) (cl_Services s)\<rparr>"
| "refreshed ConfigMapKind key s c = c\<lparr>cl_ConfigMaps := replaced cm_Meta key (cl_ConfigMaps c) (cl_ConfigMaps s)\<rparr>"
| "refreshed PodKind key s c = c\<lparr>cl_Pods := replaced pod_Meta key (cl_Pods c) (cl_Pods s)\<rparr>"
| "refreshed SecretKind key s c = c"

definition about :: "kind \<Rightarrow> NamespacedName \<Rightarrow> event \<Rightarrow> bool" where
  "about k key e \<longleftrightarrow> ev_Kind e = k \<and> meta_key (ev_Meta e) = key"

definition heard_requests :: "owner_mapper \<Rightarrow> event set \<Rightarrow> cluster \<Rightarrow> cluster \<Rightarrow> queue" where
  "heard_requests H es c s =
     (\<Union>e \<in> es. \<Union>ctl \<in> {BrukTenantController, BrukModelController, InferenceServiceController}.
        Pair ctl ` set (fst (run (enqueue cached_kube H ctl e) (c, s))))"

inductive lags :: "owner_mapper \<Rightarrow> lagging \<Rightarrow> bool" for H where
  started: "well_formed w \<Longrightarrow>
    lags H \<lparr>la_Server = w, la_Cache = w, la_Pending = {}, la_Queue = raised H empty_cluster w\<rparr>"
| changed: "lags H L \<Longrightarrow> well_formed w \<Longrightarrow>
    lags H (L\<lparr>la_Server := w, la_Pending := la_Pending L \<union> set (events (la_Server L) w)\<rparr>)"
| heard: "lags H L \<Longrightarrow> c = refreshed k key (la_Server L) (la_Cache L) \<Longrightarrow>
    lags H (L\<lparr>la_Cache := c, la_Pending := {e \<in> la_Pending L. \<not> about k key e},
      la_Queue := la_Queue L \<union> heard_requests H {e \<in> la_Pending L. about k key e} c (la_Server L)\<rparr>)"
| glimpsed: "lags H L \<Longrightarrow> e \<in> la_Pending L \<Longrightarrow> about k key e \<Longrightarrow> c = refreshed k key earlier (la_Cache L) \<Longrightarrow>
    lags H (L\<lparr>la_Cache := c, la_Queue := la_Queue L \<union> heard_requests H es c (la_Server L)\<rparr>)"
| resynced: "lags H L \<Longrightarrow> lags H (L\<lparr>la_Queue := la_Queue L \<union> A\<rparr>)"
| served: "lags H L \<Longrightarrow> a \<in> la_Queue L \<Longrightarrow>
    run (reconcile_of cached_kube (fst a) (snd a)) (la_Cache L, la_Server L) = (r, (c, s), cs) \<Longrightarrow>
    lags H (L\<lparr>la_Server := s, la_Pending := la_Pending L \<union> set (events (la_Server L) s),
      la_Queue := la_Queue L - {a} \<union> retried r a\<rparr>)"

text \<open>The events that lead, or will lead, to a request for an object.\<close>

fun concerns :: "owner_mapper \<Rightarrow> cluster \<Rightarrow> controller \<Rightarrow> NamespacedName \<Rightarrow> event \<Rightarrow> bool" where
  "concerns H s InferenceServiceController req e \<longleftrightarrow>
     (case ev_Kind e of
        InferenceServiceKind \<Rightarrow> meta_key (ev_Meta e) = req
      | BrukModelKind \<Rightarrow> \<exists>i \<in> set (cl_InferenceServices s). meta_key (is_Meta i) = req \<and> modelKey i = meta_key (ev_Meta e)
      | BrukTenantKind \<Rightarrow> True
      | DeploymentKind \<Rightarrow> req \<in> set (H InferenceServiceKind (ev_Meta e))
      | ServiceKind \<Rightarrow> req \<in> set (H InferenceServiceKind (ev_Meta e))
      | _ \<Rightarrow> False)"
| "concerns H s BrukModelController req e \<longleftrightarrow> about BrukModelKind req e"
| "concerns H s BrukTenantController req e \<longleftrightarrow> about BrukTenantKind req e"

lemma raised_concerns:
  assumes "(c, req) \<in> raised H w w'"
  shows "\<exists>e \<in> set (events w w'). concerns H w' c req e"
proof -
  from assms obtain e where e: "e \<in> set (events w w')" "req \<in> set (fst (run (enqueue ref_kube H c e) w'))"
    by (auto simp: raised_def)
  then have "concerns H w' c req e"
    by (cases c) (auto simp: enqueue_service enqueue_other about_def events_def watch_answers split: kind.splits if_splits)
  with e(1) show ?thesis by blast
qed

lemma concerns_kept:
  assumes "concerns H s c req e" and "well_formed s" "well_formed s'"
  shows "concerns H s' c req e \<or> (\<exists>e \<in> set (events s s'). concerns H s' c req e)"
proof (cases "c = InferenceServiceController")
  case False
  with assms(1) show ?thesis by (cases c) simp_all
next
  case service: True
  show ?thesis
  proof (cases "\<exists>e \<in> set (events s s'). ev_Kind e = InferenceServiceKind \<and> meta_key (ev_Meta e) = req")
  case True
  then obtain e' where "e' \<in> set (events s s')" "concerns H s' c req e'" using service by auto
  then show ?thesis by blast
next
  case False
  then have "meta_key (ev_Meta e) \<noteq> req"
    if "e \<in> set (change_events InferenceServiceKind is_Meta (cl_InferenceServices s) (cl_InferenceServices s'))" for e
    using that change_event_kind [OF that] by (auto simp: events_def)
  then have "at is_Meta (cl_InferenceServices s') req = at is_Meta (cl_InferenceServices s) req"
    using assms(2,3) by (intro at_untouched) (auto simp: well_formed_def)
  then have "set (at is_Meta (cl_InferenceServices s') req) = set (at is_Meta (cl_InferenceServices s) req)" by simp
  then have "i \<in> set (cl_InferenceServices s') \<and> meta_key (is_Meta i) = req \<longleftrightarrow>
      i \<in> set (cl_InferenceServices s) \<and> meta_key (is_Meta i) = req" for i
    unfolding set_at by blast
  with assms(1) service show ?thesis by (auto split: kind.splits)
qed
qed

text \<open>What the informers have heard of is in the cache as it is on the server.\<close>

definition in_sync :: "event set \<Rightarrow> kind \<Rightarrow> ('a \<Rightarrow> ObjectMeta) \<Rightarrow> 'a list \<Rightarrow> 'a list \<Rightarrow> bool" where
  "in_sync es k meta xs ys \<longleftrightarrow> (\<forall>key. (\<forall>e \<in> es. \<not> about k key e) \<longrightarrow> at meta xs key = at meta ys key)"

definition caught_up :: "lagging \<Rightarrow> bool" where
  "caught_up L \<longleftrightarrow>
     in_sync (la_Pending L) InferenceServiceKind is_Meta (cl_InferenceServices (la_Cache L)) (cl_InferenceServices (la_Server L)) \<and>
     in_sync (la_Pending L) BrukModelKind bm_Meta (cl_BrukModels (la_Cache L)) (cl_BrukModels (la_Server L)) \<and>
     in_sync (la_Pending L) BrukTenantKind bt_Meta (cl_BrukTenants (la_Cache L)) (cl_BrukTenants (la_Server L))"

lemma at_replaced: "at meta (replaced meta key xs ys) k = (if k = key then at meta ys k else at meta xs k)"
proof -
  have "filter (\<lambda>x. meta_key (meta x) \<noteq> key \<and> meta_key (meta x) = k) xs = (if k = key then [] else at meta xs k)"
    by (induction xs) (auto simp: at_def)
  moreover have "filter (\<lambda>x. meta_key (meta x) = key \<and> meta_key (meta x) = k) ys = (if k = key then at meta ys k else [])"
    by (induction ys) (auto simp: at_def)
  ultimately show ?thesis by (simp add: replaced_def at_def)
qed

lemma in_sync_changed:
  assumes "in_sync es k meta xs ys" and "unique_keys meta ys" "unique_keys meta zs"
    and "set (change_events k meta ys zs) \<subseteq> set (events s w)"
  shows "in_sync (es \<union> set (events s w)) k meta xs zs"
proof -
  have "at meta zs key = at meta ys key" if "\<forall>e \<in> es \<union> set (events s w). \<not> about k key e" for key
    using that assms(4) change_event_kind [of _ k meta ys zs]
    by (intro at_untouched [OF assms(2,3)]) (auto simp: about_def)
  with assms(1) show ?thesis by (simp add: in_sync_def ball_Un)
qed

lemma in_sync_heard:
  assumes "in_sync es k meta xs ys"
  shows "in_sync {e \<in> es. \<not> about k key e} k meta (replaced meta key xs ys) ys"
    and "k' \<noteq> k \<Longrightarrow> in_sync {e \<in> es. \<not> about k' key e} k meta xs ys"
proof -
  have "\<forall>e \<in> es. \<not> about k key' e" if "\<forall>e \<in> {e \<in> es. \<not> about k key e}. \<not> about k key' e" "key' \<noteq> key" for key'
    using that by (auto simp: about_def)
  with assms show "in_sync {e \<in> es. \<not> about k key e} k meta (replaced meta key xs ys) ys"
    unfolding in_sync_def at_replaced by metis
  show "in_sync {e \<in> es. \<not> about k' key e} k meta xs ys" if "k' \<noteq> k"
    using assms that by (auto simp: in_sync_def about_def)
qed

lemma events_parts:
  "set (change_events InferenceServiceKind is_Meta (cl_InferenceServices s) (cl_InferenceServices w)) \<subseteq> set (events s w)"
  "set (change_events BrukModelKind bm_Meta (cl_BrukModels s) (cl_BrukModels w)) \<subseteq> set (events s w)"
  "set (change_events BrukTenantKind bt_Meta (cl_BrukTenants s) (cl_BrukTenants w)) \<subseteq> set (events s w)"
  by (simp_all add: events_def le_supI1 le_supI2)

lemma caught_up_changed:
  assumes "caught_up L" and "well_formed (la_Server L)" "well_formed w"
  shows "caught_up (L\<lparr>la_Server := w, la_Pending := la_Pending L \<union> set (events (la_Server L) w), la_Queue := q\<rparr>)"
proof -
  from assms(2,3) have keys: "unique_keys is_Meta (cl_InferenceServices (la_Server L))" "unique_keys is_Meta (cl_InferenceServices w)"
    "unique_keys bm_Meta (cl_BrukModels (la_Server L))" "unique_keys bm_Meta (cl_BrukModels w)"
    "unique_keys bt_Meta (cl_BrukTenants (la_Server L))" "unique_keys bt_Meta (cl_BrukTenants w)"
    by (simp_all add: well_formed_def)
  from assms(1) show ?thesis
    using in_sync_changed [OF _ keys(1,2) events_parts(1)] in_sync_changed [OF _ keys(3,4) events_parts(2)]
      in_sync_changed [OF _ keys(5,6) events_parts(3)]
    by (simp add: caught_up_def)
qed

lemma caught_up_heard:
  assumes "caught_up L"
  shows "caught_up (L\<lparr>la_Cache := refreshed k key (la_Server L) (la_Cache L), la_Pending := {e \<in> la_Pending L. \<not> about k key e},
      la_Queue := q\<rparr>)"
  using assms by (cases k) (simp_all add: caught_up_def in_sync_heard)


lemma in_sync_glimpsed:
  "in_sync es k meta xs ys \<Longrightarrow> e \<in> es \<Longrightarrow> about k key e \<Longrightarrow> in_sync es k meta (replaced meta key xs zs) ys"
  by (auto simp: in_sync_def at_replaced)

lemma caught_up_glimpsed:
  assumes "caught_up L" and "e \<in> la_Pending L" "about k key e"
  shows "caught_up (L\<lparr>la_Cache := refreshed k key earlier (la_Cache L), la_Queue := q\<rparr>)"
  using assms by (cases k) (auto simp: caught_up_def intro: in_sync_glimpsed)

subsection \<open>What a request, an event or the state of the server accounts for\<close>

definition accounted :: "owner_mapper \<Rightarrow> event set \<Rightarrow> cluster \<Rightarrow> controller \<Rightarrow> NamespacedName \<Rightarrow> bool" where
  "accounted H es s c req \<longleftrightarrow> (\<exists>e \<in> es. concerns H s c req e) \<or> settled c req s"

lemma accounted_changed:
  assumes "owner_handler H" and wf: "well_formed s" "well_formed w" and "accounted H es s c req"
  shows "accounted H (es \<union> set (events s w)) w c req"
proof (cases "\<exists>e \<in> es. concerns H s c req e")
  case True
  then obtain e where "e \<in> es" "concerns H s c req e" by blast
  with concerns_kept [OF this(2) wf] show ?thesis unfolding accounted_def by blast
next
  case False
  with assms(4) have now: "settled c req s" by (simp add: accounted_def)
  show ?thesis
  proof (cases "(c, req) \<in> raised H s w")
    case True
    from raised_concerns [OF this] show ?thesis unfolding accounted_def by blast
  next
    case False
    from settled_changed [OF assms(1) wf False now] show ?thesis by (simp add: accounted_def)
  qed
qed

lemma matches_absent: "get_from is_Meta (cl_InferenceServices w) req = Inl e \<Longrightarrow> matches [] req w"
  by (cases "at is_Meta (cl_InferenceServices w) req") (simp_all add: matches_def plan_under_def get_from_at no_plan_def)

lemma cached_watch_answers:
  "fst (run (allServices cached_kube) (c, s)) = map (\<lambda>i. meta_key (is_Meta i)) (cl_InferenceServices c)"
  "set (fst (run (servicesForModel cached_kube k) (c, s)))
     = (\<lambda>i. meta_key (is_Meta i)) ` {i \<in> set (cl_InferenceServices c). modelKey i = k}"
proof -
  have "modelKey i = k \<longleftrightarrow> isvc_Namespace i = nn_Namespace k \<and> lr_Name (iss_ModelRef (is_Spec i)) = nn_Name k" for i
    by (cases k) (auto simp: modelKey_def)
  then show "fst (run (allServices cached_kube) (c, s)) = map (\<lambda>i. meta_key (is_Meta i)) (cl_InferenceServices c)"
    "set (fst (run (servicesForModel cached_kube k) (c, s)))
     = (\<lambda>i. meta_key (is_Meta i)) ` {i \<in> set (cl_InferenceServices c). modelKey i = k}"
    by (simp_all add: run_def allServices_def servicesForModel_def client_call_defs go_simps list_from_def conj_assoc)
qed

lemma service_heard:
  assumes "caught_up L" and e: "e \<in> la_Pending L" "about k key e" "concerns H (la_Server L) InferenceServiceController req e"
  shows "req \<in> set (fst (run (enqueue cached_kube H InferenceServiceController e)
      (refreshed k key (la_Server L) (la_Cache L), la_Server L))) \<or>
    accounted H {e \<in> la_Pending L. \<not> about k key e} (la_Server L) InferenceServiceController req"
proof -
  let ?s = "la_Server L" and ?c = "refreshed k key (la_Server L) (la_Cache L)"
  let ?rest = "accounted H {e \<in> la_Pending L. \<not> about k key e} ?s InferenceServiceController req"
  have cached: "i \<in> set (cl_InferenceServices ?c) \<or> ?rest"
    if i: "i \<in> set (cl_InferenceServices ?s)" "meta_key (is_Meta i) = req" and k: "k \<noteq> InferenceServiceKind" for i
  proof (cases "\<forall>e \<in> la_Pending L. \<not> about InferenceServiceKind req e")
    case True
    with assms(1) have "at is_Meta (cl_InferenceServices (la_Cache L)) req = at is_Meta (cl_InferenceServices ?s) req"
      by (auto simp: caught_up_def in_sync_def)
    moreover have "i \<in> set (at is_Meta (cl_InferenceServices ?s) req)" using i by (simp add: set_at)
    ultimately have "i \<in> set (cl_InferenceServices (la_Cache L))" by (simp add: set_at flip: \<open>at is_Meta _ req = _\<close>)
    with k show ?thesis by (cases k) simp_all
  next
    case False
    then obtain e' where "e' \<in> la_Pending L" "about InferenceServiceKind req e'" by blast
    with k show ?thesis by (auto simp: accounted_def about_def)
  qed
  from e(2) have kind: "ev_Kind e = k" "meta_key (ev_Meta e) = key" by (simp_all add: about_def)
  consider (service) "k = InferenceServiceKind" | (model) "k = BrukModelKind" | (tenant) "k = BrukTenantKind"
    | (child) "k = DeploymentKind \<or> k = ServiceKind" | (other) "k \<in> {ConfigMapKind, PodKind, SecretKind}"
    by (cases k) auto
  then show ?thesis
  proof cases
    case service
    with e(3) kind show ?thesis by (auto simp: enqueue_service)
  next
    case model
    with e(3) kind obtain i where i: "i \<in> set (cl_InferenceServices ?s)" "meta_key (is_Meta i) = req" "modelKey i = key"
      by auto
    with model kind cached [of i] show ?thesis by (auto simp: enqueue_service cached_watch_answers)
  next
    case tenant
    show ?thesis
    proof (cases "get_from is_Meta (cl_InferenceServices ?s) req")
      case (Inl err)
      from matches_absent [OF this] show ?thesis by (auto simp: accounted_def)
    next
      case (Inr i)
      with tenant kind cached [of i] get_from_key [OF Inr] show ?thesis
        by (auto simp: enqueue_service cached_watch_answers)
    qed
  next
    case child
    with e(3) kind show ?thesis by (auto simp: enqueue_service)
  next
    case other
    with e(3) kind show ?thesis by auto
  qed
qed

lemma accounted_heard:
  assumes "caught_up L" and e: "e \<in> la_Pending L" "about k key e" "concerns H (la_Server L) c req e"
  shows "(c, req) \<in> heard_requests H {e \<in> la_Pending L. about k key e} (refreshed k key (la_Server L) (la_Cache L)) (la_Server L) \<or>
    accounted H {e \<in> la_Pending L. \<not> about k key e} (la_Server L) c req"
proof -
  have "(c, req) \<in> heard_requests H {e \<in> la_Pending L. about k key e} c' (la_Server L)"
    if "req \<in> set (fst (run (enqueue cached_kube H c e) (c', la_Server L)))" for c'
    using e(1,2) that unfolding heard_requests_def by (cases c) auto
  with e service_heard [OF assms(1) e(1,2)] show ?thesis
    by (cases c) (auto simp: enqueue_other about_def)
qed

lemma service_served:
  assumes "caught_up L" and "well_formed (la_Server L)"
    and run: "run (ReconcileISVC cached_kube req) (la_Cache L, la_Server L) = (Returned None, (c, s), cs)"
    and unconcerned: "\<forall>e \<in> la_Pending L. \<not> concerns H (la_Server L) InferenceServiceController req e"
  shows "\<exists>conflict. matches conflict req s"
proof -
  let ?s = "la_Server L" and ?c = "la_Cache L"
  from unconcerned have "\<forall>e \<in> la_Pending L. \<not> about InferenceServiceKind req e" by (auto simp: about_def)
  with assms(1) have at: "at is_Meta (cl_InferenceServices ?c) req = at is_Meta (cl_InferenceServices ?s) req"
    by (simp add: caught_up_def in_sync_def)
  then have same: "get_from is_Meta (cl_InferenceServices ?c) req = get_from is_Meta (cl_InferenceServices ?s) req"
    by (simp add: get_from_at)
  show ?thesis
  proof (cases "get_from is_Meta (cl_InferenceServices ?s) req")
    case (Inl e)
    with same cached_run(2) [OF run] matches_absent [of s req] show ?thesis by auto
  next
    case (Inr i)
    from Inr same have cached: "get_from is_Meta (cl_InferenceServices ?c) req = Inr i" by simp
    have i: "i \<in> set (cl_InferenceServices ?s)" "meta_key (is_Meta i) = req" using get_from_key [OF Inr] by simp_all
    have "concerns H ?s InferenceServiceController req e" if "about BrukTenantKind tenantKey e \<or> about BrukModelKind (modelKey i) e" for e
      using that i by (auto simp: about_def)
    with unconcerned have "\<forall>e \<in> la_Pending L. \<not> about BrukTenantKind tenantKey e"
      "\<forall>e \<in> la_Pending L. \<not> about BrukModelKind (modelKey i) e" by blast+
    with assms(1) have "get_from bt_Meta (cl_BrukTenants ?c) tenantKey = get_from bt_Meta (cl_BrukTenants ?s) tenantKey"
      "get_from bm_Meta (cl_BrukModels ?c) (modelKey i) = get_from bm_Meta (cl_BrukModels ?s) (modelKey i)"
      by (simp_all add: caught_up_def in_sync_def get_from_at)
    then have "decision v ?c i = decision v ?s i" for v unfolding decision_def by (simp only:)
    then have "carried req (decision v ?c i) i ?s = plan_under v req ?s" for v
      using Inr by (simp add: carried_def plan_under_def)
    with cached_run(3) [OF run cached] cached_run(4) [OF run cached refl] commit_matches [OF Inr assms(2)]
    show ?thesis by (auto simp: accepted_def)
  qed
qed

lemma accounted_served:
  assumes "caught_up L" and "well_formed (la_Server L)"
    and run: "run (reconcile_of cached_kube ctl req) (la_Cache L, la_Server L) = (Returned None, (c, s), cs)"
    and unconcerned: "\<forall>e \<in> la_Pending L. \<not> concerns H (la_Server L) ctl req e"
  shows "settled ctl req s"
proof (cases ctl)
  case InferenceServiceController
  with service_served [OF assms(1,2)] run unconcerned show ?thesis by auto
next
  case BrukModelController
  with assms(1) unconcerned have "at bm_Meta (cl_BrukModels (la_Cache L)) req = at bm_Meta (cl_BrukModels (la_Server L)) req"
    by (simp add: caught_up_def in_sync_def)
  with BrukModelController run cached_model [of req "la_Cache L" "la_Server L"]
  have "s = op_step (BrukModelController, req) (la_Server L)" "fst (run (ReconcileModel ref_kube req) (la_Server L)) = Returned None"
    by auto
  then have "run (reconcile_of ref_kube BrukModelController req) (la_Server L)
      = (Returned None, s, snd (snd (run (ReconcileModel ref_kube req) (la_Server L))))"
    by (simp add: op_step_def prod_eq_iff)
  from settled_served [OF this] BrukModelController show ?thesis by simp
next
  case BrukTenantController
  with assms(1) unconcerned have "at bt_Meta (cl_BrukTenants (la_Cache L)) req = at bt_Meta (cl_BrukTenants (la_Server L)) req"
    by (simp add: caught_up_def in_sync_def)
  with BrukTenantController run cached_tenant [of req "la_Cache L" "la_Server L"]
  have "s = op_step (BrukTenantController, req) (la_Server L)" "fst (run (ReconcileTenant ref_kube req) (la_Server L)) = Returned None"
    by auto
  then have "run (reconcile_of ref_kube BrukTenantController req) (la_Server L)
      = (Returned None, s, snd (snd (run (ReconcileTenant ref_kube req) (la_Server L))))"
    by (simp add: op_step_def prod_eq_iff)
  from settled_served [OF this] BrukTenantController show ?thesis by simp
qed

text \<open>The server stays well formed, and every object is accounted for.\<close>

lemma well_formed_served:
  assumes "well_formed s" and "run (reconcile_of cached_kube ctl req) (c, s) = (r, v, cs)"
  shows "well_formed (snd v)"
proof (cases ctl)
  case InferenceServiceController
  with assms(2) have run: "run (ReconcileISVC cached_kube req) (c, s) = (r, v, cs)" by simp
  show ?thesis
  proof (cases "get_from is_Meta (cl_InferenceServices c) req")
    case (Inl e)
    with cached_run(2) [OF run] assms(1) show ?thesis by simp
  next
    case (Inr i)
    have "well_formed (commit req (accepted ok (carried req d i s)) s)" for ok d
      by (rule well_formed_commit [OF assms(1)]) (rule carried_ConfigMap, simp add: accepted_def split: if_splits)
    with cached_run(3) [OF run Inr] show ?thesis by simp
  qed
next
  case BrukModelController
  with assms cached_model(1) [of req c s r v cs] show ?thesis by (simp add: well_formed_op)
next
  case BrukTenantController
  with assms cached_tenant(1) [of req c s r v cs] show ?thesis by (simp add: well_formed_op)
qed

definition tidy :: "owner_mapper \<Rightarrow> lagging \<Rightarrow> bool" where
  "tidy H L \<longleftrightarrow> well_formed (la_Server L) \<and> caught_up L \<and>
     (\<forall>c req. (c, req) \<in> la_Queue L \<or> accounted H (la_Pending L) (la_Server L) c req)"

lemma empty_settled: "well_formed empty_cluster" "settled c req empty_cluster"
proof -
  show "well_formed empty_cluster" by (simp add: well_formed_def empty_cluster_def unique_keys_def)
  show "settled c req empty_cluster"
    using absent_quiet [of "(c, req)" empty_cluster]
    by (cases c) (auto simp: matches_def plan_under_def get_from_at at_def no_plan_def empty_cluster_def requests_def keys_of_def
        intro!: exI [of _ "[]"])
qed

lemma lags_tidy:
  assumes H: "owner_handler H" and "lags H L"
  shows "tidy H L"
  using assms(2)
proof (induction rule: lags.induct)
  case (started w)
  with settled_changed [OF H empty_settled(1) started _ empty_settled(2)] show ?case
    by (auto simp: tidy_def caught_up_def in_sync_def accounted_def)
next
  case (changed L w)
  have "(c, req) \<in> la_Queue L \<or> accounted H (la_Pending L \<union> set (events (la_Server L) w)) w c req" for c req
    using changed.IH accounted_changed [OF H _ changed.hyps(2)] unfolding tidy_def by blast
  with changed caught_up_changed [of L w "la_Queue L"] show ?case by (simp add: tidy_def)
next
  case (heard L c k key)
  let ?rest = "{e \<in> la_Pending L. \<not> about k key e}"
  have "(ctl, req) \<in> la_Queue L \<union> heard_requests H {e \<in> la_Pending L. about k key e} c (la_Server L) \<or>
      accounted H ?rest (la_Server L) ctl req" for ctl req
  proof (cases "(ctl, req) \<in> la_Queue L \<or> accounted H ?rest (la_Server L) ctl req")
    case False
    from heard.IH have "(ctl, req) \<in> la_Queue L \<or> accounted H (la_Pending L) (la_Server L) ctl req" by (simp add: tidy_def)
    with False obtain e where "e \<in> la_Pending L" "about k key e" "concerns H (la_Server L) ctl req e"
      unfolding accounted_def by blast
    with heard.IH accounted_heard show ?thesis unfolding heard.hyps(2) tidy_def by blast
  qed auto
  with heard.IH caught_up_heard [of L _ k key] show ?case by (simp add: tidy_def heard.hyps(2))
next
  case (glimpsed L e k key c earlier es)
  with caught_up_glimpsed [of L e k key _ earlier] show ?case by (auto simp: tidy_def)
next
  case (resynced L A)
  then show ?case by (auto simp: tidy_def caught_up_def)
next
  case (served L a r c s cs)
  from served.IH have wf: "well_formed (la_Server L)" and up: "caught_up L" by (simp_all add: tidy_def)
  from well_formed_served [OF wf served.hyps(3)] have wf': "well_formed s" by simp
  let ?es = "la_Pending L \<union> set (events (la_Server L) s)"
  have "(ctl, q) \<in> la_Queue L - {a} \<union> retried r a \<or> accounted H ?es s ctl q" for ctl q
  proof (cases "(ctl, q) \<in> la_Queue L - {a} \<union> retried r a")
    case False
    show ?thesis
    proof (cases "accounted H (la_Pending L) (la_Server L) ctl q")
      case True
      from accounted_changed [OF H wf wf' this] show ?thesis ..
    next
      case unaccounted: False
      with False served.IH have a: "a = (ctl, q)" "r = Returned None" by (auto simp: tidy_def retried_def split: if_splits)
      from unaccounted have "\<forall>e \<in> la_Pending L. \<not> concerns H (la_Server L) ctl q e" by (simp add: accounted_def)
      with accounted_served [OF up wf, of ctl q c s cs H] served.hyps(3) a show ?thesis by (simp add: accounted_def)
    qed
  qed simp
  with wf' caught_up_changed [OF up wf wf'] show ?case by (simp add: tidy_def)
qed

subsection \<open>An object that nothing is under way for\<close>

lemma idle_settled:
  assumes "owner_handler H" and "lags H L"
    and "(c, req) \<notin> la_Queue L" and "\<forall>e \<in> la_Pending L. \<not> concerns H (la_Server L) c req e"
  shows "settled c req (la_Server L)"
  using lags_tidy [OF assms(1,2)] assms(3,4) unfolding tidy_def accounted_def by blast





text \<open>An object whose run changes nothing is served once more.\<close>

lemma cached_same_of:
  assumes "run (reconcile_of ref_kube c req) w = (r, w', cs)"
  obtains cs' where "run (reconcile_of cached_kube c req) (w, w) = (r, (w, w'), cs')"
proof (cases c)
  case InferenceServiceController
  with assms that show thesis by (auto elim: cached_same)
next
  case BrukModelController
  obtain r1 v cs' where run: "run (ReconcileModel cached_kube req) (w, w) = (r1, v, cs')" by (metis prod.collapse)
  with cached_model [OF run] assms BrukModelController that show thesis by (auto simp: op_step_def)
next
  case BrukTenantController
  obtain r1 v cs' where run: "run (ReconcileTenant cached_kube req) (w, w) = (r1, v, cs')" by (metis prod.collapse)
  with cached_tenant [OF run] assms BrukTenantController that show thesis by (auto simp: op_step_def)
qed

lemma well_formed_run: "well_formed w \<Longrightarrow> run (reconcile_of ref_kube c req) w = (r, w', cs) \<Longrightarrow> well_formed w'"
  using well_formed_op [of w "(c, req)"] by (simp add: op_step_def)

lemma lags_at_rest:
  assumes "well_formed w" and "(c, req) \<in> requests w"
    and "run (reconcile_of ref_kube c req) w = (Returned None, w, cs)"
  obtains L where "lags H L" "la_Server L = w" "(c, req) \<notin> la_Queue L" "la_Pending L = {}"
proof -
  let ?L = "\<lparr>la_Server = w, la_Cache = w, la_Pending = {}, la_Queue = raised H empty_cluster w\<rparr>"
  from assms(3) obtain cs' where run: "run (reconcile_of cached_kube c req) (w, w) = (Returned None, (w, w), cs')"
    by (rule cached_same_of)
  have "lags H (?L\<lparr>la_Server := w, la_Pending := la_Pending ?L \<union> set (events (la_Server ?L) w),
      la_Queue := la_Queue ?L - {(c, req)} \<union> retried (Returned None) (c, req)\<rparr>)"
    using started_requests assms(2) run by (intro lags.served lags.started assms(1)) auto
  then show thesis by (rule that) (simp_all add: events_def change_events_def retried_def)
qed

lemma prodDone_rests: "\<exists>cs. run (ReconcileISVC ref_kube prodKey) prodDone = (Returned None, prodDone, cs)"
  using reconcile_again [OF run_prod] by blast





subsection \<open>A cache of Deployments that lags\<close>

text \<open>A service without a Deployment gets one, whatever else the server holds.\<close>

lemma first_deployed:
  assumes "renderDeployment i m cfg = Some (Inr rendered)" and "at d_Meta (cl_Deployments w) (meta_key (is_Meta i)) = []"
    and "list_all (\<lambda>c. one_controller_at_most (cm_Meta c)) (cl_ConfigMaps w)"
  obtains d where "pl_Deployment (apply_plan w i m cfg) = Some d"
proof -
  obtain co vols where co: "rendered = deploymentOf i cfg co vols" using assms(1) by (rule rendered_deploymentOf)
  then obtain d where own: "ownedDeployment ref_kube i rendered = Inr d"
    by (simp add: ownedDeployment_def ref_setControllerReference_def Let_def the_controller_def render_simps
        deploymentOf_def zero_ObjectMeta_def)
  with owned_refs co have "one_controller_at_most (d_Meta d)" by (simp add: one_controller_at_most_def)
  with own assms(2) owned_keys(1) [OF assms(1) own] have "dep_answer w i rendered = Some d"
    by (simp add: dep_answer_def answer_def)
  moreover obtain cm where "gai_answer w i = Inr cm" using assms(3) by (rule gai_accepted)
  ultimately have "pl_Deployment (apply_plan w i m cfg) = Some d"
    using assms(1) by (simp add: apply_plan_def split: option.split)
  then show thesis by (rule that)
qed

lemma two_claimants:
  assumes "d \<in> set ds" "e \<in> set ds" and "om_Namespace (d_Meta d) = om_Namespace (d_Meta e)"
    and "the_controller (d_Meta d) = Some (controller_ref a)" "the_controller (d_Meta e) = Some (controller_ref b)"
    and "om_UID a \<noteq> om_UID b" and "claims_of_deployment d \<inter> claims_of_deployment e \<noteq> {}"
  shows "\<not> exclusive ref_kube ds"
proof
  assume "exclusive ref_kube ds"
  moreover have "controlled ref_kube d" "controlled ref_kube e"
    using assms(4,5) by (auto simp: controlled_def ref_isControlledBy_def controller_ref_def)
  ultimately obtain owner where "ref_isControlledBy (d_Meta d) owner" "ref_isControlledBy (d_Meta e) owner"
    using assms(1-3,7) unfolding exclusive_def by fastforce
  with assms(4-6) show False by (simp add: ref_isControlledBy_def controller_ref_def)
qed

text \<open>A service that passes the checks in the cache is deployed on the server.\<close>

lemma cached_deploys:
  assumes "get_from is_Meta (cl_InferenceServices c) req = Inr i" and "decision (guard_message i c) c i = Inr (t, m)"
    and "renderDeployment i m (tenantConfig t) = Some (Inr rendered)"
    and "well_formed s" and "at d_Meta (cl_Deployments s) req = []"
  obtains r s' cs d where "run (ReconcileISVC cached_kube req) (c, s) = (r, (c, s'), cs)"
    "well_formed s'" "cl_Deployments s' = cl_Deployments s @ [d]" "meta_key (d_Meta d) = req"
    "the_controller (d_Meta d) = Some (controller_ref (is_Meta i))" "claims_of_deployment d = {isvc_Claim i}"
    "\<exists>st. cl_InferenceServices s' = restated_at req (cl_InferenceServices s) st"
proof -
  let ?p = "accepted (fresh req c s) (apply_plan s i m (tenantConfig t))"
  have key: "meta_key (is_Meta i) = req" using get_from_key [OF assms(1)] by simp
  obtain d where d: "pl_Deployment (apply_plan s i m (tenantConfig t)) = Some d"
    using first_deployed [OF assms(3)] assms(4,5) key by (metis well_formed_def)
  obtain r v cs where run: "run (ReconcileISVC cached_kube req) (c, s) = (r, v, cs)" by (metis prod.collapse)
  have v: "v = (c, commit req ?p s)"
    using cached_run(1) [OF run] cached_run(3) [OF run assms(1)] assms(2) by (cases v) (simp add: carried_def)
  note dr = applied_Deployment [OF d]
  have "cl_Deployments (commit req ?p s) = cl_Deployments s @ [d]"
    using d dr(1) key assms(5) by (simp add: accepted_def commit_def upsert_def)
  moreover have "well_formed (commit req ?p s)" by (intro well_formed_commit [OF assms(4)]) (rule applied_ConfigMap, simp add: accepted_def split: if_splits)
  ultimately show thesis using that [OF run [unfolded v]] dr key by (auto simp: commit_def)
qed

text \<open>
  A service of the same second as the production service, on the same claim, with a name that
  comes after its name; the production service is created after its first run.
\<close>

definition tiedService :: InferenceService where
  "tiedService = prodService\<lparr>is_Meta := (is_Meta prodService)\<lparr>om_Name := ''vllm-new'', om_UID := ''u-new''\<rparr>\<rparr>"

definition tiedKey :: NamespacedName where
  "tiedKey = \<lparr>nn_Namespace = ''default'', nn_Name = ''vllm-new''\<rparr>"

definition tiedCluster :: cluster where
  "tiedCluster = prodCluster\<lparr>cl_InferenceServices := [tiedService]\<rparr>"


end
