(* ===== verification/OwnedPods.thy ===== *)
theory OwnedPods
  imports Operator Verdict
begin

text \<open>
  What the operator cannot see: the pods that have an owner. Two worlds that differ in them are
  indistinguishable to every call it makes but the list of the pods, and the guard drops them
  from that list; so no run, and no sequence of runs, tells them apart.
\<close>

subsection \<open>Worlds without the owned pods\<close>

text \<open>The pod check gives the same answer on all pods and on the pods without an owner.\<close>

definition ownerless :: "Pod \<Rightarrow> bool" where
  "ownerless p \<longleftrightarrow> om_OwnerReferences (pod_Meta p) = []"

lemma podConflict_ownerless: "podConflict isvc (filter ownerless ps) = podConflict isvc ps"
  by (induction ps) (auto simp: ownerless_def)

definition blind :: "('w \<Rightarrow> 'w) \<Rightarrow> ('w \<Rightarrow> 'a \<times> 'w) \<Rightarrow> bool" where
  "blind hide f \<longleftrightarrow> (\<forall>w. f (hide w) = (case f w of (r, w') \<Rightarrow> (r, hide w')))"

text \<open>
  \<open>hide\<close> takes the owned pods out of a world. A server answers and executes every call that does not
  list pods as if they were there, and lists the same pods but for the owned ones.
\<close>

locale pod_view =
  fixes K :: "'w kube" and hide :: "'w \<Rightarrow> 'w"
  assumes objects: "blind hide (k_getInferenceService K key)" "blind hide (k_getBrukModel K key)"
      "blind hide (k_getBrukTenant K key)" "blind hide (k_getSecret K key)"
    and lists: "blind hide (k_listInferenceServices K ns)" "blind hide (k_listDeployments K ns)"
    and applies: "blind hide (k_applyConfigMap K cm)" "blind hide (k_applyDeployment K d)"
      "blind hide (k_applyService K sv)"
    and statuses: "blind hide (k_updateInferenceServiceStatus K i)" "blind hide (k_updateBrukModelStatus K m)"
      "blind hide (k_updateBrukTenantStatus K t)"
    and pods: "k_listPods K ns w = (r, w') \<Longrightarrow>
      \<exists>r'. k_listPods K ns (hide w) = (r', hide w') \<and> map_sum id (filter ownerless) r' = map_sum id (filter ownerless) r"
begin

text \<open>A program that runs alike with the owned pods and without them.\<close>

definition hidden :: "'w sys \<Rightarrow> 'w sys" where
  "hidden s = s\<lparr>world := hide (world s)\<rparr>"

definition alike :: "('w sys, 'a) state \<Rightarrow> bool" where
  "alike m \<longleftrightarrow> (\<forall>s. run_state m (hidden s) = (case run_state m s of (r, s') \<Rightarrow> (r, hidden s')))"

lemma alike_return [simp]: "alike (State_Monad.return x)"
  by (simp add: alike_def)

lemma alike_bind:
  assumes "alike m" and "\<And>r. alike (f r)"
  shows "alike (State_Monad.bind m f)"
  unfolding alike_def
proof
  fix s
  obtain r s' where m: "run_state m s = (r, s')" by fastforce
  with assms(1) have "run_state m (hidden s) = (r, hidden s')" by (simp add: alike_def)
  with m assms(2) [of r] show "run_state (State_Monad.bind m f) (hidden s) =
      (case run_state (State_Monad.bind m f) s of (r, s') \<Rightarrow> (r, hidden s'))"
    by (simp add: alike_def)
qed

lemma alike_invoke: "blind hide f \<Longrightarrow> alike (invoke c f)"
  by (auto simp: alike_def blind_def hidden_def run_state_invoke split: prod.split)

lemma alike_calls [simp]:
  "alike (getInferenceService K key)" "alike (getBrukModel K key)" "alike (getBrukTenant K key)"
  "alike (getSecret K key)" "alike (listInferenceServices K nso)" "alike (listDeployments K nso)"
  "alike (applyConfigMap K cm)" "alike (applyDeployment K d)" "alike (applyService K sv)"
  "alike (updateInferenceServiceStatus K i)" "alike (updateBrukModelStatus K m)"
  "alike (updateBrukTenantStatus K t)"
  by (simp_all add: client_call_defs alike_invoke objects lists applies statuses)

lemma alike_podGuard [simp]: "alike (podGuard K isvc)"
  unfolding alike_def
proof
  fix s :: "'w sys"
  obtain r w' where r: "k_listPods K (Some (isvc_Namespace isvc)) (world s) = (r, w')" by fastforce
  from pods [OF r] obtain r' where r': "k_listPods K (Some (isvc_Namespace isvc)) (hide (world s)) = (r', hide w')"
    and same: "map_sum id (filter ownerless) r' = map_sum id (filter ownerless) r" by blast
  have "(case r' of Inl err \<Rightarrow> Inl (Api err) | Inr ps \<Rightarrow> Inr (case podConflict isvc ps of Some msg \<Rightarrow> msg | None \<Rightarrow> [])) =
      (case r of Inl err \<Rightarrow> Inl (Api err) | Inr ps \<Rightarrow> Inr (case podConflict isvc ps of Some msg \<Rightarrow> msg | None \<Rightarrow> []))"
    using same podConflict_ownerless [of isvc] by (cases r; cases r') (simp_all, metis)
  with r r' show "run_state (podGuard K isvc) (hidden s) = (case run_state (podGuard K isvc) s of (r, s') \<Rightarrow> (r, hidden s'))"
    by (simp add: podGuard_def listPods_def go_simps hidden_def)
qed

lemma alike_guard [simp]: "alike (trustedStoreConflict K isvc)"
proof -
  have "alike (deploymentGuard K isvc)"
    unfolding deploymentGuard_def by (intro alike_bind) (simp_all split: sum.split option.split)
  then show ?thesis
    unfolding trustedStoreConflict_def by (intro alike_bind) (simp_all split: sum.split option.split)
qed

lemma alike_failConfigured [simp]: "alike (failConfigured K isvc reason msg)"
  unfolding failConfigured_def by (intro alike_bind) simp_all

lemma alike_apply [simp]: "alike (reconcileApply K isvc model cfg)"
proof -
  have gai: "alike (applyGaiConfigMap K isvc)"
    unfolding applyGaiConfigMap_def by (auto intro!: alike_bind split: sum.split)
  have dep: "alike (applyOwnedDeployment K isvc rendered)" for rendered
    unfolding applyOwnedDeployment_def by (cases "ownedDeployment K isvc rendered") (auto intro!: alike_bind)
  have svc: "alike (applyOwnedService K isvc)"
    unfolding applyOwnedService_def by (cases "ownedService K isvc") (auto intro!: alike_bind)
  have rest: "alike (applyServiceAndStatus K isvc model cfg d)" for d
    unfolding applyServiceAndStatus_def updateReadyStatus_def
    by (intro alike_bind svc) (auto intro!: alike_bind split: option.split)
  show ?thesis
    unfolding reconcileApply_def
    by (intro alike_bind gai) (auto intro!: alike_bind dep rest split: option.split sum.split)
qed

lemma alike_reconcile [simp]: "alike (reconcile_of K c req)"
proof -
  have checked: "alike (reconcileChecked K isvc t m)" for isvc t m
    unfolding reconcileChecked_def by (auto intro!: alike_bind split: option.split sum.split)
  have model: "alike (reconcileModel K isvc t)" for isvc t
    unfolding reconcileModel_def by (intro alike_bind) (auto simp: checked split: sum.split)
  have tenant: "alike (reconcileTenantConfig K isvc)" for isvc
    unfolding reconcileTenantConfig_def by (intro alike_bind) (auto simp: model split: sum.split)
  have ready: "alike (setReady K m st reason msg)" for m st reason msg
    unfolding setReady_def by (intro alike_bind) simp_all
  have "alike (ReconcileISVC K req)"
    unfolding ReconcileISVC_def by (intro alike_bind) (auto simp: tenant split: sum.split)
  moreover have "alike (ReconcileModel K req)"
    unfolding ReconcileModel_def Let_def by (auto intro!: alike_bind simp: ready split: sum.split option.split)
  moreover have "alike (ReconcileTenant K req)"
    unfolding ReconcileTenant_def by (auto intro!: alike_bind split: sum.split)
  ultimately show ?thesis by (cases c) simp_all
qed

lemma run_alike:
  assumes "run (reconcile_of K c req) w = (r, w', cs)"
  shows "run (reconcile_of K c req) (hide w) = (r, hide w', cs)"
proof -
  have "run_state (reconcile_of K c req) (hidden \<lparr>world = w, calls = []\<rparr>) =
      (case run_state (reconcile_of K c req) \<lparr>world = w, calls = []\<rparr> of (r, s') \<Rightarrow> (r, hidden s'))"
    using alike_reconcile unfolding alike_def by blast
  with assms show ?thesis by (auto simp: run_def hidden_def split: prod.splits)
qed

lemma process_alike:
  "process K qs w = (rs, w', cs) \<Longrightarrow> process K qs (hide w) = (rs, hide w', cs)"
proof (induction qs arbitrary: w rs w' cs)
  case (Cons q qs)
  obtain r w1 cs1 where run: "run (reconcile_of K (fst q) (snd q)) w = (r, w1, cs1)" by (metis prod.collapse)
  moreover obtain rs2 w2 cs2 where "process K qs w1 = (rs2, w2, cs2)" by (metis prod.collapse)
  ultimately show ?case using Cons.prems Cons.IH [of w1] run_alike [OF run] by simp
qed simp

end

text \<open>C21: Owned pods are invisible. On any server, and whatever requests the manager works through, the operator
  makes the same calls with the same arguments and gets the same results whether the pods that
  have an owner are there or not. So a pod of a Job, a StatefulSet or a bare ReplicaSet that mounts
  a trusted store never stops a workload on it; nor does a pod that a deleted or changed
  Deployment has left behind and that is still shutting down.\<close>

theorem owned_pods_invisible:
  assumes "pod_view K hide" and "process K qs w = (rs, w', cs)" and "process K qs v = (rs', v', cs')"
    and "hide v = hide w"
  shows "rs' = rs \<and> cs' = cs \<and> hide v' = hide w'"
proof -
  note same = pod_view.process_alike [OF assms(1)]
  from same [of qs w] same [of qs v] assms(2-4) show ?thesis by simp
qed

subsection \<open>The reference server\<close>

definition without_owned :: "cluster \<Rightarrow> cluster" where
  "without_owned w = w\<lparr>cl_Pods := filter ownerless (cl_Pods w)\<rparr>"

lemma list_without_owned: "list_from pod_Meta (filter ownerless ps) ns = filter ownerless (list_from pod_Meta ps ns)"
  by (simp add: list_from_def conj_commute split: option.split)

interpretation ref_pods: pod_view ref_kube without_owned
proof
  show "\<exists>r'. k_listPods ref_kube ns (without_owned w) = (r', without_owned w') \<and>
      map_sum id (filter ownerless) r' = map_sum id (filter ownerless) r"
    if "k_listPods ref_kube ns w = (r, w')" for ns w r w'
    using that by (auto simp: ref_kube_def without_owned_def list_without_owned)
qed (simp_all add: blind_def ref_kube_def without_owned_def split: sum.split prod.split)

text \<open>The production service is applied while an owned pod mounts its trusted store.\<close>

definition leftPod :: Pod where
  "leftPod =
     \<lparr>pod_Meta = zero_ObjectMeta\<lparr>om_Name := ''vllm-old-7d9f'', om_Namespace := ''default'',
        om_OwnerReferences := [\<lparr>or_Kind = ''ReplicaSet'', or_Name = ''vllm-old'', or_UID = ''u-old'', or_Controller = True\<rparr>]\<rparr>,
      pod_Spec = \<lparr>ps_RuntimeClassName = None, ps_Containers = [],
        ps_Volumes = [claimVolume ''store'' (isvc_Claim prodService)]\<rparr>\<rparr>"

theorem owned_pods_invisible_witness:
  "\<exists>rs v' cs. process ref_kube [(InferenceServiceController, prodKey)] (prodCluster\<lparr>cl_Pods := [leftPod]\<rparr>) = (rs, v', cs) \<and>
     podSpecMountsClaim (pod_Spec leftPod) (isvc_Claim prodService) \<and> ApplyDeployment prodChild \<in> set cs"
proof -
  let ?v = "prodCluster\<lparr>cl_Pods := [leftPod]\<rparr>" and ?qs = "[(InferenceServiceController, prodKey)]"
  have hide: "without_owned ?v = without_owned prodCluster"
    by (simp add: without_owned_def ownerless_def leftPod_def)
  obtain rs v' cs where v: "process ref_kube ?qs ?v = (rs, v', cs)" by (metis prod.collapse)
  have w: "process ref_kube ?qs prodCluster = ([Returned None], prodDone, prodRead @ [ApplyConfigMap (gaiObject prodService),
        ApplyDeployment prodChild, ApplyService prodChildService, UpdateInferenceServiceStatus prodStatus])"
    using run_prod by simp
  from owned_pods_invisible [OF ref_pods.pod_view_axioms w v hide] v show ?thesis
    by (auto simp: leftPod_def podSpecMountsClaim_def claimVolume_def)
qed

end
