(* ===== verification/Memory.thy ===== *)
theory Memory
  imports Prelude
begin

text \<open>
  A store for Go values that share memory: addresses, cells, pointers and slices, and what it
  means to copy a value deeply. The memory is a list of cells and an address is an index, so
  allocation appends and every address is fresh when it is handed out. A pointer is an address
  or nil, a slice is a window of an array or nil. The contract of a copy is the locale
  \<open>deep_copier\<close>; the lemmas build a copier of a struct from the copiers of its fields.
\<close>

subsection \<open>Cells and actions\<close>

type_synonym addr = nat
type_synonym 'c mem = "'c list"
type_synonym ('c, 'a) act = "'c mem \<Rightarrow> ('a \<times> 'c mem) option"

text \<open>
  An action gives \<open>None\<close> when it follows an address that holds no value of the type it expects;
  a well-typed Go program never does.
\<close>

definition keep :: "'a \<Rightarrow> ('c, 'a) act" where
  "keep x = (\<lambda>m. Some (x, m))"

definition andThen :: "('c, 'a) act \<Rightarrow> ('a \<Rightarrow> ('c, 'b) act) \<Rightarrow> ('c, 'b) act" where
  "andThen f g = (\<lambda>m. case f m of None \<Rightarrow> None | Some (x, m') \<Rightarrow> g x m')"

definition load :: "('c \<Rightarrow> 'g option) \<Rightarrow> 'c mem \<Rightarrow> addr \<Rightarrow> 'g option" where
  "load view m a = (if a < length m then view (m ! a) else None)"

text \<open>A window of an array: the elements from the offset on, as many as the length says.\<close>

record slice =
  sl_array :: addr
  sl_offset :: nat
  sl_len :: nat

definition elements :: "('c \<Rightarrow> 'g list option) \<Rightarrow> 'c mem \<Rightarrow> slice \<Rightarrow> 'g list option" where
  "elements view m s =
     (case load view m (sl_array s) of
        None \<Rightarrow> None
      | Some xs \<Rightarrow>
          (if sl_offset s + sl_len s \<le> length xs then Some (take (sl_len s) (drop (sl_offset s) xs))
           else None))"

subsection \<open>Copying pointers and slices\<close>

text \<open>
  \<open>out = new(T); in.DeepCopyInto(out)\<close>: the cell is allocated zeroed, then filled. The same
  statement with a plain assignment \<open>*out = *in\<close> is the one with \<open>keep\<close>.
\<close>

definition copyPointer ::
    "'c \<Rightarrow> ('g \<Rightarrow> 'c) \<Rightarrow> ('c \<Rightarrow> 'g option) \<Rightarrow> ('g \<Rightarrow> ('c, 'g) act) \<Rightarrow> addr option \<Rightarrow> ('c, addr option) act" where
  "copyPointer zero cell view copy p m =
     (case p of
        None \<Rightarrow> Some (None, m)
      | Some a \<Rightarrow>
          (let out = length m; m1 = m @ [zero] in
           case load view m1 a of
             None \<Rightarrow> None
           | Some x \<Rightarrow>
               (case copy x m1 of None \<Rightarrow> None | Some (y, m2) \<Rightarrow> Some (Some out, m2[out := cell y]))))"

text \<open>\<open>x := (*in).DeepCopy(); *out = &x\<close>: the copy is made first, then given an address.\<close>

definition copyValue ::
    "('g \<Rightarrow> 'c) \<Rightarrow> ('c \<Rightarrow> 'g option) \<Rightarrow> ('g \<Rightarrow> ('c, 'g) act) \<Rightarrow> addr option \<Rightarrow> ('c, addr option) act" where
  "copyValue cell view copy p m =
     (case p of
        None \<Rightarrow> Some (None, m)
      | Some a \<Rightarrow>
          (case load view m a of
             None \<Rightarrow> None
           | Some x \<Rightarrow>
               (case copy x m of None \<Rightarrow> None | Some (y, m1) \<Rightarrow> Some (Some (length m1), m1 @ [cell y]))))"

text \<open>\<open>out = make([]T, len(in))\<close> and the loop over the elements, or \<open>copy(out, in)\<close>.\<close>

primrec copyElements :: "('g \<Rightarrow> ('c, 'g) act) \<Rightarrow> 'g list \<Rightarrow> ('c, 'g list) act" where
  "copyElements copy [] = keep []"
| "copyElements copy (x # xs) =
     andThen (copy x) (\<lambda>y. andThen (copyElements copy xs) (\<lambda>ys. keep (y # ys)))"

definition copySlice ::
    "'c \<Rightarrow> ('g list \<Rightarrow> 'c) \<Rightarrow> ('c \<Rightarrow> 'g list option) \<Rightarrow> ('g \<Rightarrow> ('c, 'g) act) \<Rightarrow> slice option \<Rightarrow>
     ('c, slice option) act" where
  "copySlice zero cell view copy s m =
     (case s of
        None \<Rightarrow> Some (None, m)
      | Some w \<Rightarrow>
          (let out = length m; m1 = m @ [zero] in
           case elements view m1 w of
             None \<Rightarrow> None
           | Some xs \<Rightarrow>
               (case copyElements copy xs m1 of
                  None \<Rightarrow> None
                | Some (ys, m2) \<Rightarrow>
                    Some (Some \<lparr>sl_array = out, sl_offset = 0, sl_len = length ys\<rparr>,
                          m2[out := cell ys]))))"

subsection \<open>The value of a reference and what it reaches\<close>

text \<open>
  The value a pointer or a slice stands for, its contents read off the memory; and the
  addresses it depends on.
\<close>

definition val_pointer ::
    "('c \<Rightarrow> 'g option) \<Rightarrow> ('c mem \<Rightarrow> 'g \<Rightarrow> 'a option) \<Rightarrow> 'c mem \<Rightarrow> addr option \<Rightarrow> 'a option option" where
  "val_pointer view val m p =
     (case p of
        None \<Rightarrow> Some None
      | Some a \<Rightarrow> (case load view m a of None \<Rightarrow> None | Some x \<Rightarrow> map_option Some (val m x)))"

definition reach_pointer ::
    "('c \<Rightarrow> 'g option) \<Rightarrow> ('c mem \<Rightarrow> 'g \<Rightarrow> addr set) \<Rightarrow> 'c mem \<Rightarrow> addr option \<Rightarrow> addr set" where
  "reach_pointer view reach m p =
     (case p of
        None \<Rightarrow> {}
      | Some a \<Rightarrow> insert a (case load view m a of None \<Rightarrow> {} | Some x \<Rightarrow> reach m x))"

primrec val_list :: "('c mem \<Rightarrow> 'g \<Rightarrow> 'a option) \<Rightarrow> 'c mem \<Rightarrow> 'g list \<Rightarrow> 'a list option" where
  "val_list val m [] = Some []"
| "val_list val m (x # xs) =
     (case val m x of
        None \<Rightarrow> None
      | Some v \<Rightarrow> map_option ((#) v) (val_list val m xs))"

primrec reach_list :: "('c mem \<Rightarrow> 'g \<Rightarrow> addr set) \<Rightarrow> 'c mem \<Rightarrow> 'g list \<Rightarrow> addr set" where
  "reach_list reach m [] = {}"
| "reach_list reach m (x # xs) = reach m x \<union> reach_list reach m xs"

text \<open>A nil slice has no elements, like an empty one.\<close>

definition val_slice ::
    "('c \<Rightarrow> 'g list option) \<Rightarrow> ('c mem \<Rightarrow> 'g \<Rightarrow> 'a option) \<Rightarrow> 'c mem \<Rightarrow> slice option \<Rightarrow> 'a list option" where
  "val_slice view val m s =
     (case s of
        None \<Rightarrow> Some []
      | Some w \<Rightarrow> (case elements view m w of None \<Rightarrow> None | Some xs \<Rightarrow> val_list val m xs))"

definition reach_slice ::
    "('c \<Rightarrow> 'g list option) \<Rightarrow> ('c mem \<Rightarrow> 'g \<Rightarrow> addr set) \<Rightarrow> 'c mem \<Rightarrow> slice option \<Rightarrow> addr set" where
  "reach_slice view reach m s =
     (case s of
        None \<Rightarrow> {}
      | Some w \<Rightarrow>
          insert (sl_array w) (case elements view m w of None \<Rightarrow> {} | Some xs \<Rightarrow> reach_list reach m xs))"

subsection \<open>The contract of a deep copy\<close>

text \<open>Two memories hold the same cells at a set of addresses.\<close>

definition agree :: "'c mem \<Rightarrow> 'c mem \<Rightarrow> addr set \<Rightarrow> bool" where
  "agree m m' S \<longleftrightarrow> (\<forall>a\<in>S. a < length m' \<and> m' ! a = m ! a)"

lemma agree_empty [simp]: "agree m m' {}"
  by (simp add: agree_def)

lemma agree_Un [simp]: "agree m m' (S \<union> T) \<longleftrightarrow> agree m m' S \<and> agree m m' T"
  by (auto simp: agree_def)

lemma agree_insert [simp]:
  "agree m m' (insert a S) \<longleftrightarrow> a < length m' \<and> m' ! a = m ! a \<and> agree m m' S"
  by (auto simp: agree_def)

lemma agree_extend: "(\<And>a. a \<in> S \<Longrightarrow> a < length m) \<Longrightarrow> agree m (m @ ext) S"
  unfolding agree_def by (simp add: nth_append trans_less_add1)

lemma agree_store: "(\<And>a. a \<in> S \<Longrightarrow> a < length m \<and> a \<noteq> b) \<Longrightarrow> agree m (m[b := c]) S"
  unfolding agree_def by (metis length_list_update nth_list_update_neq)

text \<open>
  \<open>val\<close> reads the value of a representation off the memory, \<open>reach\<close> is what it depends on. A
  copy succeeds on whatever has a value, leaves every old cell alone, stands for the same value
  and reaches only cells it has allocated.
\<close>

locale deep_copier =
  fixes val :: "'c mem \<Rightarrow> 'g \<Rightarrow> 'a option"
    and reach :: "'c mem \<Rightarrow> 'g \<Rightarrow> addr set"
    and copy :: "'g \<Rightarrow> ('c, 'g) act"
  assumes frame: "val m x = Some v \<Longrightarrow> agree m m' (reach m x) \<Longrightarrow>
      val m' x = Some v \<and> reach m' x = reach m x"
    and bounded: "val m x = Some v \<Longrightarrow> a \<in> reach m x \<Longrightarrow> a < length m"
    and copies: "val m x = Some v \<Longrightarrow>
      \<exists>y ext. copy x m = Some (y, m @ ext) \<and> val (m @ ext) y = Some v \<and>
        (\<forall>a \<in> reach (m @ ext) y. length m \<le> a)"
begin

lemma extend:
  assumes "val m x = Some v"
  shows "val (m @ ext) x = Some v" "reach (m @ ext) x = reach m x"
  using frame [OF assms agree_extend] bounded [OF assms] by blast+

text \<open>A copy at an address above a limit is not touched by a write below it.\<close>

lemma store_below:
  assumes "val m x = Some v" and "\<forall>a \<in> reach m x. b < a"
  shows "val (m[b := c]) x = Some v" "reach (m[b := c]) x = reach m x"
  using frame [OF assms(1) agree_store] bounded [OF assms(1)] assms(2) by blast+

lemma copiesE:
  assumes "val m x = Some v"
  obtains y ext where "copy x m = Some (y, m @ ext)" "val (m @ ext) y = Some v"
    "\<And>a. a \<in> reach (m @ ext) y \<Longrightarrow> length m \<le> a \<and> a < length (m @ ext)"
  using copies [OF assms] bounded by blast

end

text \<open>A value that shares nothing is copied by assignment.\<close>

definition val_plain :: "'c mem \<Rightarrow> 'g \<Rightarrow> 'g option" where "val_plain m x = Some x"
definition reach_plain :: "'c mem \<Rightarrow> 'g \<Rightarrow> addr set" where "reach_plain m x = {}"

interpretation plain: deep_copier val_plain reach_plain keep
  by unfold_locales (simp_all add: val_plain_def reach_plain_def keep_def)

subsection \<open>Copiers of compound values\<close>

lemma copier_pair:
  assumes "deep_copier val1 reach1 copy1" and "deep_copier val2 reach2 copy2"
  shows "deep_copier
    (\<lambda>m (x, y). case (val1 m x, val2 m y) of (Some v, Some w) \<Rightarrow> Some (v, w) | _ \<Rightarrow> None)
    (\<lambda>m (x, y). reach1 m x \<union> reach2 m y)
    (\<lambda>(x, y). andThen (copy1 x) (\<lambda>x'. andThen (copy2 y) (\<lambda>y'. keep (x', y'))))"
    (is "deep_copier ?val ?reach ?copy")
proof
  note frame = deep_copier.frame [OF assms(1)] deep_copier.frame [OF assms(2)]
    and bounded = deep_copier.bounded [OF assms(1)] deep_copier.bounded [OF assms(2)]
  fix m m' :: "'a mem" and p v a
  assume val: "?val m p = Some v"
  then obtain x y v1 v2 where p: "p = (x, y)" and v: "v = (v1, v2)"
    and x: "val1 m x = Some v1" and y: "val2 m y = Some v2"
    by (auto split: prod.splits option.splits)
  { assume "agree m m' (?reach m p)"
    with frame(1) [OF x, of m'] frame(2) [OF y, of m'] show "?val m' p = Some v \<and> ?reach m' p = ?reach m p"
      by (simp add: p v) }
  { assume "a \<in> ?reach m p"
    with bounded(1) [OF x] bounded(2) [OF y] show "a < length m" by (auto simp: p) }
  obtain x' e1 where c1: "copy1 x m = Some (x', m @ e1)" "val1 (m @ e1) x' = Some v1"
    "\<And>a. a \<in> reach1 (m @ e1) x' \<Longrightarrow> length m \<le> a \<and> a < length (m @ e1)"
    using deep_copier.copiesE [OF assms(1) x] by metis
  obtain y' e2 where c2: "copy2 y (m @ e1) = Some (y', (m @ e1) @ e2)"
    "val2 ((m @ e1) @ e2) y' = Some v2"
    "\<And>a. a \<in> reach2 ((m @ e1) @ e2) y' \<Longrightarrow> length (m @ e1) \<le> a"
    using deep_copier.copiesE [OF assms(2) deep_copier.extend(1) [OF assms(2) y]] by metis
  note ext = deep_copier.extend [OF assms(1) c1(2), of e2]
  show "\<exists>y ext. ?copy p m = Some (y, m @ ext) \<and> ?val (m @ ext) y = Some v \<and>
      (\<forall>a \<in> ?reach (m @ ext) y. length m \<le> a)"
    using c1 c2 ext by (intro exI [of _ "(x', y')"] exI [of _ "e1 @ e2"])
      (force simp: p v andThen_def keep_def)
qed

text \<open>
  A struct whose shared parts are \<open>part x\<close>: the rest of it is copied by the assignment
  \<open>*out = *in\<close>, and the parts are then replaced by their copies.
\<close>

lemma copier_struct:
  assumes "deep_copier val reach copy"
    and "\<And>y x. part (put y x) = y" and "\<And>y x. build (put y x) = build x"
    and "\<And>m x. val' m x = map_option (build x) (val m (part x))"
    and "\<And>m x. reach' m x = reach m (part x)"
    and "\<And>m x. copy' x m = map_option (\<lambda>(y, m'). (put y x, m')) (copy (part x) m)"
  shows "deep_copier val' reach' copy'"
proof
  fix m m' :: "'a mem" and x v a
  assume val: "val' m x = Some v"
  then obtain w where w: "val m (part x) = Some w" "v = build x w" by (auto simp: assms(4))
  { assume "agree m m' (reach' m x)"
    with deep_copier.frame [OF assms(1) w(1), of m'] w(2) show "val' m' x = Some v \<and> reach' m' x = reach' m x"
      by (simp add: assms(4,5)) }
  { assume "a \<in> reach' m x"
    with deep_copier.bounded [OF assms(1) w(1)] show "a < length m" by (simp add: assms(5)) }
  show "\<exists>y ext. copy' x m = Some (y, m @ ext) \<and> val' (m @ ext) y = Some v \<and>
      (\<forall>a \<in> reach' (m @ ext) y. length m \<le> a)"
    using deep_copier.copies [OF assms(1) w(1)] w(2) by (auto simp: assms(2-6))
qed

lemma load_extend: "load view m a = Some x \<Longrightarrow> load view (m @ ext) a = Some x"
  by (auto simp: load_def nth_append split: if_splits)

lemma load_frame: "load view m a = Some x \<Longrightarrow> a < length m' \<Longrightarrow> m' ! a = m ! a \<Longrightarrow> load view m' a = Some x"
  by (auto simp: load_def split: if_splits)

text \<open>The cell a copy allocates first and fills last.\<close>

lemma fill_fresh:
  assumes "deep_copier val reach copy" and "val m x = Some v" and "\<And>y. view (cell y) = Some y"
  obtains y ext where "copy x (m @ [zero]) = Some (y, (m @ [zero]) @ ext)"
    "((m @ [zero]) @ ext)[length m := cell y] = m @ cell y # ext"
    "load view (m @ cell y # ext) (length m) = Some y"
    "val (m @ cell y # ext) y = Some v"
    "\<And>a. a \<in> reach (m @ cell y # ext) y \<Longrightarrow> length m \<le> a"
proof -
  from deep_copier.copiesE [OF assms(1) deep_copier.extend(1) [OF assms(1,2)]]
  obtain y ext where c: "copy x (m @ [zero]) = Some (y, (m @ [zero]) @ ext)"
    "val ((m @ [zero]) @ ext) y = Some v"
    "\<And>a. a \<in> reach ((m @ [zero]) @ ext) y \<Longrightarrow> length (m @ [zero]) \<le> a"
    by metis
  have above: "\<forall>a \<in> reach ((m @ [zero]) @ ext) y. length m < a" using c(3) by fastforce
  have m2: "((m @ [zero]) @ ext)[length m := cell y] = m @ cell y # ext"
    by (simp add: list_update_append)
  show thesis
  proof (rule that [OF c(1) m2])
    show "load view (m @ cell y # ext) (length m) = Some y"
      by (simp add: load_def assms(3))
    note st = deep_copier.store_below [OF assms(1) c(2) above, of "cell y", unfolded m2]
    show "val (m @ cell y # ext) y = Some v" by (rule st(1))
    show "length m \<le> a" if "a \<in> reach (m @ cell y # ext) y" for a
      using that above st(2) by (metis less_imp_le)
  qed
qed

text \<open>Reading a pointer.\<close>

lemma val_pointer_simps [simp]:
  "val_pointer view val m None = Some None"
  "load view m a = Some x \<Longrightarrow> val_pointer view val m (Some a) = map_option Some (val m x)"
  by (simp_all add: val_pointer_def)

lemma reach_pointer_simps [simp]:
  "reach_pointer view reach m None = {}"
  "load view m a = Some x \<Longrightarrow> reach_pointer view reach m (Some a) = insert a (reach m x)"
  by (simp_all add: reach_pointer_def)

lemma val_pointerE:
  assumes "val_pointer view val m p = Some v"
  obtains (Nil) "p = None" "v = None"
    | (At) a x w where "p = Some a" "load view m a = Some x" "val m x = Some w" "v = Some w"
  using assms by (auto simp: val_pointer_def split: option.splits)

lemma load_bound: "load view m a = Some x \<Longrightarrow> a < length m"
  by (simp add: load_def split: if_splits)

text \<open>What does not depend on the way a pointer is copied.\<close>

lemma pointer_frame:
  assumes "deep_copier val reach copy" and "val_pointer view val m p = Some v"
    and "agree m m' (reach_pointer view reach m p)"
  shows "val_pointer view val m' p = Some v \<and> reach_pointer view reach m' p = reach_pointer view reach m p"
  using assms(2)
proof (cases rule: val_pointerE)
  case (At a x w)
  with assms(3) have l: "load view m' a = Some x" and "agree m m' (reach m x)"
    by (auto intro: load_frame)
  from deep_copier.frame [OF assms(1) At(3) this(2)] l At show ?thesis by simp
qed simp

lemma pointer_bounded:
  assumes "deep_copier val reach copy" and "val_pointer view val m p = Some v"
    and "b \<in> reach_pointer view reach m p"
  shows "b < length m"
  using assms(2)
proof (cases rule: val_pointerE)
  case (At a x w)
  with assms(3) deep_copier.bounded [OF assms(1) At(3)] load_bound [OF At(2)] show ?thesis by auto
qed (use assms(3) in simp)

lemma copier_pointer:
  assumes "deep_copier val reach copy" and "\<And>y. view (cell y) = Some y"
  shows "deep_copier (val_pointer view val) (reach_pointer view reach) (copyPointer zero cell view copy)"
    (is "deep_copier ?val ?reach ?copy")
proof
  show "?val m' p = Some v \<and> ?reach m' p = ?reach m p" if "?val m p = Some v" "agree m m' (?reach m p)"
    for m m' p v using pointer_frame [OF assms(1) that] .
  show "b < length m" if "?val m p = Some v" "b \<in> ?reach m p" for m p v b
    using pointer_bounded [OF assms(1) that] .
  fix m :: "'a mem" and p v
  assume "?val m p = Some v"
  then show "\<exists>y ext. ?copy p m = Some (y, m @ ext) \<and> ?val (m @ ext) y = Some v \<and>
      (\<forall>a \<in> ?reach (m @ ext) y. length m \<le> a)"
  proof (cases rule: val_pointerE)
    case Nil
    then show ?thesis by (simp add: copyPointer_def)
  next
    case (At a x w)
    from fill_fresh [OF assms(1) At(3) assms(2)] obtain y ext where
      f: "copy x (m @ [zero]) = Some (y, (m @ [zero]) @ ext)"
      "((m @ [zero]) @ ext)[length m := cell y] = m @ cell y # ext"
      "load view (m @ cell y # ext) (length m) = Some y" "val (m @ cell y # ext) y = Some w"
      "\<And>a. a \<in> reach (m @ cell y # ext) y \<Longrightarrow> length m \<le> a" by metis
    have "?copy p m = Some (Some (length m), m @ cell y # ext)"
      using At f(1,2) by (simp add: copyPointer_def Let_def load_extend)
    with At f(3-5) show ?thesis
      by (intro exI [of _ "Some (length m)"] exI [of _ "cell y # ext"]) simp
  qed
qed

lemma copier_value:
  assumes "deep_copier val reach copy" and "\<And>y. view (cell y) = Some y"
  shows "deep_copier (val_pointer view val) (reach_pointer view reach) (copyValue cell view copy)"
    (is "deep_copier ?val ?reach ?copy")
proof
  show "?val m' p = Some v \<and> ?reach m' p = ?reach m p" if "?val m p = Some v" "agree m m' (?reach m p)"
    for m m' p v using pointer_frame [OF assms(1) that] .
  show "b < length m" if "?val m p = Some v" "b \<in> ?reach m p" for m p v b
    using pointer_bounded [OF assms(1) that] .
  fix m :: "'a mem" and p v
  assume "?val m p = Some v"
  then show "\<exists>y ext. ?copy p m = Some (y, m @ ext) \<and> ?val (m @ ext) y = Some v \<and>
      (\<forall>a \<in> ?reach (m @ ext) y. length m \<le> a)"
  proof (cases rule: val_pointerE)
    case Nil
    then show ?thesis by (simp add: copyValue_def)
  next
    case (At a x w)
    from deep_copier.copies [OF assms(1) At(3)] obtain y ext where
      f: "copy x m = Some (y, m @ ext)" "val (m @ ext) y = Some w"
      "\<forall>a \<in> reach (m @ ext) y. length m \<le> a" by metis
    note ext = deep_copier.extend [OF assms(1) f(2), of "[cell y]"]
    have l: "load view (m @ ext @ [cell y]) (length (m @ ext)) = Some y"
      by (simp add: load_def nth_append assms(2))
    show ?thesis
      by (intro exI [of _ "Some (length (m @ ext))"] exI [of _ "ext @ [cell y]"])
        (use At f ext l in \<open>simp add: copyValue_def\<close>)
  qed
qed

subsection \<open>Copiers of slices\<close>

lemma val_list_Cons: "val_list val m (x # xs) = Some v \<longleftrightarrow>
    (\<exists>w ws. v = w # ws \<and> val m x = Some w \<and> val_list val m xs = Some ws)"
  by (auto split: option.splits)

lemma list_frame:
  assumes "deep_copier val reach copy"
  shows "val_list val m xs = Some v \<Longrightarrow> agree m m' (reach_list reach m xs) \<Longrightarrow>
    val_list val m' xs = Some v \<and> reach_list reach m' xs = reach_list reach m xs"
proof (induction xs arbitrary: v)
  case (Cons x xs)
  from Cons.prems(1) obtain w ws where v: "v = w # ws" "val m x = Some w" "val_list val m xs = Some ws"
    unfolding val_list_Cons by blast
  from deep_copier.frame [OF assms v(2), of m'] Cons.IH [OF v(3)] Cons.prems(2) v(1) show ?case by simp
qed simp

lemma list_bounded:
  assumes "deep_copier val reach copy"
  shows "val_list val m xs = Some v \<Longrightarrow> a \<in> reach_list reach m xs \<Longrightarrow> a < length m"
proof (induction xs arbitrary: v)
  case (Cons x xs)
  from Cons.prems(1) obtain w ws where v: "val m x = Some w" "val_list val m xs = Some ws"
    unfolding val_list_Cons by blast
  from Cons.prems(2) Cons.IH [OF v(2)] deep_copier.bounded [OF assms v(1)] show ?case by auto
qed simp

lemma list_copies:
  assumes "deep_copier val reach copy"
  shows "val_list val m xs = Some v \<Longrightarrow>
    \<exists>ys ext. copyElements copy xs m = Some (ys, m @ ext) \<and> val_list val (m @ ext) ys = Some v \<and>
      (\<forall>a \<in> reach_list reach (m @ ext) ys. length m \<le> a)"
proof (induction xs arbitrary: v m)
  case Nil
  then show ?case by (simp add: keep_def)
next
  case (Cons x xs)
  from Cons.prems obtain w ws where v: "v = w # ws" "val m x = Some w" "val_list val m xs = Some ws"
    unfolding val_list_Cons by blast
  from deep_copier.copies [OF assms v(2)] obtain y e1 where c1: "copy x m = Some (y, m @ e1)"
    "val (m @ e1) y = Some w" "\<forall>a \<in> reach (m @ e1) y. length m \<le> a" by metis
  have "val_list val (m @ e1) xs = Some ws"
    using list_frame [OF assms v(3) agree_extend] list_bounded [OF assms v(3)] by blast
  from Cons.IH [OF this] obtain ys e2 where c2: "copyElements copy xs (m @ e1) = Some (ys, (m @ e1) @ e2)"
    "val_list val ((m @ e1) @ e2) ys = Some ws"
    "\<forall>a \<in> reach_list reach ((m @ e1) @ e2) ys. length (m @ e1) \<le> a" by metis
  note ext = deep_copier.extend [OF assms c1(2), of e2]
  show ?case
    by (intro exI [of _ "y # ys"] exI [of _ "e1 @ e2"])
      (use c1 c2 ext v(1) in \<open>fastforce simp: andThen_def keep_def\<close>)
qed

lemma copier_list:
  assumes "deep_copier val reach copy"
  shows "deep_copier (val_list val) (reach_list reach) (copyElements copy)"
proof
  show "val_list val m' xs = Some v \<and> reach_list reach m' xs = reach_list reach m xs"
    if "val_list val m xs = Some v" "agree m m' (reach_list reach m xs)" for m m' xs v
    using list_frame [OF assms that] .
  show "a < length m" if "val_list val m xs = Some v" "a \<in> reach_list reach m xs" for m xs v a
    using list_bounded [OF assms that] .
  show "\<exists>ys ext. copyElements copy xs m = Some (ys, m @ ext) \<and> val_list val (m @ ext) ys = Some v \<and>
      (\<forall>a \<in> reach_list reach (m @ ext) ys. length m \<le> a)"
    if "val_list val m xs = Some v" for m xs v
    using list_copies [OF assms that] .
qed

text \<open>Reading a slice.\<close>

lemma elements_load: "elements view m w = Some xs \<longleftrightarrow>
    (\<exists>all. load view m (sl_array w) = Some all \<and> sl_offset w + sl_len w \<le> length all \<and>
       xs = take (sl_len w) (drop (sl_offset w) all))"
  by (auto simp: elements_def split: option.splits)

lemma val_slice_simps [simp]:
  "val_slice view val m None = Some []"
  "elements view m w = Some xs \<Longrightarrow> val_slice view val m (Some w) = val_list val m xs"
  by (simp_all add: val_slice_def)

lemma reach_slice_simps [simp]:
  "reach_slice view reach m None = {}"
  "elements view m w = Some xs \<Longrightarrow>
     reach_slice view reach m (Some w) = insert (sl_array w) (reach_list reach m xs)"
  by (simp_all add: reach_slice_def)

lemma val_sliceE:
  assumes "val_slice view val m s = Some v"
  obtains (Nil) "s = None" "v = []"
    | (At) w xs where "s = Some w" "elements view m w = Some xs" "val_list val m xs = Some v"
  using assms by (auto simp: val_slice_def split: option.splits)

lemma copier_slice:
  assumes "deep_copier val reach copy" and "\<And>ys. view (cell ys) = Some ys"
  shows "deep_copier (val_slice view val) (reach_slice view reach) (copySlice zero cell view copy)"
    (is "deep_copier ?val ?reach ?copy")
proof
  fix m m' :: "'a mem" and s v b
  assume "?val m s = Some v"
  note cases = val_sliceE [OF this]
  show "?val m' s = Some v \<and> ?reach m' s = ?reach m s" if agree: "agree m m' (?reach m s)"
  proof (rule cases)
    fix w xs assume At: "s = Some w" "elements view m w = Some xs" "val_list val m xs = Some v"
    with agree have "elements view m' w = Some xs" and l: "agree m m' (reach_list reach m xs)"
      by (auto simp: elements_load intro: load_frame)
    with list_frame [OF assms(1) At(3) l] At(1,2) show ?thesis by simp
  qed simp
  show "b < length m" if "b \<in> ?reach m s"
  proof (rule cases)
    fix w xs assume At: "s = Some w" "elements view m w = Some xs" "val_list val m xs = Some v"
    with that list_bounded [OF assms(1) At(3)] load_bound show ?thesis by (auto simp: elements_load)
  qed (use that in simp)
  show "\<exists>y ext. ?copy s m = Some (y, m @ ext) \<and> ?val (m @ ext) y = Some v \<and>
      (\<forall>a \<in> ?reach (m @ ext) y. length m \<le> a)"
  proof (rule cases)
    fix w xs assume At: "s = Some w" "elements view m w = Some xs" "val_list val m xs = Some v"
    from fill_fresh [where view = view and cell = cell, OF copier_list [OF assms(1)] At(3) assms(2)]
    obtain ys ext where f: "copyElements copy xs (m @ [zero]) = Some (ys, (m @ [zero]) @ ext)"
      "((m @ [zero]) @ ext)[length m := cell ys] = m @ cell ys # ext"
      "load view (m @ cell ys # ext) (length m) = Some ys"
      "val_list val (m @ cell ys # ext) ys = Some v"
      "\<And>a. a \<in> reach_list reach (m @ cell ys # ext) ys \<Longrightarrow> length m \<le> a" by metis
    let ?w = "\<lparr>sl_array = length m, sl_offset = 0, sl_len = length ys\<rparr>"
    have "elements view (m @ [zero]) w = Some xs" using At(2) by (auto simp: elements_load load_extend)
    with At(1) f(1,2) have "?copy s m = Some (Some ?w, m @ cell ys # ext)"
      by (simp add: copySlice_def Let_def)
    moreover have "elements view (m @ cell ys # ext) ?w = Some ys" using f(3) by (simp add: elements_load)
    ultimately show ?thesis using f(4,5)
      by (intro exI [of _ "Some ?w"] exI [of _ "cell ys # ext"]) auto
  qed (simp add: copySlice_def)
qed

subsection \<open>Objects at an address\<close>

definition val_at :: "('c \<Rightarrow> 'g option) \<Rightarrow> ('c mem \<Rightarrow> 'g \<Rightarrow> 'a option) \<Rightarrow> 'c mem \<Rightarrow> addr \<Rightarrow> 'a option" where
  "val_at view val m a = (case load view m a of None \<Rightarrow> None | Some x \<Rightarrow> val m x)"

definition reach_at :: "('c \<Rightarrow> 'g option) \<Rightarrow> ('c mem \<Rightarrow> 'g \<Rightarrow> addr set) \<Rightarrow> 'c mem \<Rightarrow> addr \<Rightarrow> addr set" where
  "reach_at view reach m a = reach_pointer view reach m (Some a)"

lemma val_at_pointer: "val_pointer view val m (Some a) = Some v \<longleftrightarrow> (\<exists>w. v = Some w \<and> val_at view val m a = Some w)"
  by (auto simp: val_pointer_def val_at_def split: option.splits)

text \<open>The contract of a copy through a non-nil pointer, and the frame of what it points to.\<close>

lemma copyPointer_at:
  assumes "deep_copier val reach copy" and "\<And>y. view (cell y) = Some y" and "val_at view val m a = Some v"
  shows "\<exists>b ext. copyPointer zero cell view copy (Some a) m = Some (Some b, m @ ext) \<and>
    val_at view val (m @ ext) b = Some v \<and> (\<forall>c \<in> reach_at view reach (m @ ext) b. length m \<le> c)"
proof -
  have "val_pointer view val m (Some a) = Some (Some v)" using assms(3) by (simp add: val_at_pointer)
  from deep_copier.copies [OF copier_pointer [OF assms(1,2)] this]
  obtain y ext where y: "copyPointer zero cell view copy (Some a) m = Some (y, m @ ext)"
    "val_pointer view val (m @ ext) y = Some (Some v)"
    "\<forall>c \<in> reach_pointer view reach (m @ ext) y. length m \<le> c" by metis
  then obtain b where "y = Some b" by (cases y) auto
  with y show ?thesis by (auto simp: val_at_pointer reach_at_def)
qed

lemma at_frame:
  assumes "deep_copier val reach copy" and "val_at view val m a = Some v" and "agree m m' (reach_at view reach m a)"
  shows "val_at view val m' a = Some v \<and> reach_at view reach m' a = reach_at view reach m a"
  using pointer_frame [OF assms(1) _ assms(3) [unfolded reach_at_def], where v = "Some v"] assms(2)
  by (simp add: val_at_pointer reach_at_def)

lemma at_bounded:
  assumes "deep_copier val reach copy" and "val_at view val m a = Some v" and "b \<in> reach_at view reach m a"
  shows "b < length m"
  using pointer_bounded [OF assms(1), where p = "Some a" and v = "Some v"] assms(2,3)
  by (simp add: val_at_pointer reach_at_def)

end
