(* ===== verification/DeepCopy.thy ===== *)
theory DeepCopy
  imports ApiTypes Memory
begin

text \<open>
  \<open>api/v1alpha1/zz_generated.deepcopy.go\<close>, the copies of the API types, over a store in which
  the objects share memory: an informer cache hands out such copies, and the reconcilers write
  into what they are handed. A struct with pointers or slices has a second record here, in which
  a pointer is an address and a slice a window of an array; a struct without them is the record
  of \<open>ApiTypes\<close>. \<open>T_DeepCopyInto\<close> takes the value of \<open>*in\<close> and gives the value written to \<open>*out\<close>;
  the pointer receivers and the nil test are in \<open>T_DeepCopy\<close>.

  \<open>ObjectMeta\<close>, \<open>ListMeta\<close>, \<open>Quantity\<close> and \<open>Condition\<close> belong to the libraries. Their values in
  memory are of an unknown type \<open>'x\<close>; how they are copied, read and what they reach is the
  parameter \<open>library\<close>.
\<close>

subsection \<open>The structs in memory\<close>

record 'x mResourcePair =
  mrp_Limit :: "'x"
  mrp_Request :: "addr option"

record 'x mWorkloadResources =
  mwr_GPUs :: int32
  mwr_Memory :: "'x mResourcePair"
  mwr_CPU :: "'x mResourcePair"

record 'x mLocalVolumeSpec =
  mlv_LVName :: string
  mlv_Size :: "'x"

record mTrustedStoreSpec =
  mts_ExistingClaim :: string
  mts_LocalVolume :: "addr option"

record mWeightsCacheSpec =
  mwc_SizeLimit :: "addr option"

record mStorageSpec =
  mst_TrustedStore :: mTrustedStoreSpec
  mst_WeightsCache :: "addr option"

record mProbeOverrides =
  mpo_ReadinessFailureThreshold :: "addr option"

record 'x mInferenceServiceSpec =
  miss_ModelRef :: LocalRef
  miss_Engine :: EngineSpec
  miss_Resources :: "'x mWorkloadResources"
  miss_Storage :: mStorageSpec
  miss_Probes :: "addr option"

record mInferenceServiceStatus =
  mist_ObservedGeneration :: int64
  mist_Conditions :: "slice option"
  mist_Endpoint :: "addr option"
  mist_ServedModelName :: string
  mist_ResolvedImage :: string
  mist_AppliedInitDataHash :: string

record 'x mInferenceService =
  mis_TypeMeta :: TypeMeta
  mis_ObjectMeta :: "'x"
  mis_Spec :: "'x mInferenceServiceSpec"
  mis_Status :: mInferenceServiceStatus

record 'x mInferenceServiceList =
  misl_TypeMeta :: TypeMeta
  misl_ListMeta :: "'x"
  misl_Items :: "slice option"

record mHuggingFaceSource =
  mhf_Repo :: string
  mhf_Revision :: string
  mhf_TokenSecretRef :: "addr option"

record mModelSource =
  mms_HuggingFace :: "addr option"

record mCatalogSpec =
  mcat_DisplayName :: string
  mcat_Description :: string
  mcat_ContextLength :: int32
  mcat_InputModalities :: "slice option"
  mcat_OutputModalities :: "slice option"
  mcat_Features :: "slice option"
  mcat_License :: string
  mcat_Pricing :: "addr option"

record mBrukModelSpec =
  mbms_Source :: mModelSource
  mbms_ServedName :: string
  mbms_Catalog :: mCatalogSpec

record mBrukModelStatus =
  mbmst_ObservedGeneration :: int64
  mbmst_Conditions :: "slice option"

record 'x mBrukModel =
  mbm_TypeMeta :: TypeMeta
  mbm_ObjectMeta :: "'x"
  mbm_Spec :: mBrukModelSpec
  mbm_Status :: mBrukModelStatus

record 'x mBrukModelList =
  mbml_TypeMeta :: TypeMeta
  mbml_ListMeta :: "'x"
  mbml_Items :: "slice option"

record mBrukTenantStatus =
  mbtst_ObservedGeneration :: int64
  mbtst_Conditions :: "slice option"
  mbtst_AppliedInitDataHash :: string

record 'x mBrukTenant =
  mbt_TypeMeta :: TypeMeta
  mbt_ObjectMeta :: "'x"
  mbt_Spec :: BrukTenantSpec
  mbt_Status :: mBrukTenantStatus

record 'x mBrukTenantList =
  mbtl_TypeMeta :: TypeMeta
  mbtl_ListMeta :: "'x"
  mbtl_Items :: "slice option"

text \<open>One kind of cell per type of which the program takes an address, and one that is zeroed.\<close>

datatype (plugins only: code) 'x cell =
    Zeroed
  | LibraryCell 'x
  | Int32Cell int32
  | QuantityCell "'x"
  | ConditionsCell "'x list"
  | ModalitiesCell "Modality list"
  | ModelFeaturesCell "ModelFeature list"
  | InferenceServicesCell "'x mInferenceService list"
  | BrukModelsCell "'x mBrukModel list"
  | BrukTenantsCell "'x mBrukTenant list"
  | LocalRefCell LocalRef
  | SecretKeyRefCell SecretKeyRef
  | EndpointStatusCell EndpointStatus
  | EngineSpecCell EngineSpec
  | PricingSpecCell PricingSpec
  | InfrastructureConfigCell InfrastructureConfig
  | EngineDefaultsCell EngineDefaults
  | ConfidentialConfigCell ConfidentialConfig
  | BrukTenantSpecCell BrukTenantSpec
  | ResourcePairCell "'x mResourcePair"
  | WorkloadResourcesCell "'x mWorkloadResources"
  | LocalVolumeSpecCell "'x mLocalVolumeSpec"
  | TrustedStoreSpecCell mTrustedStoreSpec
  | WeightsCacheSpecCell mWeightsCacheSpec
  | StorageSpecCell mStorageSpec
  | ProbeOverridesCell mProbeOverrides
  | InferenceServiceSpecCell "'x mInferenceServiceSpec"
  | InferenceServiceStatusCell mInferenceServiceStatus
  | InferenceServiceCell "'x mInferenceService"
  | InferenceServiceListCell "'x mInferenceServiceList"
  | HuggingFaceSourceCell mHuggingFaceSource
  | ModelSourceCell mModelSource
  | CatalogSpecCell mCatalogSpec
  | BrukModelSpecCell mBrukModelSpec
  | BrukModelStatusCell mBrukModelStatus
  | BrukModelCell "'x mBrukModel"
  | BrukModelListCell "'x mBrukModelList"
  | BrukTenantStatusCell mBrukTenantStatus
  | BrukTenantCell "'x mBrukTenant"
  | BrukTenantListCell "'x mBrukTenantList"

definition as_Int32 :: "'x cell \<Rightarrow> int32 option" where
  "as_Int32 c = (case c of Int32Cell v \<Rightarrow> Some v | _ \<Rightarrow> None)"

lemma as_Int32_cell [simp]: "as_Int32 (Int32Cell v) = Some v" by (simp add: as_Int32_def)

definition as_Quantity :: "'x cell \<Rightarrow> 'x option" where
  "as_Quantity c = (case c of QuantityCell v \<Rightarrow> Some v | _ \<Rightarrow> None)"

lemma as_Quantity_cell [simp]: "as_Quantity (QuantityCell v) = Some v" by (simp add: as_Quantity_def)

definition as_Conditions :: "'x cell \<Rightarrow> ('x list) option" where
  "as_Conditions c = (case c of ConditionsCell v \<Rightarrow> Some v | _ \<Rightarrow> None)"

lemma as_Conditions_cell [simp]: "as_Conditions (ConditionsCell v) = Some v" by (simp add: as_Conditions_def)

definition as_Modalities :: "'x cell \<Rightarrow> (Modality list) option" where
  "as_Modalities c = (case c of ModalitiesCell v \<Rightarrow> Some v | _ \<Rightarrow> None)"

lemma as_Modalities_cell [simp]: "as_Modalities (ModalitiesCell v) = Some v" by (simp add: as_Modalities_def)

definition as_ModelFeatures :: "'x cell \<Rightarrow> (ModelFeature list) option" where
  "as_ModelFeatures c = (case c of ModelFeaturesCell v \<Rightarrow> Some v | _ \<Rightarrow> None)"

lemma as_ModelFeatures_cell [simp]: "as_ModelFeatures (ModelFeaturesCell v) = Some v" by (simp add: as_ModelFeatures_def)

definition as_InferenceServices :: "'x cell \<Rightarrow> ('x mInferenceService list) option" where
  "as_InferenceServices c = (case c of InferenceServicesCell v \<Rightarrow> Some v | _ \<Rightarrow> None)"

lemma as_InferenceServices_cell [simp]: "as_InferenceServices (InferenceServicesCell v) = Some v" by (simp add: as_InferenceServices_def)

definition as_BrukModels :: "'x cell \<Rightarrow> ('x mBrukModel list) option" where
  "as_BrukModels c = (case c of BrukModelsCell v \<Rightarrow> Some v | _ \<Rightarrow> None)"

lemma as_BrukModels_cell [simp]: "as_BrukModels (BrukModelsCell v) = Some v" by (simp add: as_BrukModels_def)

definition as_BrukTenants :: "'x cell \<Rightarrow> ('x mBrukTenant list) option" where
  "as_BrukTenants c = (case c of BrukTenantsCell v \<Rightarrow> Some v | _ \<Rightarrow> None)"

lemma as_BrukTenants_cell [simp]: "as_BrukTenants (BrukTenantsCell v) = Some v" by (simp add: as_BrukTenants_def)

definition as_LocalRef :: "'x cell \<Rightarrow> LocalRef option" where
  "as_LocalRef c = (case c of LocalRefCell v \<Rightarrow> Some v | _ \<Rightarrow> None)"

lemma as_LocalRef_cell [simp]: "as_LocalRef (LocalRefCell v) = Some v" by (simp add: as_LocalRef_def)

definition as_SecretKeyRef :: "'x cell \<Rightarrow> SecretKeyRef option" where
  "as_SecretKeyRef c = (case c of SecretKeyRefCell v \<Rightarrow> Some v | _ \<Rightarrow> None)"

lemma as_SecretKeyRef_cell [simp]: "as_SecretKeyRef (SecretKeyRefCell v) = Some v" by (simp add: as_SecretKeyRef_def)

definition as_EndpointStatus :: "'x cell \<Rightarrow> EndpointStatus option" where
  "as_EndpointStatus c = (case c of EndpointStatusCell v \<Rightarrow> Some v | _ \<Rightarrow> None)"

lemma as_EndpointStatus_cell [simp]: "as_EndpointStatus (EndpointStatusCell v) = Some v" by (simp add: as_EndpointStatus_def)

definition as_EngineSpec :: "'x cell \<Rightarrow> EngineSpec option" where
  "as_EngineSpec c = (case c of EngineSpecCell v \<Rightarrow> Some v | _ \<Rightarrow> None)"

lemma as_EngineSpec_cell [simp]: "as_EngineSpec (EngineSpecCell v) = Some v" by (simp add: as_EngineSpec_def)

definition as_PricingSpec :: "'x cell \<Rightarrow> PricingSpec option" where
  "as_PricingSpec c = (case c of PricingSpecCell v \<Rightarrow> Some v | _ \<Rightarrow> None)"

lemma as_PricingSpec_cell [simp]: "as_PricingSpec (PricingSpecCell v) = Some v" by (simp add: as_PricingSpec_def)

definition as_InfrastructureConfig :: "'x cell \<Rightarrow> InfrastructureConfig option" where
  "as_InfrastructureConfig c = (case c of InfrastructureConfigCell v \<Rightarrow> Some v | _ \<Rightarrow> None)"

lemma as_InfrastructureConfig_cell [simp]: "as_InfrastructureConfig (InfrastructureConfigCell v) = Some v" by (simp add: as_InfrastructureConfig_def)

definition as_EngineDefaults :: "'x cell \<Rightarrow> EngineDefaults option" where
  "as_EngineDefaults c = (case c of EngineDefaultsCell v \<Rightarrow> Some v | _ \<Rightarrow> None)"

lemma as_EngineDefaults_cell [simp]: "as_EngineDefaults (EngineDefaultsCell v) = Some v" by (simp add: as_EngineDefaults_def)

definition as_ConfidentialConfig :: "'x cell \<Rightarrow> ConfidentialConfig option" where
  "as_ConfidentialConfig c = (case c of ConfidentialConfigCell v \<Rightarrow> Some v | _ \<Rightarrow> None)"

lemma as_ConfidentialConfig_cell [simp]: "as_ConfidentialConfig (ConfidentialConfigCell v) = Some v" by (simp add: as_ConfidentialConfig_def)

definition as_BrukTenantSpec :: "'x cell \<Rightarrow> BrukTenantSpec option" where
  "as_BrukTenantSpec c = (case c of BrukTenantSpecCell v \<Rightarrow> Some v | _ \<Rightarrow> None)"

lemma as_BrukTenantSpec_cell [simp]: "as_BrukTenantSpec (BrukTenantSpecCell v) = Some v" by (simp add: as_BrukTenantSpec_def)

definition as_ResourcePair :: "'x cell \<Rightarrow> ('x mResourcePair) option" where
  "as_ResourcePair c = (case c of ResourcePairCell v \<Rightarrow> Some v | _ \<Rightarrow> None)"

lemma as_ResourcePair_cell [simp]: "as_ResourcePair (ResourcePairCell v) = Some v" by (simp add: as_ResourcePair_def)

definition as_WorkloadResources :: "'x cell \<Rightarrow> ('x mWorkloadResources) option" where
  "as_WorkloadResources c = (case c of WorkloadResourcesCell v \<Rightarrow> Some v | _ \<Rightarrow> None)"

lemma as_WorkloadResources_cell [simp]: "as_WorkloadResources (WorkloadResourcesCell v) = Some v" by (simp add: as_WorkloadResources_def)

definition as_LocalVolumeSpec :: "'x cell \<Rightarrow> ('x mLocalVolumeSpec) option" where
  "as_LocalVolumeSpec c = (case c of LocalVolumeSpecCell v \<Rightarrow> Some v | _ \<Rightarrow> None)"

lemma as_LocalVolumeSpec_cell [simp]: "as_LocalVolumeSpec (LocalVolumeSpecCell v) = Some v" by (simp add: as_LocalVolumeSpec_def)

definition as_TrustedStoreSpec :: "'x cell \<Rightarrow> mTrustedStoreSpec option" where
  "as_TrustedStoreSpec c = (case c of TrustedStoreSpecCell v \<Rightarrow> Some v | _ \<Rightarrow> None)"

lemma as_TrustedStoreSpec_cell [simp]: "as_TrustedStoreSpec (TrustedStoreSpecCell v) = Some v" by (simp add: as_TrustedStoreSpec_def)

definition as_WeightsCacheSpec :: "'x cell \<Rightarrow> mWeightsCacheSpec option" where
  "as_WeightsCacheSpec c = (case c of WeightsCacheSpecCell v \<Rightarrow> Some v | _ \<Rightarrow> None)"

lemma as_WeightsCacheSpec_cell [simp]: "as_WeightsCacheSpec (WeightsCacheSpecCell v) = Some v" by (simp add: as_WeightsCacheSpec_def)

definition as_StorageSpec :: "'x cell \<Rightarrow> mStorageSpec option" where
  "as_StorageSpec c = (case c of StorageSpecCell v \<Rightarrow> Some v | _ \<Rightarrow> None)"

lemma as_StorageSpec_cell [simp]: "as_StorageSpec (StorageSpecCell v) = Some v" by (simp add: as_StorageSpec_def)

definition as_ProbeOverrides :: "'x cell \<Rightarrow> mProbeOverrides option" where
  "as_ProbeOverrides c = (case c of ProbeOverridesCell v \<Rightarrow> Some v | _ \<Rightarrow> None)"

lemma as_ProbeOverrides_cell [simp]: "as_ProbeOverrides (ProbeOverridesCell v) = Some v" by (simp add: as_ProbeOverrides_def)

definition as_InferenceServiceSpec :: "'x cell \<Rightarrow> ('x mInferenceServiceSpec) option" where
  "as_InferenceServiceSpec c = (case c of InferenceServiceSpecCell v \<Rightarrow> Some v | _ \<Rightarrow> None)"

lemma as_InferenceServiceSpec_cell [simp]: "as_InferenceServiceSpec (InferenceServiceSpecCell v) = Some v" by (simp add: as_InferenceServiceSpec_def)

definition as_InferenceServiceStatus :: "'x cell \<Rightarrow> mInferenceServiceStatus option" where
  "as_InferenceServiceStatus c = (case c of InferenceServiceStatusCell v \<Rightarrow> Some v | _ \<Rightarrow> None)"

lemma as_InferenceServiceStatus_cell [simp]: "as_InferenceServiceStatus (InferenceServiceStatusCell v) = Some v" by (simp add: as_InferenceServiceStatus_def)

definition as_InferenceService :: "'x cell \<Rightarrow> ('x mInferenceService) option" where
  "as_InferenceService c = (case c of InferenceServiceCell v \<Rightarrow> Some v | _ \<Rightarrow> None)"

lemma as_InferenceService_cell [simp]: "as_InferenceService (InferenceServiceCell v) = Some v" by (simp add: as_InferenceService_def)

definition as_InferenceServiceList :: "'x cell \<Rightarrow> ('x mInferenceServiceList) option" where
  "as_InferenceServiceList c = (case c of InferenceServiceListCell v \<Rightarrow> Some v | _ \<Rightarrow> None)"

lemma as_InferenceServiceList_cell [simp]: "as_InferenceServiceList (InferenceServiceListCell v) = Some v" by (simp add: as_InferenceServiceList_def)

definition as_HuggingFaceSource :: "'x cell \<Rightarrow> mHuggingFaceSource option" where
  "as_HuggingFaceSource c = (case c of HuggingFaceSourceCell v \<Rightarrow> Some v | _ \<Rightarrow> None)"

lemma as_HuggingFaceSource_cell [simp]: "as_HuggingFaceSource (HuggingFaceSourceCell v) = Some v" by (simp add: as_HuggingFaceSource_def)

definition as_ModelSource :: "'x cell \<Rightarrow> mModelSource option" where
  "as_ModelSource c = (case c of ModelSourceCell v \<Rightarrow> Some v | _ \<Rightarrow> None)"

lemma as_ModelSource_cell [simp]: "as_ModelSource (ModelSourceCell v) = Some v" by (simp add: as_ModelSource_def)

definition as_CatalogSpec :: "'x cell \<Rightarrow> mCatalogSpec option" where
  "as_CatalogSpec c = (case c of CatalogSpecCell v \<Rightarrow> Some v | _ \<Rightarrow> None)"

lemma as_CatalogSpec_cell [simp]: "as_CatalogSpec (CatalogSpecCell v) = Some v" by (simp add: as_CatalogSpec_def)

definition as_BrukModelSpec :: "'x cell \<Rightarrow> mBrukModelSpec option" where
  "as_BrukModelSpec c = (case c of BrukModelSpecCell v \<Rightarrow> Some v | _ \<Rightarrow> None)"

lemma as_BrukModelSpec_cell [simp]: "as_BrukModelSpec (BrukModelSpecCell v) = Some v" by (simp add: as_BrukModelSpec_def)

definition as_BrukModelStatus :: "'x cell \<Rightarrow> mBrukModelStatus option" where
  "as_BrukModelStatus c = (case c of BrukModelStatusCell v \<Rightarrow> Some v | _ \<Rightarrow> None)"

lemma as_BrukModelStatus_cell [simp]: "as_BrukModelStatus (BrukModelStatusCell v) = Some v" by (simp add: as_BrukModelStatus_def)

definition as_BrukModel :: "'x cell \<Rightarrow> ('x mBrukModel) option" where
  "as_BrukModel c = (case c of BrukModelCell v \<Rightarrow> Some v | _ \<Rightarrow> None)"

lemma as_BrukModel_cell [simp]: "as_BrukModel (BrukModelCell v) = Some v" by (simp add: as_BrukModel_def)

definition as_BrukModelList :: "'x cell \<Rightarrow> ('x mBrukModelList) option" where
  "as_BrukModelList c = (case c of BrukModelListCell v \<Rightarrow> Some v | _ \<Rightarrow> None)"

lemma as_BrukModelList_cell [simp]: "as_BrukModelList (BrukModelListCell v) = Some v" by (simp add: as_BrukModelList_def)

definition as_BrukTenantStatus :: "'x cell \<Rightarrow> mBrukTenantStatus option" where
  "as_BrukTenantStatus c = (case c of BrukTenantStatusCell v \<Rightarrow> Some v | _ \<Rightarrow> None)"

lemma as_BrukTenantStatus_cell [simp]: "as_BrukTenantStatus (BrukTenantStatusCell v) = Some v" by (simp add: as_BrukTenantStatus_def)

definition as_BrukTenant :: "'x cell \<Rightarrow> ('x mBrukTenant) option" where
  "as_BrukTenant c = (case c of BrukTenantCell v \<Rightarrow> Some v | _ \<Rightarrow> None)"

lemma as_BrukTenant_cell [simp]: "as_BrukTenant (BrukTenantCell v) = Some v" by (simp add: as_BrukTenant_def)

definition as_BrukTenantList :: "'x cell \<Rightarrow> ('x mBrukTenantList) option" where
  "as_BrukTenantList c = (case c of BrukTenantListCell v \<Rightarrow> Some v | _ \<Rightarrow> None)"

lemma as_BrukTenantList_cell [simp]: "as_BrukTenantList (BrukTenantListCell v) = Some v" by (simp add: as_BrukTenantList_def)

text \<open>The types of the libraries.\<close>

record ListMeta =
  lm_ResourceVersion :: string
  lm_Continue :: string
  lm_RemainingItemCount :: "int64 option"

record 'x library =
  lb_ObjectMeta :: "'x \<Rightarrow> ('x cell, 'x) act"
  vl_ObjectMeta :: "'x cell mem \<Rightarrow> 'x \<Rightarrow> ObjectMeta option"
  rc_ObjectMeta :: "'x cell mem \<Rightarrow> 'x \<Rightarrow> addr set"
  lb_ListMeta :: "'x \<Rightarrow> ('x cell, 'x) act"
  vl_ListMeta :: "'x cell mem \<Rightarrow> 'x \<Rightarrow> ListMeta option"
  rc_ListMeta :: "'x cell mem \<Rightarrow> 'x \<Rightarrow> addr set"
  lb_Quantity :: "'x \<Rightarrow> ('x cell, 'x) act"
  vl_Quantity :: "'x cell mem \<Rightarrow> 'x \<Rightarrow> Quantity option"
  rc_Quantity :: "'x cell mem \<Rightarrow> 'x \<Rightarrow> addr set"
  lb_Condition :: "'x \<Rightarrow> ('x cell, 'x) act"
  vl_Condition :: "'x cell mem \<Rightarrow> 'x \<Rightarrow> Condition option"
  rc_Condition :: "'x cell mem \<Rightarrow> 'x \<Rightarrow> addr set"

subsection \<open>Structs without pointers\<close>

definition LocalRef_DeepCopyInto :: "LocalRef \<Rightarrow> ('x cell, LocalRef) act" where
  "LocalRef_DeepCopyInto inn = keep inn"

definition LocalRef_DeepCopy :: "addr option \<Rightarrow> ('x cell, addr option) act" where
  "LocalRef_DeepCopy = copyPointer Zeroed LocalRefCell as_LocalRef LocalRef_DeepCopyInto"

definition SecretKeyRef_DeepCopyInto :: "SecretKeyRef \<Rightarrow> ('x cell, SecretKeyRef) act" where
  "SecretKeyRef_DeepCopyInto inn = keep inn"

definition SecretKeyRef_DeepCopy :: "addr option \<Rightarrow> ('x cell, addr option) act" where
  "SecretKeyRef_DeepCopy = copyPointer Zeroed SecretKeyRefCell as_SecretKeyRef SecretKeyRef_DeepCopyInto"

definition EndpointStatus_DeepCopyInto :: "EndpointStatus \<Rightarrow> ('x cell, EndpointStatus) act" where
  "EndpointStatus_DeepCopyInto inn = keep inn"

definition EndpointStatus_DeepCopy :: "addr option \<Rightarrow> ('x cell, addr option) act" where
  "EndpointStatus_DeepCopy = copyPointer Zeroed EndpointStatusCell as_EndpointStatus EndpointStatus_DeepCopyInto"

definition EngineSpec_DeepCopyInto :: "EngineSpec \<Rightarrow> ('x cell, EngineSpec) act" where
  "EngineSpec_DeepCopyInto inn = keep inn"

definition EngineSpec_DeepCopy :: "addr option \<Rightarrow> ('x cell, addr option) act" where
  "EngineSpec_DeepCopy = copyPointer Zeroed EngineSpecCell as_EngineSpec EngineSpec_DeepCopyInto"

definition PricingSpec_DeepCopyInto :: "PricingSpec \<Rightarrow> ('x cell, PricingSpec) act" where
  "PricingSpec_DeepCopyInto inn = keep inn"

definition PricingSpec_DeepCopy :: "addr option \<Rightarrow> ('x cell, addr option) act" where
  "PricingSpec_DeepCopy = copyPointer Zeroed PricingSpecCell as_PricingSpec PricingSpec_DeepCopyInto"

definition InfrastructureConfig_DeepCopyInto :: "InfrastructureConfig \<Rightarrow> ('x cell, InfrastructureConfig) act" where
  "InfrastructureConfig_DeepCopyInto inn = keep inn"

definition InfrastructureConfig_DeepCopy :: "addr option \<Rightarrow> ('x cell, addr option) act" where
  "InfrastructureConfig_DeepCopy = copyPointer Zeroed InfrastructureConfigCell as_InfrastructureConfig InfrastructureConfig_DeepCopyInto"

definition EngineDefaults_DeepCopyInto :: "EngineDefaults \<Rightarrow> ('x cell, EngineDefaults) act" where
  "EngineDefaults_DeepCopyInto inn = keep inn"

definition EngineDefaults_DeepCopy :: "addr option \<Rightarrow> ('x cell, addr option) act" where
  "EngineDefaults_DeepCopy = copyPointer Zeroed EngineDefaultsCell as_EngineDefaults EngineDefaults_DeepCopyInto"

definition ConfidentialConfig_DeepCopyInto :: "ConfidentialConfig \<Rightarrow> ('x cell, ConfidentialConfig) act" where
  "ConfidentialConfig_DeepCopyInto inn = keep inn"

definition ConfidentialConfig_DeepCopy :: "addr option \<Rightarrow> ('x cell, addr option) act" where
  "ConfidentialConfig_DeepCopy = copyPointer Zeroed ConfidentialConfigCell as_ConfidentialConfig ConfidentialConfig_DeepCopyInto"

definition BrukTenantSpec_DeepCopyInto :: "BrukTenantSpec \<Rightarrow> ('x cell, BrukTenantSpec) act" where
  "BrukTenantSpec_DeepCopyInto inn = (let out = inn; out = out\<lparr>bts_Infrastructure := bts_Infrastructure inn\<rparr>;
          out = out\<lparr>bts_Engine := bts_Engine inn\<rparr>;
          out = out\<lparr>bts_Confidential := bts_Confidential inn\<rparr> in keep out)"

definition BrukTenantSpec_DeepCopy :: "addr option \<Rightarrow> ('x cell, addr option) act" where
  "BrukTenantSpec_DeepCopy = copyPointer Zeroed BrukTenantSpecCell as_BrukTenantSpec BrukTenantSpec_DeepCopyInto"

subsection \<open>Structs with pointers and slices\<close>

subsubsection \<open>\<open>InferenceService\<close>\<close>

definition ResourcePair_DeepCopyInto :: "'x library \<Rightarrow> 'x mResourcePair \<Rightarrow> ('x cell, 'x mResourcePair) act" where
  "ResourcePair_DeepCopyInto L inn =
     (let out = inn in
      andThen (lb_Quantity L (mrp_Limit inn))
        (\<lambda>c. let out = out\<lparr>mrp_Limit := c\<rparr> in
      andThen (copyValue QuantityCell as_Quantity (lb_Quantity L) (mrp_Request inn))
        (\<lambda>c. keep (out\<lparr>mrp_Request := c\<rparr>))))"

definition ResourcePair_DeepCopy :: "'x library \<Rightarrow> addr option \<Rightarrow> ('x cell, addr option) act" where
  "ResourcePair_DeepCopy L = copyPointer Zeroed ResourcePairCell as_ResourcePair (ResourcePair_DeepCopyInto L)"

definition WorkloadResources_DeepCopyInto :: "'x library \<Rightarrow> 'x mWorkloadResources \<Rightarrow> ('x cell, 'x mWorkloadResources) act" where
  "WorkloadResources_DeepCopyInto L inn =
     (let out = inn in
      andThen (ResourcePair_DeepCopyInto L (mwr_Memory inn))
        (\<lambda>c. let out = out\<lparr>mwr_Memory := c\<rparr> in
      andThen (ResourcePair_DeepCopyInto L (mwr_CPU inn))
        (\<lambda>c. keep (out\<lparr>mwr_CPU := c\<rparr>))))"

definition WorkloadResources_DeepCopy :: "'x library \<Rightarrow> addr option \<Rightarrow> ('x cell, addr option) act" where
  "WorkloadResources_DeepCopy L = copyPointer Zeroed WorkloadResourcesCell as_WorkloadResources (WorkloadResources_DeepCopyInto L)"

definition LocalVolumeSpec_DeepCopyInto :: "'x library \<Rightarrow> 'x mLocalVolumeSpec \<Rightarrow> ('x cell, 'x mLocalVolumeSpec) act" where
  "LocalVolumeSpec_DeepCopyInto L inn =
     (let out = inn in
      andThen (lb_Quantity L (mlv_Size inn)) (\<lambda>c. keep (out\<lparr>mlv_Size := c\<rparr>)))"

definition LocalVolumeSpec_DeepCopy :: "'x library \<Rightarrow> addr option \<Rightarrow> ('x cell, addr option) act" where
  "LocalVolumeSpec_DeepCopy L = copyPointer Zeroed LocalVolumeSpecCell as_LocalVolumeSpec (LocalVolumeSpec_DeepCopyInto L)"

definition TrustedStoreSpec_DeepCopyInto :: "'x library \<Rightarrow> mTrustedStoreSpec \<Rightarrow> ('x cell, mTrustedStoreSpec) act" where
  "TrustedStoreSpec_DeepCopyInto L inn =
     (let out = inn in
      andThen (copyPointer Zeroed LocalVolumeSpecCell as_LocalVolumeSpec (LocalVolumeSpec_DeepCopyInto L) (mts_LocalVolume inn))
        (\<lambda>c. keep (out\<lparr>mts_LocalVolume := c\<rparr>)))"

definition TrustedStoreSpec_DeepCopy :: "'x library \<Rightarrow> addr option \<Rightarrow> ('x cell, addr option) act" where
  "TrustedStoreSpec_DeepCopy L = copyPointer Zeroed TrustedStoreSpecCell as_TrustedStoreSpec (TrustedStoreSpec_DeepCopyInto L)"

definition WeightsCacheSpec_DeepCopyInto :: "'x library \<Rightarrow> mWeightsCacheSpec \<Rightarrow> ('x cell, mWeightsCacheSpec) act" where
  "WeightsCacheSpec_DeepCopyInto L inn =
     (let out = inn in
      andThen (copyValue QuantityCell as_Quantity (lb_Quantity L) (mwc_SizeLimit inn))
        (\<lambda>c. keep (out\<lparr>mwc_SizeLimit := c\<rparr>)))"

definition WeightsCacheSpec_DeepCopy :: "'x library \<Rightarrow> addr option \<Rightarrow> ('x cell, addr option) act" where
  "WeightsCacheSpec_DeepCopy L = copyPointer Zeroed WeightsCacheSpecCell as_WeightsCacheSpec (WeightsCacheSpec_DeepCopyInto L)"

definition StorageSpec_DeepCopyInto :: "'x library \<Rightarrow> mStorageSpec \<Rightarrow> ('x cell, mStorageSpec) act" where
  "StorageSpec_DeepCopyInto L inn =
     (let out = inn in
      andThen (TrustedStoreSpec_DeepCopyInto L (mst_TrustedStore inn))
        (\<lambda>c. let out = out\<lparr>mst_TrustedStore := c\<rparr> in
      andThen (copyPointer Zeroed WeightsCacheSpecCell as_WeightsCacheSpec (WeightsCacheSpec_DeepCopyInto L) (mst_WeightsCache inn))
        (\<lambda>c. keep (out\<lparr>mst_WeightsCache := c\<rparr>))))"

definition StorageSpec_DeepCopy :: "'x library \<Rightarrow> addr option \<Rightarrow> ('x cell, addr option) act" where
  "StorageSpec_DeepCopy L = copyPointer Zeroed StorageSpecCell as_StorageSpec (StorageSpec_DeepCopyInto L)"

definition ProbeOverrides_DeepCopyInto :: "mProbeOverrides \<Rightarrow> ('x cell, mProbeOverrides) act" where
  "ProbeOverrides_DeepCopyInto inn =
     (let out = inn in
      andThen (copyPointer Zeroed Int32Cell as_Int32 keep (mpo_ReadinessFailureThreshold inn))
        (\<lambda>c. keep (out\<lparr>mpo_ReadinessFailureThreshold := c\<rparr>)))"

definition ProbeOverrides_DeepCopy :: "addr option \<Rightarrow> ('x cell, addr option) act" where
  "ProbeOverrides_DeepCopy = copyPointer Zeroed ProbeOverridesCell as_ProbeOverrides ProbeOverrides_DeepCopyInto"

definition InferenceServiceSpec_DeepCopyInto :: "'x library \<Rightarrow> 'x mInferenceServiceSpec \<Rightarrow> ('x cell, 'x mInferenceServiceSpec) act" where
  "InferenceServiceSpec_DeepCopyInto L inn =
     (let out = inn; out = out\<lparr>miss_ModelRef := miss_ModelRef inn\<rparr>; out = out\<lparr>miss_Engine := miss_Engine inn\<rparr> in
      andThen (WorkloadResources_DeepCopyInto L (miss_Resources inn))
        (\<lambda>c. let out = out\<lparr>miss_Resources := c\<rparr> in
      andThen (StorageSpec_DeepCopyInto L (miss_Storage inn))
        (\<lambda>c. let out = out\<lparr>miss_Storage := c\<rparr> in
      andThen (copyPointer Zeroed ProbeOverridesCell as_ProbeOverrides ProbeOverrides_DeepCopyInto (miss_Probes inn))
        (\<lambda>c. keep (out\<lparr>miss_Probes := c\<rparr>)))))"

definition InferenceServiceSpec_DeepCopy :: "'x library \<Rightarrow> addr option \<Rightarrow> ('x cell, addr option) act" where
  "InferenceServiceSpec_DeepCopy L = copyPointer Zeroed InferenceServiceSpecCell as_InferenceServiceSpec (InferenceServiceSpec_DeepCopyInto L)"

definition InferenceServiceStatus_DeepCopyInto :: "'x library \<Rightarrow> mInferenceServiceStatus \<Rightarrow> ('x cell, mInferenceServiceStatus) act" where
  "InferenceServiceStatus_DeepCopyInto L inn =
     (let out = inn in
      andThen (copySlice Zeroed ConditionsCell as_Conditions (lb_Condition L) (mist_Conditions inn))
        (\<lambda>c. let out = out\<lparr>mist_Conditions := c\<rparr> in
      andThen (copyPointer Zeroed EndpointStatusCell as_EndpointStatus keep (mist_Endpoint inn))
        (\<lambda>c. keep (out\<lparr>mist_Endpoint := c\<rparr>))))"

definition InferenceServiceStatus_DeepCopy :: "'x library \<Rightarrow> addr option \<Rightarrow> ('x cell, addr option) act" where
  "InferenceServiceStatus_DeepCopy L = copyPointer Zeroed InferenceServiceStatusCell as_InferenceServiceStatus (InferenceServiceStatus_DeepCopyInto L)"

definition InferenceService_DeepCopyInto :: "'x library \<Rightarrow> 'x mInferenceService \<Rightarrow> ('x cell, 'x mInferenceService) act" where
  "InferenceService_DeepCopyInto L inn =
     (let out = inn; out = out\<lparr>mis_TypeMeta := mis_TypeMeta inn\<rparr> in
      andThen (lb_ObjectMeta L (mis_ObjectMeta inn))
        (\<lambda>c. let out = out\<lparr>mis_ObjectMeta := c\<rparr> in
      andThen (InferenceServiceSpec_DeepCopyInto L (mis_Spec inn))
        (\<lambda>c. let out = out\<lparr>mis_Spec := c\<rparr> in
      andThen (InferenceServiceStatus_DeepCopyInto L (mis_Status inn))
        (\<lambda>c. keep (out\<lparr>mis_Status := c\<rparr>)))))"

definition InferenceService_DeepCopy :: "'x library \<Rightarrow> addr option \<Rightarrow> ('x cell, addr option) act" where
  "InferenceService_DeepCopy L = copyPointer Zeroed InferenceServiceCell as_InferenceService (InferenceService_DeepCopyInto L)"

definition InferenceServiceList_DeepCopyInto :: "'x library \<Rightarrow> 'x mInferenceServiceList \<Rightarrow> ('x cell, 'x mInferenceServiceList) act" where
  "InferenceServiceList_DeepCopyInto L inn =
     (let out = inn; out = out\<lparr>misl_TypeMeta := misl_TypeMeta inn\<rparr> in
      andThen (lb_ListMeta L (misl_ListMeta inn))
        (\<lambda>c. let out = out\<lparr>misl_ListMeta := c\<rparr> in
      andThen (copySlice Zeroed InferenceServicesCell as_InferenceServices (InferenceService_DeepCopyInto L) (misl_Items inn))
        (\<lambda>c. keep (out\<lparr>misl_Items := c\<rparr>))))"

definition InferenceServiceList_DeepCopy :: "'x library \<Rightarrow> addr option \<Rightarrow> ('x cell, addr option) act" where
  "InferenceServiceList_DeepCopy L = copyPointer Zeroed InferenceServiceListCell as_InferenceServiceList (InferenceServiceList_DeepCopyInto L)"

subsubsection \<open>\<open>BrukModel\<close>\<close>

definition HuggingFaceSource_DeepCopyInto :: "mHuggingFaceSource \<Rightarrow> ('x cell, mHuggingFaceSource) act" where
  "HuggingFaceSource_DeepCopyInto inn =
     (let out = inn in
      andThen (copyPointer Zeroed SecretKeyRefCell as_SecretKeyRef keep (mhf_TokenSecretRef inn))
        (\<lambda>c. keep (out\<lparr>mhf_TokenSecretRef := c\<rparr>)))"

definition HuggingFaceSource_DeepCopy :: "addr option \<Rightarrow> ('x cell, addr option) act" where
  "HuggingFaceSource_DeepCopy = copyPointer Zeroed HuggingFaceSourceCell as_HuggingFaceSource HuggingFaceSource_DeepCopyInto"

definition ModelSource_DeepCopyInto :: "mModelSource \<Rightarrow> ('x cell, mModelSource) act" where
  "ModelSource_DeepCopyInto inn =
     (let out = inn in
      andThen (copyPointer Zeroed HuggingFaceSourceCell as_HuggingFaceSource HuggingFaceSource_DeepCopyInto (mms_HuggingFace inn))
        (\<lambda>c. keep (out\<lparr>mms_HuggingFace := c\<rparr>)))"

definition ModelSource_DeepCopy :: "addr option \<Rightarrow> ('x cell, addr option) act" where
  "ModelSource_DeepCopy = copyPointer Zeroed ModelSourceCell as_ModelSource ModelSource_DeepCopyInto"

definition CatalogSpec_DeepCopyInto :: "mCatalogSpec \<Rightarrow> ('x cell, mCatalogSpec) act" where
  "CatalogSpec_DeepCopyInto inn =
     (let out = inn in
      andThen (copySlice Zeroed ModalitiesCell as_Modalities keep (mcat_InputModalities inn))
        (\<lambda>c. let out = out\<lparr>mcat_InputModalities := c\<rparr> in
      andThen (copySlice Zeroed ModalitiesCell as_Modalities keep (mcat_OutputModalities inn))
        (\<lambda>c. let out = out\<lparr>mcat_OutputModalities := c\<rparr> in
      andThen (copySlice Zeroed ModelFeaturesCell as_ModelFeatures keep (mcat_Features inn))
        (\<lambda>c. let out = out\<lparr>mcat_Features := c\<rparr> in
      andThen (copyPointer Zeroed PricingSpecCell as_PricingSpec keep (mcat_Pricing inn))
        (\<lambda>c. keep (out\<lparr>mcat_Pricing := c\<rparr>))))))"

definition CatalogSpec_DeepCopy :: "addr option \<Rightarrow> ('x cell, addr option) act" where
  "CatalogSpec_DeepCopy = copyPointer Zeroed CatalogSpecCell as_CatalogSpec CatalogSpec_DeepCopyInto"

definition BrukModelSpec_DeepCopyInto :: "mBrukModelSpec \<Rightarrow> ('x cell, mBrukModelSpec) act" where
  "BrukModelSpec_DeepCopyInto inn =
     (let out = inn in
      andThen (ModelSource_DeepCopyInto (mbms_Source inn))
        (\<lambda>c. let out = out\<lparr>mbms_Source := c\<rparr> in
      andThen (CatalogSpec_DeepCopyInto (mbms_Catalog inn))
        (\<lambda>c. keep (out\<lparr>mbms_Catalog := c\<rparr>))))"

definition BrukModelSpec_DeepCopy :: "addr option \<Rightarrow> ('x cell, addr option) act" where
  "BrukModelSpec_DeepCopy = copyPointer Zeroed BrukModelSpecCell as_BrukModelSpec BrukModelSpec_DeepCopyInto"

definition BrukModelStatus_DeepCopyInto :: "'x library \<Rightarrow> mBrukModelStatus \<Rightarrow> ('x cell, mBrukModelStatus) act" where
  "BrukModelStatus_DeepCopyInto L inn =
     (let out = inn in
      andThen (copySlice Zeroed ConditionsCell as_Conditions (lb_Condition L) (mbmst_Conditions inn))
        (\<lambda>c. keep (out\<lparr>mbmst_Conditions := c\<rparr>)))"

definition BrukModelStatus_DeepCopy :: "'x library \<Rightarrow> addr option \<Rightarrow> ('x cell, addr option) act" where
  "BrukModelStatus_DeepCopy L = copyPointer Zeroed BrukModelStatusCell as_BrukModelStatus (BrukModelStatus_DeepCopyInto L)"

definition BrukModel_DeepCopyInto :: "'x library \<Rightarrow> 'x mBrukModel \<Rightarrow> ('x cell, 'x mBrukModel) act" where
  "BrukModel_DeepCopyInto L inn =
     (let out = inn; out = out\<lparr>mbm_TypeMeta := mbm_TypeMeta inn\<rparr> in
      andThen (lb_ObjectMeta L (mbm_ObjectMeta inn))
        (\<lambda>c. let out = out\<lparr>mbm_ObjectMeta := c\<rparr> in
      andThen (BrukModelSpec_DeepCopyInto (mbm_Spec inn))
        (\<lambda>c. let out = out\<lparr>mbm_Spec := c\<rparr> in
      andThen (BrukModelStatus_DeepCopyInto L (mbm_Status inn))
        (\<lambda>c. keep (out\<lparr>mbm_Status := c\<rparr>)))))"

definition BrukModel_DeepCopy :: "'x library \<Rightarrow> addr option \<Rightarrow> ('x cell, addr option) act" where
  "BrukModel_DeepCopy L = copyPointer Zeroed BrukModelCell as_BrukModel (BrukModel_DeepCopyInto L)"

definition BrukModelList_DeepCopyInto :: "'x library \<Rightarrow> 'x mBrukModelList \<Rightarrow> ('x cell, 'x mBrukModelList) act" where
  "BrukModelList_DeepCopyInto L inn =
     (let out = inn; out = out\<lparr>mbml_TypeMeta := mbml_TypeMeta inn\<rparr> in
      andThen (lb_ListMeta L (mbml_ListMeta inn))
        (\<lambda>c. let out = out\<lparr>mbml_ListMeta := c\<rparr> in
      andThen (copySlice Zeroed BrukModelsCell as_BrukModels (BrukModel_DeepCopyInto L) (mbml_Items inn))
        (\<lambda>c. keep (out\<lparr>mbml_Items := c\<rparr>))))"

definition BrukModelList_DeepCopy :: "'x library \<Rightarrow> addr option \<Rightarrow> ('x cell, addr option) act" where
  "BrukModelList_DeepCopy L = copyPointer Zeroed BrukModelListCell as_BrukModelList (BrukModelList_DeepCopyInto L)"

subsubsection \<open>\<open>BrukTenant\<close>\<close>

definition BrukTenantStatus_DeepCopyInto :: "'x library \<Rightarrow> mBrukTenantStatus \<Rightarrow> ('x cell, mBrukTenantStatus) act" where
  "BrukTenantStatus_DeepCopyInto L inn =
     (let out = inn in
      andThen (copySlice Zeroed ConditionsCell as_Conditions (lb_Condition L) (mbtst_Conditions inn))
        (\<lambda>c. keep (out\<lparr>mbtst_Conditions := c\<rparr>)))"

definition BrukTenantStatus_DeepCopy :: "'x library \<Rightarrow> addr option \<Rightarrow> ('x cell, addr option) act" where
  "BrukTenantStatus_DeepCopy L = copyPointer Zeroed BrukTenantStatusCell as_BrukTenantStatus (BrukTenantStatus_DeepCopyInto L)"

definition BrukTenant_DeepCopyInto :: "'x library \<Rightarrow> 'x mBrukTenant \<Rightarrow> ('x cell, 'x mBrukTenant) act" where
  "BrukTenant_DeepCopyInto L inn =
     (let out = inn; out = out\<lparr>mbt_TypeMeta := mbt_TypeMeta inn\<rparr> in
      andThen (lb_ObjectMeta L (mbt_ObjectMeta inn))
        (\<lambda>c. let out = out\<lparr>mbt_ObjectMeta := c\<rparr> in
      let out = out\<lparr>mbt_Spec := mbt_Spec inn\<rparr> in
      andThen (BrukTenantStatus_DeepCopyInto L (mbt_Status inn))
        (\<lambda>c. keep (out\<lparr>mbt_Status := c\<rparr>))))"

definition BrukTenant_DeepCopy :: "'x library \<Rightarrow> addr option \<Rightarrow> ('x cell, addr option) act" where
  "BrukTenant_DeepCopy L = copyPointer Zeroed BrukTenantCell as_BrukTenant (BrukTenant_DeepCopyInto L)"

definition BrukTenantList_DeepCopyInto :: "'x library \<Rightarrow> 'x mBrukTenantList \<Rightarrow> ('x cell, 'x mBrukTenantList) act" where
  "BrukTenantList_DeepCopyInto L inn =
     (let out = inn; out = out\<lparr>mbtl_TypeMeta := mbtl_TypeMeta inn\<rparr> in
      andThen (lb_ListMeta L (mbtl_ListMeta inn))
        (\<lambda>c. let out = out\<lparr>mbtl_ListMeta := c\<rparr> in
      andThen (copySlice Zeroed BrukTenantsCell as_BrukTenants (BrukTenant_DeepCopyInto L) (mbtl_Items inn))
        (\<lambda>c. keep (out\<lparr>mbtl_Items := c\<rparr>))))"

definition BrukTenantList_DeepCopy :: "'x library \<Rightarrow> addr option \<Rightarrow> ('x cell, addr option) act" where
  "BrukTenantList_DeepCopy L = copyPointer Zeroed BrukTenantListCell as_BrukTenantList (BrukTenantList_DeepCopyInto L)"

subsection \<open>Objects of the scheme\<close>

text \<open>A non-nil \<open>runtime.Object\<close>: the dynamic type and the address.\<close>

datatype runtime_Object =
    InferenceServiceObject addr
  | InferenceServiceListObject addr
  | BrukModelObject addr
  | BrukModelListObject addr
  | BrukTenantObject addr
  | BrukTenantListObject addr

definition InferenceService_DeepCopyObject :: "'x library \<Rightarrow> addr option \<Rightarrow> ('x cell, runtime_Object option) act" where
  "InferenceService_DeepCopyObject L p =
     andThen (InferenceService_DeepCopy L p) (\<lambda>c. keep (case c of Some a \<Rightarrow> Some (InferenceServiceObject a) | None \<Rightarrow> None))"

definition InferenceServiceList_DeepCopyObject :: "'x library \<Rightarrow> addr option \<Rightarrow> ('x cell, runtime_Object option) act" where
  "InferenceServiceList_DeepCopyObject L p =
     andThen (InferenceServiceList_DeepCopy L p) (\<lambda>c. keep (case c of Some a \<Rightarrow> Some (InferenceServiceListObject a) | None \<Rightarrow> None))"

definition BrukModel_DeepCopyObject :: "'x library \<Rightarrow> addr option \<Rightarrow> ('x cell, runtime_Object option) act" where
  "BrukModel_DeepCopyObject L p =
     andThen (BrukModel_DeepCopy L p) (\<lambda>c. keep (case c of Some a \<Rightarrow> Some (BrukModelObject a) | None \<Rightarrow> None))"

definition BrukModelList_DeepCopyObject :: "'x library \<Rightarrow> addr option \<Rightarrow> ('x cell, runtime_Object option) act" where
  "BrukModelList_DeepCopyObject L p =
     andThen (BrukModelList_DeepCopy L p) (\<lambda>c. keep (case c of Some a \<Rightarrow> Some (BrukModelListObject a) | None \<Rightarrow> None))"

definition BrukTenant_DeepCopyObject :: "'x library \<Rightarrow> addr option \<Rightarrow> ('x cell, runtime_Object option) act" where
  "BrukTenant_DeepCopyObject L p =
     andThen (BrukTenant_DeepCopy L p) (\<lambda>c. keep (case c of Some a \<Rightarrow> Some (BrukTenantObject a) | None \<Rightarrow> None))"

definition BrukTenantList_DeepCopyObject :: "'x library \<Rightarrow> addr option \<Rightarrow> ('x cell, runtime_Object option) act" where
  "BrukTenantList_DeepCopyObject L p =
     andThen (BrukTenantList_DeepCopy L p) (\<lambda>c. keep (case c of Some a \<Rightarrow> Some (BrukTenantListObject a) | None \<Rightarrow> None))"

end
