(* ===== verification/DeepCopyProps.thy ===== *)
theory DeepCopyProps
  imports DeepCopy
begin

text \<open>
  The generated copies are deep: of every type, a copy stands for the same value, leaves the
  memory it was made in as it was, and reaches only memory of its own. First the value of each
  struct in memory, as the record of \<open>ApiTypes\<close> (with the \<open>TypeMeta\<close> of an object, which those
  records leave out), and the addresses it depends on; then one copier lemma per type.
\<close>

subsection \<open>Values and reach\<close>

definition val_ResourcePair :: "'x library \<Rightarrow> 'x cell mem \<Rightarrow> 'x mResourcePair \<Rightarrow> (ResourcePair) option" where
  "val_ResourcePair L m x =
     (case (vl_Quantity L m (mrp_Limit x),
            val_pointer as_Quantity (vl_Quantity L) m (mrp_Request x)) of
        (Some v1, Some v2) \<Rightarrow>
          Some \<lparr>rp_Limit = v1, rp_Request = v2\<rparr>
      | _ \<Rightarrow> None)"

definition reach_ResourcePair :: "'x library \<Rightarrow> 'x cell mem \<Rightarrow> 'x mResourcePair \<Rightarrow> addr set" where
  "reach_ResourcePair L m x =
     rc_Quantity L m (mrp_Limit x) \<union>
     reach_pointer as_Quantity (rc_Quantity L) m (mrp_Request x)"

definition val_WorkloadResources :: "'x library \<Rightarrow> 'x cell mem \<Rightarrow> 'x mWorkloadResources \<Rightarrow> (WorkloadResources) option" where
  "val_WorkloadResources L m x =
     (case (val_ResourcePair L m (mwr_Memory x),
            val_ResourcePair L m (mwr_CPU x)) of
        (Some v1, Some v2) \<Rightarrow>
          Some \<lparr>wr_GPUs = mwr_GPUs x, wr_Memory = v1, wr_CPU = v2\<rparr>
      | _ \<Rightarrow> None)"

definition reach_WorkloadResources :: "'x library \<Rightarrow> 'x cell mem \<Rightarrow> 'x mWorkloadResources \<Rightarrow> addr set" where
  "reach_WorkloadResources L m x =
     reach_ResourcePair L m (mwr_Memory x) \<union>
     reach_ResourcePair L m (mwr_CPU x)"

definition val_LocalVolumeSpec :: "'x library \<Rightarrow> 'x cell mem \<Rightarrow> 'x mLocalVolumeSpec \<Rightarrow> (LocalVolumeSpec) option" where
  "val_LocalVolumeSpec L m x =
     (case vl_Quantity L m (mlv_Size x) of None \<Rightarrow> None
      | Some v1 \<Rightarrow> Some \<lparr>lv_LVName = mlv_LVName x, lv_Size = v1\<rparr>)"

definition reach_LocalVolumeSpec :: "'x library \<Rightarrow> 'x cell mem \<Rightarrow> 'x mLocalVolumeSpec \<Rightarrow> addr set" where
  "reach_LocalVolumeSpec L m x =
     rc_Quantity L m (mlv_Size x)"

definition val_TrustedStoreSpec :: "'x library \<Rightarrow> 'x cell mem \<Rightarrow> mTrustedStoreSpec \<Rightarrow> (TrustedStoreSpec) option" where
  "val_TrustedStoreSpec L m x =
     (case val_pointer as_LocalVolumeSpec (val_LocalVolumeSpec L) m (mts_LocalVolume x) of None \<Rightarrow> None
      | Some v1 \<Rightarrow> Some \<lparr>ts_ExistingClaim = mts_ExistingClaim x, ts_LocalVolume = v1\<rparr>)"

definition reach_TrustedStoreSpec :: "'x library \<Rightarrow> 'x cell mem \<Rightarrow> mTrustedStoreSpec \<Rightarrow> addr set" where
  "reach_TrustedStoreSpec L m x =
     reach_pointer as_LocalVolumeSpec (reach_LocalVolumeSpec L) m (mts_LocalVolume x)"

definition val_WeightsCacheSpec :: "'x library \<Rightarrow> 'x cell mem \<Rightarrow> mWeightsCacheSpec \<Rightarrow> (WeightsCacheSpec) option" where
  "val_WeightsCacheSpec L m x =
     (case val_pointer as_Quantity (vl_Quantity L) m (mwc_SizeLimit x) of None \<Rightarrow> None
      | Some v1 \<Rightarrow> Some \<lparr>wc_SizeLimit = v1\<rparr>)"

definition reach_WeightsCacheSpec :: "'x library \<Rightarrow> 'x cell mem \<Rightarrow> mWeightsCacheSpec \<Rightarrow> addr set" where
  "reach_WeightsCacheSpec L m x =
     reach_pointer as_Quantity (rc_Quantity L) m (mwc_SizeLimit x)"

definition val_StorageSpec :: "'x library \<Rightarrow> 'x cell mem \<Rightarrow> mStorageSpec \<Rightarrow> (StorageSpec) option" where
  "val_StorageSpec L m x =
     (case (val_TrustedStoreSpec L m (mst_TrustedStore x),
            val_pointer as_WeightsCacheSpec (val_WeightsCacheSpec L) m (mst_WeightsCache x)) of
        (Some v1, Some v2) \<Rightarrow>
          Some \<lparr>st_TrustedStore = v1, st_WeightsCache = v2\<rparr>
      | _ \<Rightarrow> None)"

definition reach_StorageSpec :: "'x library \<Rightarrow> 'x cell mem \<Rightarrow> mStorageSpec \<Rightarrow> addr set" where
  "reach_StorageSpec L m x =
     reach_TrustedStoreSpec L m (mst_TrustedStore x) \<union>
     reach_pointer as_WeightsCacheSpec (reach_WeightsCacheSpec L) m (mst_WeightsCache x)"

definition val_ProbeOverrides :: "'x cell mem \<Rightarrow> mProbeOverrides \<Rightarrow> (ProbeOverrides) option" where
  "val_ProbeOverrides m x =
     (case val_pointer as_Int32 val_plain m (mpo_ReadinessFailureThreshold x) of None \<Rightarrow> None
      | Some v1 \<Rightarrow> Some \<lparr>po_ReadinessFailureThreshold = v1\<rparr>)"

definition reach_ProbeOverrides :: "'x cell mem \<Rightarrow> mProbeOverrides \<Rightarrow> addr set" where
  "reach_ProbeOverrides m x =
     reach_pointer as_Int32 reach_plain m (mpo_ReadinessFailureThreshold x)"

definition val_InferenceServiceSpec :: "'x library \<Rightarrow> 'x cell mem \<Rightarrow> 'x mInferenceServiceSpec \<Rightarrow> (InferenceServiceSpec) option" where
  "val_InferenceServiceSpec L m x =
     (case (val_WorkloadResources L m (miss_Resources x),
            val_StorageSpec L m (miss_Storage x),
            val_pointer as_ProbeOverrides val_ProbeOverrides m (miss_Probes x)) of
        (Some v1, Some v2, Some v3) \<Rightarrow>
          Some \<lparr>iss_ModelRef = miss_ModelRef x, iss_Engine = miss_Engine x, iss_Resources = v1, iss_Storage = v2, iss_Probes = v3\<rparr>
      | _ \<Rightarrow> None)"

definition reach_InferenceServiceSpec :: "'x library \<Rightarrow> 'x cell mem \<Rightarrow> 'x mInferenceServiceSpec \<Rightarrow> addr set" where
  "reach_InferenceServiceSpec L m x =
     reach_WorkloadResources L m (miss_Resources x) \<union>
     reach_StorageSpec L m (miss_Storage x) \<union>
     reach_pointer as_ProbeOverrides reach_ProbeOverrides m (miss_Probes x)"

definition val_InferenceServiceStatus :: "'x library \<Rightarrow> 'x cell mem \<Rightarrow> mInferenceServiceStatus \<Rightarrow> (InferenceServiceStatus) option" where
  "val_InferenceServiceStatus L m x =
     (case (val_slice as_Conditions (vl_Condition L) m (mist_Conditions x),
            val_pointer as_EndpointStatus val_plain m (mist_Endpoint x)) of
        (Some v1, Some v2) \<Rightarrow>
          Some \<lparr>ist_ObservedGeneration = mist_ObservedGeneration x, ist_Conditions = v1, ist_Endpoint = v2, ist_ServedModelName = mist_ServedModelName x, ist_ResolvedImage = mist_ResolvedImage x, ist_AppliedInitDataHash = mist_AppliedInitDataHash x\<rparr>
      | _ \<Rightarrow> None)"

definition reach_InferenceServiceStatus :: "'x library \<Rightarrow> 'x cell mem \<Rightarrow> mInferenceServiceStatus \<Rightarrow> addr set" where
  "reach_InferenceServiceStatus L m x =
     reach_slice as_Conditions (rc_Condition L) m (mist_Conditions x) \<union>
     reach_pointer as_EndpointStatus reach_plain m (mist_Endpoint x)"

definition val_InferenceService :: "'x library \<Rightarrow> 'x cell mem \<Rightarrow> 'x mInferenceService \<Rightarrow> (TypeMeta \<times> InferenceService) option" where
  "val_InferenceService L m x =
     (case (vl_ObjectMeta L m (mis_ObjectMeta x),
            val_InferenceServiceSpec L m (mis_Spec x),
            val_InferenceServiceStatus L m (mis_Status x)) of
        (Some v1, Some v2, Some v3) \<Rightarrow>
          Some (mis_TypeMeta x, \<lparr>is_Meta = v1, is_Spec = v2, is_Status = v3\<rparr>)
      | _ \<Rightarrow> None)"

definition reach_InferenceService :: "'x library \<Rightarrow> 'x cell mem \<Rightarrow> 'x mInferenceService \<Rightarrow> addr set" where
  "reach_InferenceService L m x =
     rc_ObjectMeta L m (mis_ObjectMeta x) \<union>
     reach_InferenceServiceSpec L m (mis_Spec x) \<union>
     reach_InferenceServiceStatus L m (mis_Status x)"

definition val_InferenceServiceList :: "'x library \<Rightarrow> 'x cell mem \<Rightarrow> 'x mInferenceServiceList \<Rightarrow> (TypeMeta \<times> ListMeta \<times> (TypeMeta \<times> InferenceService) list) option" where
  "val_InferenceServiceList L m x =
     (case (vl_ListMeta L m (misl_ListMeta x),
            val_slice as_InferenceServices (val_InferenceService L) m (misl_Items x)) of
        (Some v1, Some v2) \<Rightarrow>
          Some (misl_TypeMeta x, v1, v2)
      | _ \<Rightarrow> None)"

definition reach_InferenceServiceList :: "'x library \<Rightarrow> 'x cell mem \<Rightarrow> 'x mInferenceServiceList \<Rightarrow> addr set" where
  "reach_InferenceServiceList L m x =
     rc_ListMeta L m (misl_ListMeta x) \<union>
     reach_slice as_InferenceServices (reach_InferenceService L) m (misl_Items x)"

definition val_HuggingFaceSource :: "'x cell mem \<Rightarrow> mHuggingFaceSource \<Rightarrow> (HuggingFaceSource) option" where
  "val_HuggingFaceSource m x =
     (case val_pointer as_SecretKeyRef val_plain m (mhf_TokenSecretRef x) of None \<Rightarrow> None
      | Some v1 \<Rightarrow> Some \<lparr>hf_Repo = mhf_Repo x, hf_Revision = mhf_Revision x, hf_TokenSecretRef = v1\<rparr>)"

definition reach_HuggingFaceSource :: "'x cell mem \<Rightarrow> mHuggingFaceSource \<Rightarrow> addr set" where
  "reach_HuggingFaceSource m x =
     reach_pointer as_SecretKeyRef reach_plain m (mhf_TokenSecretRef x)"

definition val_ModelSource :: "'x cell mem \<Rightarrow> mModelSource \<Rightarrow> (ModelSource) option" where
  "val_ModelSource m x =
     (case val_pointer as_HuggingFaceSource val_HuggingFaceSource m (mms_HuggingFace x) of None \<Rightarrow> None
      | Some v1 \<Rightarrow> Some \<lparr>ms_HuggingFace = v1\<rparr>)"

definition reach_ModelSource :: "'x cell mem \<Rightarrow> mModelSource \<Rightarrow> addr set" where
  "reach_ModelSource m x =
     reach_pointer as_HuggingFaceSource reach_HuggingFaceSource m (mms_HuggingFace x)"

definition val_CatalogSpec :: "'x cell mem \<Rightarrow> mCatalogSpec \<Rightarrow> (CatalogSpec) option" where
  "val_CatalogSpec m x =
     (case (val_slice as_Modalities val_plain m (mcat_InputModalities x),
            val_slice as_Modalities val_plain m (mcat_OutputModalities x),
            val_slice as_ModelFeatures val_plain m (mcat_Features x),
            val_pointer as_PricingSpec val_plain m (mcat_Pricing x)) of
        (Some v1, Some v2, Some v3, Some v4) \<Rightarrow>
          Some \<lparr>cat_DisplayName = mcat_DisplayName x, cat_Description = mcat_Description x, cat_ContextLength = mcat_ContextLength x, cat_InputModalities = v1, cat_OutputModalities = v2, cat_Features = v3, cat_License = mcat_License x, cat_Pricing = v4\<rparr>
      | _ \<Rightarrow> None)"

definition reach_CatalogSpec :: "'x cell mem \<Rightarrow> mCatalogSpec \<Rightarrow> addr set" where
  "reach_CatalogSpec m x =
     reach_slice as_Modalities reach_plain m (mcat_InputModalities x) \<union>
     reach_slice as_Modalities reach_plain m (mcat_OutputModalities x) \<union>
     reach_slice as_ModelFeatures reach_plain m (mcat_Features x) \<union>
     reach_pointer as_PricingSpec reach_plain m (mcat_Pricing x)"

definition val_BrukModelSpec :: "'x cell mem \<Rightarrow> mBrukModelSpec \<Rightarrow> (BrukModelSpec) option" where
  "val_BrukModelSpec m x =
     (case (val_ModelSource m (mbms_Source x),
            val_CatalogSpec m (mbms_Catalog x)) of
        (Some v1, Some v2) \<Rightarrow>
          Some \<lparr>bms_Source = v1, bms_ServedName = mbms_ServedName x, bms_Catalog = v2\<rparr>
      | _ \<Rightarrow> None)"

definition reach_BrukModelSpec :: "'x cell mem \<Rightarrow> mBrukModelSpec \<Rightarrow> addr set" where
  "reach_BrukModelSpec m x =
     reach_ModelSource m (mbms_Source x) \<union>
     reach_CatalogSpec m (mbms_Catalog x)"

definition val_BrukModelStatus :: "'x library \<Rightarrow> 'x cell mem \<Rightarrow> mBrukModelStatus \<Rightarrow> (BrukModelStatus) option" where
  "val_BrukModelStatus L m x =
     (case val_slice as_Conditions (vl_Condition L) m (mbmst_Conditions x) of None \<Rightarrow> None
      | Some v1 \<Rightarrow> Some \<lparr>bmst_ObservedGeneration = mbmst_ObservedGeneration x, bmst_Conditions = v1\<rparr>)"

definition reach_BrukModelStatus :: "'x library \<Rightarrow> 'x cell mem \<Rightarrow> mBrukModelStatus \<Rightarrow> addr set" where
  "reach_BrukModelStatus L m x =
     reach_slice as_Conditions (rc_Condition L) m (mbmst_Conditions x)"

definition val_BrukModel :: "'x library \<Rightarrow> 'x cell mem \<Rightarrow> 'x mBrukModel \<Rightarrow> (TypeMeta \<times> BrukModel) option" where
  "val_BrukModel L m x =
     (case (vl_ObjectMeta L m (mbm_ObjectMeta x),
            val_BrukModelSpec m (mbm_Spec x),
            val_BrukModelStatus L m (mbm_Status x)) of
        (Some v1, Some v2, Some v3) \<Rightarrow>
          Some (mbm_TypeMeta x, \<lparr>bm_Meta = v1, bm_Spec = v2, bm_Status = v3\<rparr>)
      | _ \<Rightarrow> None)"

definition reach_BrukModel :: "'x library \<Rightarrow> 'x cell mem \<Rightarrow> 'x mBrukModel \<Rightarrow> addr set" where
  "reach_BrukModel L m x =
     rc_ObjectMeta L m (mbm_ObjectMeta x) \<union>
     reach_BrukModelSpec m (mbm_Spec x) \<union>
     reach_BrukModelStatus L m (mbm_Status x)"

definition val_BrukModelList :: "'x library \<Rightarrow> 'x cell mem \<Rightarrow> 'x mBrukModelList \<Rightarrow> (TypeMeta \<times> ListMeta \<times> (TypeMeta \<times> BrukModel) list) option" where
  "val_BrukModelList L m x =
     (case (vl_ListMeta L m (mbml_ListMeta x),
            val_slice as_BrukModels (val_BrukModel L) m (mbml_Items x)) of
        (Some v1, Some v2) \<Rightarrow>
          Some (mbml_TypeMeta x, v1, v2)
      | _ \<Rightarrow> None)"

definition reach_BrukModelList :: "'x library \<Rightarrow> 'x cell mem \<Rightarrow> 'x mBrukModelList \<Rightarrow> addr set" where
  "reach_BrukModelList L m x =
     rc_ListMeta L m (mbml_ListMeta x) \<union>
     reach_slice as_BrukModels (reach_BrukModel L) m (mbml_Items x)"

definition val_BrukTenantStatus :: "'x library \<Rightarrow> 'x cell mem \<Rightarrow> mBrukTenantStatus \<Rightarrow> (BrukTenantStatus) option" where
  "val_BrukTenantStatus L m x =
     (case val_slice as_Conditions (vl_Condition L) m (mbtst_Conditions x) of None \<Rightarrow> None
      | Some v1 \<Rightarrow> Some \<lparr>btst_ObservedGeneration = mbtst_ObservedGeneration x, btst_Conditions = v1, btst_AppliedInitDataHash = mbtst_AppliedInitDataHash x\<rparr>)"

definition reach_BrukTenantStatus :: "'x library \<Rightarrow> 'x cell mem \<Rightarrow> mBrukTenantStatus \<Rightarrow> addr set" where
  "reach_BrukTenantStatus L m x =
     reach_slice as_Conditions (rc_Condition L) m (mbtst_Conditions x)"

definition val_BrukTenant :: "'x library \<Rightarrow> 'x cell mem \<Rightarrow> 'x mBrukTenant \<Rightarrow> (TypeMeta \<times> BrukTenant) option" where
  "val_BrukTenant L m x =
     (case (vl_ObjectMeta L m (mbt_ObjectMeta x),
            val_BrukTenantStatus L m (mbt_Status x)) of
        (Some v1, Some v2) \<Rightarrow>
          Some (mbt_TypeMeta x, \<lparr>bt_Meta = v1, bt_Spec = mbt_Spec x, bt_Status = v2\<rparr>)
      | _ \<Rightarrow> None)"

definition reach_BrukTenant :: "'x library \<Rightarrow> 'x cell mem \<Rightarrow> 'x mBrukTenant \<Rightarrow> addr set" where
  "reach_BrukTenant L m x =
     rc_ObjectMeta L m (mbt_ObjectMeta x) \<union>
     reach_BrukTenantStatus L m (mbt_Status x)"

definition val_BrukTenantList :: "'x library \<Rightarrow> 'x cell mem \<Rightarrow> 'x mBrukTenantList \<Rightarrow> (TypeMeta \<times> ListMeta \<times> (TypeMeta \<times> BrukTenant) list) option" where
  "val_BrukTenantList L m x =
     (case (vl_ListMeta L m (mbtl_ListMeta x),
            val_slice as_BrukTenants (val_BrukTenant L) m (mbtl_Items x)) of
        (Some v1, Some v2) \<Rightarrow>
          Some (mbtl_TypeMeta x, v1, v2)
      | _ \<Rightarrow> None)"

definition reach_BrukTenantList :: "'x library \<Rightarrow> 'x cell mem \<Rightarrow> 'x mBrukTenantList \<Rightarrow> addr set" where
  "reach_BrukTenantList L m x =
     rc_ListMeta L m (mbtl_ListMeta x) \<union>
     reach_slice as_BrukTenants (reach_BrukTenant L) m (mbtl_Items x)"

subsection \<open>Every copier keeps the contract\<close>

locale copy_library =
  objectmeta: deep_copier "vl_ObjectMeta L" "rc_ObjectMeta L" "lb_ObjectMeta L" +
  listmeta: deep_copier "vl_ListMeta L" "rc_ListMeta L" "lb_ListMeta L" +
  quantity: deep_copier "vl_Quantity L" "rc_Quantity L" "lb_Quantity L" +
  condition: deep_copier "vl_Condition L" "rc_Condition L" "lb_Condition L"
  for L :: "'x library"
begin

lemma copier_ResourcePair: "deep_copier (val_ResourcePair L) (reach_ResourcePair L) (ResourcePair_DeepCopyInto L)"
proof -
  note c1 = quantity.deep_copier_axioms
  note c2 = copier_value [where cell = QuantityCell, OF quantity.deep_copier_axioms as_Quantity_cell]
  note c = copier_pair [OF c1 c2]
  show ?thesis
    by (rule copier_struct [OF c, where part = "\<lambda>x. (mrp_Limit x, mrp_Request x)" and
        put = "\<lambda>(v1, v2) x. x\<lparr>mrp_Limit := v1, mrp_Request := v2\<rparr>" and
        build = "\<lambda>x (v1, v2). \<lparr>rp_Limit = v1, rp_Request = v2\<rparr>"])
      (simp_all add: val_ResourcePair_def reach_ResourcePair_def ResourcePair_DeepCopyInto_def Un_assoc andThen_def keep_def split_beta
        split: option.splits)
qed

lemma copier_WorkloadResources: "deep_copier (val_WorkloadResources L) (reach_WorkloadResources L) (WorkloadResources_DeepCopyInto L)"
proof -
  note c1 = copier_ResourcePair
  note c2 = copier_ResourcePair
  note c = copier_pair [OF c1 c2]
  show ?thesis
    by (rule copier_struct [OF c, where part = "\<lambda>x. (mwr_Memory x, mwr_CPU x)" and
        put = "\<lambda>(v1, v2) x. x\<lparr>mwr_Memory := v1, mwr_CPU := v2\<rparr>" and
        build = "\<lambda>x (v1, v2). \<lparr>wr_GPUs = mwr_GPUs x, wr_Memory = v1, wr_CPU = v2\<rparr>"])
      (simp_all add: val_WorkloadResources_def reach_WorkloadResources_def WorkloadResources_DeepCopyInto_def Un_assoc andThen_def keep_def split_beta
        split: option.splits)
qed

lemma copier_LocalVolumeSpec: "deep_copier (val_LocalVolumeSpec L) (reach_LocalVolumeSpec L) (LocalVolumeSpec_DeepCopyInto L)"
proof -
  note c1 = quantity.deep_copier_axioms
  note c = c1
  show ?thesis
    by (rule copier_struct [OF c, where part = "\<lambda>x. mlv_Size x" and
        put = "\<lambda>v1 x. x\<lparr>mlv_Size := v1\<rparr>" and
        build = "\<lambda>x v1. \<lparr>lv_LVName = mlv_LVName x, lv_Size = v1\<rparr>"])
      (simp_all add: val_LocalVolumeSpec_def reach_LocalVolumeSpec_def LocalVolumeSpec_DeepCopyInto_def Un_assoc andThen_def keep_def split_beta
        split: option.splits)
qed

lemma copier_TrustedStoreSpec: "deep_copier (val_TrustedStoreSpec L) (reach_TrustedStoreSpec L) (TrustedStoreSpec_DeepCopyInto L)"
proof -
  note c1 = copier_pointer [where cell = LocalVolumeSpecCell and zero = Zeroed, OF copier_LocalVolumeSpec as_LocalVolumeSpec_cell]
  note c = c1
  show ?thesis
    by (rule copier_struct [OF c, where part = "\<lambda>x. mts_LocalVolume x" and
        put = "\<lambda>v1 x. x\<lparr>mts_LocalVolume := v1\<rparr>" and
        build = "\<lambda>x v1. \<lparr>ts_ExistingClaim = mts_ExistingClaim x, ts_LocalVolume = v1\<rparr>"])
      (simp_all add: val_TrustedStoreSpec_def reach_TrustedStoreSpec_def TrustedStoreSpec_DeepCopyInto_def Un_assoc andThen_def keep_def split_beta
        split: option.splits)
qed

lemma copier_WeightsCacheSpec: "deep_copier (val_WeightsCacheSpec L) (reach_WeightsCacheSpec L) (WeightsCacheSpec_DeepCopyInto L)"
proof -
  note c1 = copier_value [where cell = QuantityCell, OF quantity.deep_copier_axioms as_Quantity_cell]
  note c = c1
  show ?thesis
    by (rule copier_struct [OF c, where part = "\<lambda>x. mwc_SizeLimit x" and
        put = "\<lambda>v1 x. x\<lparr>mwc_SizeLimit := v1\<rparr>" and
        build = "\<lambda>x v1. \<lparr>wc_SizeLimit = v1\<rparr>"])
      (simp_all add: val_WeightsCacheSpec_def reach_WeightsCacheSpec_def WeightsCacheSpec_DeepCopyInto_def Un_assoc andThen_def keep_def split_beta
        split: option.splits)
qed

lemma copier_StorageSpec: "deep_copier (val_StorageSpec L) (reach_StorageSpec L) (StorageSpec_DeepCopyInto L)"
proof -
  note c1 = copier_TrustedStoreSpec
  note c2 = copier_pointer [where cell = WeightsCacheSpecCell and zero = Zeroed, OF copier_WeightsCacheSpec as_WeightsCacheSpec_cell]
  note c = copier_pair [OF c1 c2]
  show ?thesis
    by (rule copier_struct [OF c, where part = "\<lambda>x. (mst_TrustedStore x, mst_WeightsCache x)" and
        put = "\<lambda>(v1, v2) x. x\<lparr>mst_TrustedStore := v1, mst_WeightsCache := v2\<rparr>" and
        build = "\<lambda>x (v1, v2). \<lparr>st_TrustedStore = v1, st_WeightsCache = v2\<rparr>"])
      (simp_all add: val_StorageSpec_def reach_StorageSpec_def StorageSpec_DeepCopyInto_def Un_assoc andThen_def keep_def split_beta
        split: option.splits)
qed

lemma copier_ProbeOverrides: "deep_copier (val_ProbeOverrides) (reach_ProbeOverrides) (ProbeOverrides_DeepCopyInto)"
proof -
  note c1 = copier_pointer [where cell = Int32Cell and zero = Zeroed, OF plain.deep_copier_axioms as_Int32_cell]
  note c = c1
  show ?thesis
    by (rule copier_struct [OF c, where part = "\<lambda>x. mpo_ReadinessFailureThreshold x" and
        put = "\<lambda>v1 x. x\<lparr>mpo_ReadinessFailureThreshold := v1\<rparr>" and
        build = "\<lambda>x v1. \<lparr>po_ReadinessFailureThreshold = v1\<rparr>"])
      (simp_all add: val_ProbeOverrides_def reach_ProbeOverrides_def ProbeOverrides_DeepCopyInto_def Un_assoc andThen_def keep_def split_beta
        split: option.splits)
qed

lemma copier_InferenceServiceSpec: "deep_copier (val_InferenceServiceSpec L) (reach_InferenceServiceSpec L) (InferenceServiceSpec_DeepCopyInto L)"
proof -
  note c1 = copier_WorkloadResources
  note c2 = copier_StorageSpec
  note c3 = copier_pointer [where cell = ProbeOverridesCell and zero = Zeroed, OF copier_ProbeOverrides as_ProbeOverrides_cell]
  note c = copier_pair [OF c1 copier_pair [OF c2 c3]]
  show ?thesis
    by (rule copier_struct [OF c, where part = "\<lambda>x. (miss_Resources x, (miss_Storage x, miss_Probes x))" and
        put = "\<lambda>(v1, (v2, v3)) x. x\<lparr>miss_Resources := v1, miss_Storage := v2, miss_Probes := v3\<rparr>" and
        build = "\<lambda>x (v1, (v2, v3)). \<lparr>iss_ModelRef = miss_ModelRef x, iss_Engine = miss_Engine x, iss_Resources = v1, iss_Storage = v2, iss_Probes = v3\<rparr>"])
      (simp_all add: val_InferenceServiceSpec_def reach_InferenceServiceSpec_def InferenceServiceSpec_DeepCopyInto_def Un_assoc andThen_def keep_def split_beta
        split: option.splits)
qed

lemma copier_InferenceServiceStatus: "deep_copier (val_InferenceServiceStatus L) (reach_InferenceServiceStatus L) (InferenceServiceStatus_DeepCopyInto L)"
proof -
  note c1 = copier_slice [where cell = ConditionsCell and zero = Zeroed, OF condition.deep_copier_axioms as_Conditions_cell]
  note c2 = copier_pointer [where cell = EndpointStatusCell and zero = Zeroed, OF plain.deep_copier_axioms as_EndpointStatus_cell]
  note c = copier_pair [OF c1 c2]
  show ?thesis
    by (rule copier_struct [OF c, where part = "\<lambda>x. (mist_Conditions x, mist_Endpoint x)" and
        put = "\<lambda>(v1, v2) x. x\<lparr>mist_Conditions := v1, mist_Endpoint := v2\<rparr>" and
        build = "\<lambda>x (v1, v2). \<lparr>ist_ObservedGeneration = mist_ObservedGeneration x, ist_Conditions = v1, ist_Endpoint = v2, ist_ServedModelName = mist_ServedModelName x, ist_ResolvedImage = mist_ResolvedImage x, ist_AppliedInitDataHash = mist_AppliedInitDataHash x\<rparr>"])
      (simp_all add: val_InferenceServiceStatus_def reach_InferenceServiceStatus_def InferenceServiceStatus_DeepCopyInto_def Un_assoc andThen_def keep_def split_beta
        split: option.splits)
qed

lemma copier_InferenceService: "deep_copier (val_InferenceService L) (reach_InferenceService L) (InferenceService_DeepCopyInto L)"
proof -
  note c1 = objectmeta.deep_copier_axioms
  note c2 = copier_InferenceServiceSpec
  note c3 = copier_InferenceServiceStatus
  note c = copier_pair [OF c1 copier_pair [OF c2 c3]]
  show ?thesis
    by (rule copier_struct [OF c, where part = "\<lambda>x. (mis_ObjectMeta x, (mis_Spec x, mis_Status x))" and
        put = "\<lambda>(v1, (v2, v3)) x. x\<lparr>mis_ObjectMeta := v1, mis_Spec := v2, mis_Status := v3\<rparr>" and
        build = "\<lambda>x (v1, (v2, v3)). (mis_TypeMeta x, \<lparr>is_Meta = v1, is_Spec = v2, is_Status = v3\<rparr>)"])
      (simp_all add: val_InferenceService_def reach_InferenceService_def InferenceService_DeepCopyInto_def Un_assoc andThen_def keep_def split_beta
        split: option.splits)
qed

lemma copier_InferenceServiceList: "deep_copier (val_InferenceServiceList L) (reach_InferenceServiceList L) (InferenceServiceList_DeepCopyInto L)"
proof -
  note c1 = listmeta.deep_copier_axioms
  note c2 = copier_slice [where cell = InferenceServicesCell and zero = Zeroed, OF copier_InferenceService as_InferenceServices_cell]
  note c = copier_pair [OF c1 c2]
  show ?thesis
    by (rule copier_struct [OF c, where part = "\<lambda>x. (misl_ListMeta x, misl_Items x)" and
        put = "\<lambda>(v1, v2) x. x\<lparr>misl_ListMeta := v1, misl_Items := v2\<rparr>" and
        build = "\<lambda>x (v1, v2). (misl_TypeMeta x, v1, v2)"])
      (simp_all add: val_InferenceServiceList_def reach_InferenceServiceList_def InferenceServiceList_DeepCopyInto_def Un_assoc andThen_def keep_def split_beta
        split: option.splits)
qed

lemma copier_HuggingFaceSource: "deep_copier (val_HuggingFaceSource) (reach_HuggingFaceSource) (HuggingFaceSource_DeepCopyInto)"
proof -
  note c1 = copier_pointer [where cell = SecretKeyRefCell and zero = Zeroed, OF plain.deep_copier_axioms as_SecretKeyRef_cell]
  note c = c1
  show ?thesis
    by (rule copier_struct [OF c, where part = "\<lambda>x. mhf_TokenSecretRef x" and
        put = "\<lambda>v1 x. x\<lparr>mhf_TokenSecretRef := v1\<rparr>" and
        build = "\<lambda>x v1. \<lparr>hf_Repo = mhf_Repo x, hf_Revision = mhf_Revision x, hf_TokenSecretRef = v1\<rparr>"])
      (simp_all add: val_HuggingFaceSource_def reach_HuggingFaceSource_def HuggingFaceSource_DeepCopyInto_def Un_assoc andThen_def keep_def split_beta
        split: option.splits)
qed

lemma copier_ModelSource: "deep_copier (val_ModelSource) (reach_ModelSource) (ModelSource_DeepCopyInto)"
proof -
  note c1 = copier_pointer [where cell = HuggingFaceSourceCell and zero = Zeroed, OF copier_HuggingFaceSource as_HuggingFaceSource_cell]
  note c = c1
  show ?thesis
    by (rule copier_struct [OF c, where part = "\<lambda>x. mms_HuggingFace x" and
        put = "\<lambda>v1 x. x\<lparr>mms_HuggingFace := v1\<rparr>" and
        build = "\<lambda>x v1. \<lparr>ms_HuggingFace = v1\<rparr>"])
      (simp_all add: val_ModelSource_def reach_ModelSource_def ModelSource_DeepCopyInto_def Un_assoc andThen_def keep_def split_beta
        split: option.splits)
qed

lemma copier_CatalogSpec: "deep_copier (val_CatalogSpec) (reach_CatalogSpec) (CatalogSpec_DeepCopyInto)"
proof -
  note c1 = copier_slice [where cell = ModalitiesCell and zero = Zeroed, OF plain.deep_copier_axioms as_Modalities_cell]
  note c2 = copier_slice [where cell = ModalitiesCell and zero = Zeroed, OF plain.deep_copier_axioms as_Modalities_cell]
  note c3 = copier_slice [where cell = ModelFeaturesCell and zero = Zeroed, OF plain.deep_copier_axioms as_ModelFeatures_cell]
  note c4 = copier_pointer [where cell = PricingSpecCell and zero = Zeroed, OF plain.deep_copier_axioms as_PricingSpec_cell]
  note c = copier_pair [OF c1 copier_pair [OF c2 copier_pair [OF c3 c4]]]
  show ?thesis
    by (rule copier_struct [OF c, where part = "\<lambda>x. (mcat_InputModalities x, (mcat_OutputModalities x, (mcat_Features x, mcat_Pricing x)))" and
        put = "\<lambda>(v1, (v2, (v3, v4))) x. x\<lparr>mcat_InputModalities := v1, mcat_OutputModalities := v2, mcat_Features := v3, mcat_Pricing := v4\<rparr>" and
        build = "\<lambda>x (v1, (v2, (v3, v4))). \<lparr>cat_DisplayName = mcat_DisplayName x, cat_Description = mcat_Description x, cat_ContextLength = mcat_ContextLength x, cat_InputModalities = v1, cat_OutputModalities = v2, cat_Features = v3, cat_License = mcat_License x, cat_Pricing = v4\<rparr>"])
      (simp_all add: val_CatalogSpec_def reach_CatalogSpec_def CatalogSpec_DeepCopyInto_def Un_assoc andThen_def keep_def split_beta
        split: option.splits)
qed

lemma copier_BrukModelSpec: "deep_copier (val_BrukModelSpec) (reach_BrukModelSpec) (BrukModelSpec_DeepCopyInto)"
proof -
  note c1 = copier_ModelSource
  note c2 = copier_CatalogSpec
  note c = copier_pair [OF c1 c2]
  show ?thesis
    by (rule copier_struct [OF c, where part = "\<lambda>x. (mbms_Source x, mbms_Catalog x)" and
        put = "\<lambda>(v1, v2) x. x\<lparr>mbms_Source := v1, mbms_Catalog := v2\<rparr>" and
        build = "\<lambda>x (v1, v2). \<lparr>bms_Source = v1, bms_ServedName = mbms_ServedName x, bms_Catalog = v2\<rparr>"])
      (simp_all add: val_BrukModelSpec_def reach_BrukModelSpec_def BrukModelSpec_DeepCopyInto_def Un_assoc andThen_def keep_def split_beta
        split: option.splits)
qed

lemma copier_BrukModelStatus: "deep_copier (val_BrukModelStatus L) (reach_BrukModelStatus L) (BrukModelStatus_DeepCopyInto L)"
proof -
  note c1 = copier_slice [where cell = ConditionsCell and zero = Zeroed, OF condition.deep_copier_axioms as_Conditions_cell]
  note c = c1
  show ?thesis
    by (rule copier_struct [OF c, where part = "\<lambda>x. mbmst_Conditions x" and
        put = "\<lambda>v1 x. x\<lparr>mbmst_Conditions := v1\<rparr>" and
        build = "\<lambda>x v1. \<lparr>bmst_ObservedGeneration = mbmst_ObservedGeneration x, bmst_Conditions = v1\<rparr>"])
      (simp_all add: val_BrukModelStatus_def reach_BrukModelStatus_def BrukModelStatus_DeepCopyInto_def Un_assoc andThen_def keep_def split_beta
        split: option.splits)
qed

lemma copier_BrukModel: "deep_copier (val_BrukModel L) (reach_BrukModel L) (BrukModel_DeepCopyInto L)"
proof -
  note c1 = objectmeta.deep_copier_axioms
  note c2 = copier_BrukModelSpec
  note c3 = copier_BrukModelStatus
  note c = copier_pair [OF c1 copier_pair [OF c2 c3]]
  show ?thesis
    by (rule copier_struct [OF c, where part = "\<lambda>x. (mbm_ObjectMeta x, (mbm_Spec x, mbm_Status x))" and
        put = "\<lambda>(v1, (v2, v3)) x. x\<lparr>mbm_ObjectMeta := v1, mbm_Spec := v2, mbm_Status := v3\<rparr>" and
        build = "\<lambda>x (v1, (v2, v3)). (mbm_TypeMeta x, \<lparr>bm_Meta = v1, bm_Spec = v2, bm_Status = v3\<rparr>)"])
      (simp_all add: val_BrukModel_def reach_BrukModel_def BrukModel_DeepCopyInto_def Un_assoc andThen_def keep_def split_beta
        split: option.splits)
qed

lemma copier_BrukModelList: "deep_copier (val_BrukModelList L) (reach_BrukModelList L) (BrukModelList_DeepCopyInto L)"
proof -
  note c1 = listmeta.deep_copier_axioms
  note c2 = copier_slice [where cell = BrukModelsCell and zero = Zeroed, OF copier_BrukModel as_BrukModels_cell]
  note c = copier_pair [OF c1 c2]
  show ?thesis
    by (rule copier_struct [OF c, where part = "\<lambda>x. (mbml_ListMeta x, mbml_Items x)" and
        put = "\<lambda>(v1, v2) x. x\<lparr>mbml_ListMeta := v1, mbml_Items := v2\<rparr>" and
        build = "\<lambda>x (v1, v2). (mbml_TypeMeta x, v1, v2)"])
      (simp_all add: val_BrukModelList_def reach_BrukModelList_def BrukModelList_DeepCopyInto_def Un_assoc andThen_def keep_def split_beta
        split: option.splits)
qed

lemma copier_BrukTenantStatus: "deep_copier (val_BrukTenantStatus L) (reach_BrukTenantStatus L) (BrukTenantStatus_DeepCopyInto L)"
proof -
  note c1 = copier_slice [where cell = ConditionsCell and zero = Zeroed, OF condition.deep_copier_axioms as_Conditions_cell]
  note c = c1
  show ?thesis
    by (rule copier_struct [OF c, where part = "\<lambda>x. mbtst_Conditions x" and
        put = "\<lambda>v1 x. x\<lparr>mbtst_Conditions := v1\<rparr>" and
        build = "\<lambda>x v1. \<lparr>btst_ObservedGeneration = mbtst_ObservedGeneration x, btst_Conditions = v1, btst_AppliedInitDataHash = mbtst_AppliedInitDataHash x\<rparr>"])
      (simp_all add: val_BrukTenantStatus_def reach_BrukTenantStatus_def BrukTenantStatus_DeepCopyInto_def Un_assoc andThen_def keep_def split_beta
        split: option.splits)
qed

lemma copier_BrukTenant: "deep_copier (val_BrukTenant L) (reach_BrukTenant L) (BrukTenant_DeepCopyInto L)"
proof -
  note c1 = objectmeta.deep_copier_axioms
  note c2 = copier_BrukTenantStatus
  note c = copier_pair [OF c1 c2]
  show ?thesis
    by (rule copier_struct [OF c, where part = "\<lambda>x. (mbt_ObjectMeta x, mbt_Status x)" and
        put = "\<lambda>(v1, v2) x. x\<lparr>mbt_ObjectMeta := v1, mbt_Status := v2\<rparr>" and
        build = "\<lambda>x (v1, v2). (mbt_TypeMeta x, \<lparr>bt_Meta = v1, bt_Spec = mbt_Spec x, bt_Status = v2\<rparr>)"])
      (simp_all add: val_BrukTenant_def reach_BrukTenant_def BrukTenant_DeepCopyInto_def Un_assoc andThen_def keep_def split_beta
        split: option.splits)
qed

lemma copier_BrukTenantList: "deep_copier (val_BrukTenantList L) (reach_BrukTenantList L) (BrukTenantList_DeepCopyInto L)"
proof -
  note c1 = listmeta.deep_copier_axioms
  note c2 = copier_slice [where cell = BrukTenantsCell and zero = Zeroed, OF copier_BrukTenant as_BrukTenants_cell]
  note c = copier_pair [OF c1 c2]
  show ?thesis
    by (rule copier_struct [OF c, where part = "\<lambda>x. (mbtl_ListMeta x, mbtl_Items x)" and
        put = "\<lambda>(v1, v2) x. x\<lparr>mbtl_ListMeta := v1, mbtl_Items := v2\<rparr>" and
        build = "\<lambda>x (v1, v2). (mbtl_TypeMeta x, v1, v2)"])
      (simp_all add: val_BrukTenantList_def reach_BrukTenantList_def BrukTenantList_DeepCopyInto_def Un_assoc andThen_def keep_def split_beta
        split: option.splits)
qed

end

text \<open>A copier of one type of the libraries, when the values of several share a type.\<close>

lemma copier_tagged:
  assumes "deep_copier val reach copy" and "\<And>y. untag (tag y) = Some y"
    and "\<And>m x. val' m x = (case untag x of None \<Rightarrow> None | Some y \<Rightarrow> val m y)"
    and "\<And>m x. reach' m x = (case untag x of None \<Rightarrow> {} | Some y \<Rightarrow> reach m y)"
    and "\<And>m x. copy' x m = (case untag x of None \<Rightarrow> None
           | Some y \<Rightarrow> map_option (\<lambda>(y', m'). (tag y', m')) (copy y m))"
  shows "deep_copier val' reach' copy'"
proof
  fix m m' :: "'a mem" and x v a
  assume val: "val' m x = Some v"
  then obtain y where y: "untag x = Some y" "val m y = Some v" by (auto simp: assms(3) split: option.splits)
  { assume "agree m m' (reach' m x)"
    with deep_copier.frame [OF assms(1) y(2), of m'] y(1) show "val' m' x = Some v \<and> reach' m' x = reach' m x"
      by (simp add: assms(3,4)) }
  { assume "a \<in> reach' m x"
    with deep_copier.bounded [OF assms(1) y(2)] y(1) show "a < length m" by (simp add: assms(4)) }
  show "\<exists>y ext. copy' x m = Some (y, m @ ext) \<and> val' (m @ ext) y = Some v \<and>
      (\<forall>a \<in> reach' (m @ ext) y. length m \<le> a)"
    using deep_copier.copies [OF assms(1) y(2)] y(1) by (auto simp: assms(2-5))
qed

subsection \<open>A library to run on\<close>

text \<open>
  The metadata of an object with its owner references in memory of their own; the other types
  of the libraries as plain values.
\<close>

datatype ref_value =
    RefMeta ObjectMeta "addr option"
  | RefOwners "OwnerReference list"
  | RefListMeta ListMeta
  | RefQuantity Quantity
  | RefCondition Condition

definition as_owners :: "ref_value cell \<Rightarrow> OwnerReference list option" where
  "as_owners c = (case c of LibraryCell (RefOwners rs) \<Rightarrow> Some rs | _ \<Rightarrow> None)"

definition untag_meta :: "ref_value \<Rightarrow> (ObjectMeta \<times> addr option) option" where
  "untag_meta x = (case x of RefMeta y p \<Rightarrow> Some (y, p) | _ \<Rightarrow> None)"
definition untag_list :: "ref_value \<Rightarrow> ListMeta option" where
  "untag_list x = (case x of RefListMeta l \<Rightarrow> Some l | _ \<Rightarrow> None)"
definition untag_quantity :: "ref_value \<Rightarrow> Quantity option" where
  "untag_quantity x = (case x of RefQuantity q \<Rightarrow> Some q | _ \<Rightarrow> None)"
definition untag_condition :: "ref_value \<Rightarrow> Condition option" where
  "untag_condition x = (case x of RefCondition c \<Rightarrow> Some c | _ \<Rightarrow> None)"

lemmas untag_defs = untag_meta_def untag_list_def untag_quantity_def untag_condition_def

text \<open>The owner references are read from their cell, or are none.\<close>

definition val_meta :: "ref_value cell mem \<Rightarrow> ObjectMeta \<times> addr option \<Rightarrow> ObjectMeta option" where
  "val_meta m x =
     (case val_pointer as_owners val_plain m (snd x) of
        None \<Rightarrow> None
      | Some rs \<Rightarrow> Some ((fst x)\<lparr>om_OwnerReferences := (case rs of None \<Rightarrow> [] | Some rs \<Rightarrow> rs)\<rparr>))"

definition copy_meta :: "ObjectMeta \<times> addr option \<Rightarrow> (ref_value cell, ObjectMeta \<times> addr option) act" where
  "copy_meta x =
     andThen (copyPointer Zeroed (\<lambda>rs. LibraryCell (RefOwners rs)) as_owners keep (snd x))
       (\<lambda>p. keep (fst x, p))"

definition tagged_copy ::
    "(ref_value \<Rightarrow> 'h option) \<Rightarrow> ('h \<Rightarrow> ref_value) \<Rightarrow> ('h \<Rightarrow> (ref_value cell, 'h) act) \<Rightarrow> ref_value \<Rightarrow>
     (ref_value cell, ref_value) act" where
  "tagged_copy untag tag copy x =
     (case untag x of None \<Rightarrow> (\<lambda>m. None) | Some y \<Rightarrow> andThen (copy y) (\<lambda>y. keep (tag y)))"

definition ref_library :: "ref_value library" where
  "ref_library =
     \<lparr>lb_ObjectMeta = tagged_copy untag_meta (\<lambda>(x, p). RefMeta x p) copy_meta,
      vl_ObjectMeta = (\<lambda>m x. case untag_meta x of None \<Rightarrow> None | Some y \<Rightarrow> val_meta m y),
      rc_ObjectMeta = (\<lambda>m x. case untag_meta x of None \<Rightarrow> {}
        | Some y \<Rightarrow> reach_pointer as_owners reach_plain m (snd y)),
      lb_ListMeta = tagged_copy untag_list RefListMeta keep,
      vl_ListMeta = (\<lambda>m x. untag_list x), rc_ListMeta = (\<lambda>m x. {}),
      lb_Quantity = tagged_copy untag_quantity RefQuantity keep,
      vl_Quantity = (\<lambda>m x. untag_quantity x), rc_Quantity = (\<lambda>m x. {}),
      lb_Condition = tagged_copy untag_condition RefCondition keep,
      vl_Condition = (\<lambda>m x. untag_condition x), rc_Condition = (\<lambda>m x. {})\<rparr>"

lemma tagged_copy_eq: "tagged_copy untag tag copy x m =
    (case untag x of None \<Rightarrow> None | Some y \<Rightarrow> map_option (\<lambda>(y', m'). (tag y', m')) (copy y m))"
  by (auto simp: tagged_copy_def andThen_def keep_def split: option.splits)

lemma copier_meta: "deep_copier val_meta (\<lambda>m x. reach_pointer as_owners reach_plain m (snd x)) copy_meta"
proof -
  have view: "as_owners (LibraryCell (RefOwners rs)) = Some rs" for rs by (simp add: as_owners_def)
  note c = copier_pointer [where cell = "\<lambda>rs. LibraryCell (RefOwners rs)" and zero = Zeroed,
      OF plain.deep_copier_axioms view]
  show ?thesis
    by (rule copier_struct [OF c, where part = snd and put = "\<lambda>p x. (fst x, p)" and
        build = "\<lambda>x rs. (fst x)\<lparr>om_OwnerReferences := (case rs of None \<Rightarrow> [] | Some rs \<Rightarrow> rs)\<rparr>"])
      (auto simp: val_meta_def copy_meta_def andThen_def keep_def split: option.splits)
qed

lemma copier_plain_tagged:
  assumes "\<And>y. untag (tag y) = Some y"
  shows "deep_copier (\<lambda>m x. untag x) (\<lambda>m x. {}) (tagged_copy untag tag keep)"
  by (rule copier_tagged [OF plain.deep_copier_axioms, where untag = untag and tag = tag])
    (auto simp: assms tagged_copy_eq val_plain_def reach_plain_def split: option.splits)

interpretation ref_copies: copy_library ref_library
proof (rule copy_library.intro)
  have "deep_copier (\<lambda>m x. case untag_meta x of None \<Rightarrow> None | Some y \<Rightarrow> val_meta m y)
      (\<lambda>m x. case untag_meta x of None \<Rightarrow> {} | Some y \<Rightarrow> reach_pointer as_owners reach_plain m (snd y))
      (tagged_copy untag_meta (\<lambda>(x, p). RefMeta x p) copy_meta)"
    by (rule copier_tagged [OF copier_meta, where untag = untag_meta and tag = "\<lambda>(x, p). RefMeta x p"])
      (auto simp: tagged_copy_eq untag_meta_def)
  then show "deep_copier (vl_ObjectMeta ref_library) (rc_ObjectMeta ref_library) (lb_ObjectMeta ref_library)"
    by (simp add: ref_library_def)
  show "deep_copier (vl_ListMeta ref_library) (rc_ListMeta ref_library) (lb_ListMeta ref_library)"
    using copier_plain_tagged [of untag_list RefListMeta] by (simp add: ref_library_def untag_list_def [abs_def])
  show "deep_copier (vl_Quantity ref_library) (rc_Quantity ref_library) (lb_Quantity ref_library)"
    using copier_plain_tagged [of untag_quantity RefQuantity]
    by (simp add: ref_library_def untag_quantity_def [abs_def])
  show "deep_copier (vl_Condition ref_library) (rc_Condition ref_library) (lb_Condition ref_library)"
    using copier_plain_tagged [of untag_condition RefCondition]
    by (simp add: ref_library_def untag_condition_def [abs_def])
qed

lemma copy_library_ref: "copy_library ref_library"
  by (rule ref_copies.copy_library_axioms)

end
