(* ===== verification/CacheCopies.thy ===== *)
theory CacheCopies
  imports DeepCopyProps
begin

text \<open>
  What the copies are for. controller-runtime keeps the objects it watches in informer caches
  and answers a read with a \<open>DeepCopyObject\<close> of the cached object; the reconcilers then write
  into what they were given (\<open>meta.SetStatusCondition\<close> updates a condition in place). The
  objects behind the interface \<open>runtime.Object\<close>, the contract of \<open>DeepCopyObject\<close> for all six of
  them, and a system of cache and client in which a client writes whatever it likes into the
  memory it was handed: the cache keeps its values.
\<close>

subsection \<open>Objects behind the interface\<close>

datatype api_value =
    InferenceServiceValue TypeMeta InferenceService
  | InferenceServiceListValue TypeMeta ListMeta "(TypeMeta \<times> InferenceService) list"
  | BrukModelValue TypeMeta BrukModel
  | BrukModelListValue TypeMeta ListMeta "(TypeMeta \<times> BrukModel) list"
  | BrukTenantValue TypeMeta BrukTenant
  | BrukTenantListValue TypeMeta ListMeta "(TypeMeta \<times> BrukTenant) list"

definition object_value :: "'x library \<Rightarrow> 'x cell mem \<Rightarrow> runtime_Object \<Rightarrow> api_value option" where
  "object_value L m x =
     (case x of
        InferenceServiceObject a \<Rightarrow>
          map_option (\<lambda>(t, v). InferenceServiceValue t v) (val_at as_InferenceService (val_InferenceService L) m a)
      | InferenceServiceListObject a \<Rightarrow>
          map_option (\<lambda>(t, l, v). InferenceServiceListValue t l v)
            (val_at as_InferenceServiceList (val_InferenceServiceList L) m a)
      | BrukModelObject a \<Rightarrow>
          map_option (\<lambda>(t, v). BrukModelValue t v) (val_at as_BrukModel (val_BrukModel L) m a)
      | BrukModelListObject a \<Rightarrow>
          map_option (\<lambda>(t, l, v). BrukModelListValue t l v) (val_at as_BrukModelList (val_BrukModelList L) m a)
      | BrukTenantObject a \<Rightarrow>
          map_option (\<lambda>(t, v). BrukTenantValue t v) (val_at as_BrukTenant (val_BrukTenant L) m a)
      | BrukTenantListObject a \<Rightarrow>
          map_option (\<lambda>(t, l, v). BrukTenantListValue t l v) (val_at as_BrukTenantList (val_BrukTenantList L) m a))"

definition object_reach :: "'x library \<Rightarrow> 'x cell mem \<Rightarrow> runtime_Object \<Rightarrow> addr set" where
  "object_reach L m x =
     (case x of
        InferenceServiceObject a \<Rightarrow> reach_at as_InferenceService (reach_InferenceService L) m a
      | InferenceServiceListObject a \<Rightarrow> reach_at as_InferenceServiceList (reach_InferenceServiceList L) m a
      | BrukModelObject a \<Rightarrow> reach_at as_BrukModel (reach_BrukModel L) m a
      | BrukModelListObject a \<Rightarrow> reach_at as_BrukModelList (reach_BrukModelList L) m a
      | BrukTenantObject a \<Rightarrow> reach_at as_BrukTenant (reach_BrukTenant L) m a
      | BrukTenantListObject a \<Rightarrow> reach_at as_BrukTenantList (reach_BrukTenantList L) m a)"

text \<open>The method call \<open>obj.DeepCopyObject()\<close> on an interface value.\<close>

definition DeepCopyObject :: "'x library \<Rightarrow> runtime_Object \<Rightarrow> ('x cell, runtime_Object option) act" where
  "DeepCopyObject L x =
     (case x of
        InferenceServiceObject a \<Rightarrow> InferenceService_DeepCopyObject L (Some a)
      | InferenceServiceListObject a \<Rightarrow> InferenceServiceList_DeepCopyObject L (Some a)
      | BrukModelObject a \<Rightarrow> BrukModel_DeepCopyObject L (Some a)
      | BrukModelListObject a \<Rightarrow> BrukModelList_DeepCopyObject L (Some a)
      | BrukTenantObject a \<Rightarrow> BrukTenant_DeepCopyObject L (Some a)
      | BrukTenantListObject a \<Rightarrow> BrukTenantList_DeepCopyObject L (Some a))"

lemmas object_copy_defs =
  InferenceService_DeepCopyObject_def InferenceService_DeepCopy_def
  InferenceServiceList_DeepCopyObject_def InferenceServiceList_DeepCopy_def
  BrukModel_DeepCopyObject_def BrukModel_DeepCopy_def
  BrukModelList_DeepCopyObject_def BrukModelList_DeepCopy_def
  BrukTenant_DeepCopyObject_def BrukTenant_DeepCopy_def
  BrukTenantList_DeepCopyObject_def BrukTenantList_DeepCopy_def

lemmas object_copiers =
  copy_library.copier_InferenceService copy_library.copier_InferenceServiceList
  copy_library.copier_BrukModel copy_library.copier_BrukModelList
  copy_library.copier_BrukTenant copy_library.copier_BrukTenantList

lemmas object_copy_simps = DeepCopyObject_def object_copy_defs object_value_def object_reach_def

lemma copied_object:
  assumes "deep_copier val reach copy" and "\<And>y. view (cell y) = Some y" and "val_at view val m a = Some w"
  shows "\<exists>b ext. andThen (copyPointer zero cell view copy (Some a))
        (\<lambda>c. keep (case c of Some a \<Rightarrow> Some (obj a) | None \<Rightarrow> None)) m = Some (Some (obj b), m @ ext) \<and>
      val_at view val (m @ ext) b = Some w \<and> reach_at view reach (m @ ext) b \<inter> {..<length m} = {}"
  using copyPointer_at [OF assms, of zero] by (fastforce simp: andThen_def keep_def)

lemma deepcopy_object:
  assumes "copy_library L" and "object_value L m x = Some v"
  shows "\<exists>y ext. DeepCopyObject L x m = Some (Some y, m @ ext) \<and> object_value L (m @ ext) y = Some v \<and>
    object_reach L (m @ ext) y \<inter> {..<length m} = {}"
proof (cases x)
  case (InferenceServiceObject a)
  with assms(2) show ?thesis
    using copied_object [OF object_copiers(1) [OF assms(1)] as_InferenceService_cell, where obj = InferenceServiceObject and zero = Zeroed]
    by (fastforce simp: object_copy_simps)
next
  case (InferenceServiceListObject a)
  with assms(2) show ?thesis
    using copied_object [OF object_copiers(2) [OF assms(1)] as_InferenceServiceList_cell, where obj = InferenceServiceListObject and zero = Zeroed]
    by (fastforce simp: object_copy_simps)
next
  case (BrukModelObject a)
  with assms(2) show ?thesis
    using copied_object [OF object_copiers(3) [OF assms(1)] as_BrukModel_cell, where obj = BrukModelObject and zero = Zeroed]
    by (fastforce simp: object_copy_simps)
next
  case (BrukModelListObject a)
  with assms(2) show ?thesis
    using copied_object [OF object_copiers(4) [OF assms(1)] as_BrukModelList_cell, where obj = BrukModelListObject and zero = Zeroed]
    by (fastforce simp: object_copy_simps)
next
  case (BrukTenantObject a)
  with assms(2) show ?thesis
    using copied_object [OF object_copiers(5) [OF assms(1)] as_BrukTenant_cell, where obj = BrukTenantObject and zero = Zeroed]
    by (fastforce simp: object_copy_simps)
next
  case (BrukTenantListObject a)
  with assms(2) show ?thesis
    using copied_object [OF object_copiers(6) [OF assms(1)] as_BrukTenantList_cell, where obj = BrukTenantListObject and zero = Zeroed]
    by (fastforce simp: object_copy_simps)
qed

subsection \<open>Frame of an object\<close>

lemma object_frame:
  assumes "copy_library L" and "object_value L m x = Some v" and "agree m m' (object_reach L m x)"
  shows "object_value L m' x = Some v \<and> object_reach L m' x = object_reach L m x"
proof (cases x)
  case (InferenceServiceObject a)
  with assms(2,3) at_frame [OF object_copiers(1) [OF assms(1)], of as_InferenceService m a _ m'] show ?thesis
    by (auto simp: object_copy_simps)
next
  case (InferenceServiceListObject a)
  with assms(2,3) at_frame [OF object_copiers(2) [OF assms(1)], of as_InferenceServiceList m a _ m'] show ?thesis
    by (auto simp: object_copy_simps)
next
  case (BrukModelObject a)
  with assms(2,3) at_frame [OF object_copiers(3) [OF assms(1)], of as_BrukModel m a _ m'] show ?thesis
    by (auto simp: object_copy_simps)
next
  case (BrukModelListObject a)
  with assms(2,3) at_frame [OF object_copiers(4) [OF assms(1)], of as_BrukModelList m a _ m'] show ?thesis
    by (auto simp: object_copy_simps)
next
  case (BrukTenantObject a)
  with assms(2,3) at_frame [OF object_copiers(5) [OF assms(1)], of as_BrukTenant m a _ m'] show ?thesis
    by (auto simp: object_copy_simps)
next
  case (BrukTenantListObject a)
  with assms(2,3) at_frame [OF object_copiers(6) [OF assms(1)], of as_BrukTenantList m a _ m'] show ?thesis
    by (auto simp: object_copy_simps)
qed

lemma object_bounded:
  assumes "copy_library L" and "object_value L m x = Some v" and "b \<in> object_reach L m x"
  shows "b < length m"
  using assms(2,3) at_bounded [OF object_copiers(1) [OF assms(1)]] at_bounded [OF object_copiers(2) [OF assms(1)]]
    at_bounded [OF object_copiers(3) [OF assms(1)]] at_bounded [OF object_copiers(4) [OF assms(1)]]
    at_bounded [OF object_copiers(5) [OF assms(1)]] at_bounded [OF object_copiers(6) [OF assms(1)]]
  by (cases x) (auto simp: object_copy_simps)

lemma object_extend:
  assumes "copy_library L" and "object_value L m x = Some v"
  shows "object_value L (m @ ext) x = Some v" "object_reach L (m @ ext) x = object_reach L m x"
  using object_frame [OF assms agree_extend] object_bounded [OF assms] by blast+

text \<open>C10: A deep copy is exact and separate. For an object of any of the six types of the group,
  \<open>DeepCopyObject\<close> succeeds; the result has the same dynamic type and the same value, field for
  field; every cell that was there before is unchanged; and the copy reaches no memory but what
  was allocated for it, so it shares nothing with the original or with any other object.\<close>

theorem deepcopy_exact_separate:
  assumes "copy_library L" and "object_value L m x = Some v"
  shows "\<exists>y ext. DeepCopyObject L x m = Some (Some y, m @ ext) \<and> object_value L (m @ ext) y = Some v \<and>
    object_reach L (m @ ext) y \<inter> {..<length m} = {}"
  by (rule deepcopy_object [OF assms])

text \<open>A gated model in memory: its metadata owned by nothing else, a token secret behind two pointers,
  and both modality slices windows of one array.\<close>

definition gatedMemory :: "ref_value cell mem" where
  "gatedMemory =
     [LibraryCell (RefOwners []),
      SecretKeyRefCell \<lparr>skr_Name = ''hf-token'', skr_Key = ''token''\<rparr>,
      HuggingFaceSourceCell \<lparr>mhf_Repo = ''google/gemma-3-27b-it'', mhf_Revision = [], mhf_TokenSecretRef = Some 1\<rparr>,
      ModalitiesCell [ModalityText, ModalityImage],
      ConditionsCell [RefCondition \<lparr>c_Type = ConditionReady, c_Status = ConditionTrue,
        c_Reason = ReasonValid, c_Message = [], c_ObservedGeneration = 1\<rparr>],
      BrukModelCell
        \<lparr>mbm_TypeMeta = \<lparr>tm_APIVersion = ''bruk.airon.ai/v1alpha1'', tm_Kind = ''BrukModel''\<rparr>,
         mbm_ObjectMeta = RefMeta (zero_ObjectMeta\<lparr>om_Name := ''gemma''\<rparr>) (Some 0),
         mbm_Spec = \<lparr>mbms_Source = \<lparr>mms_HuggingFace = Some 2\<rparr>, mbms_ServedName = [],
           mbms_Catalog = \<lparr>mcat_DisplayName = ''Gemma'', mcat_Description = [], mcat_ContextLength = 131072,
             mcat_InputModalities = Some \<lparr>sl_array = 3, sl_offset = 0, sl_len = 2\<rparr>,
             mcat_OutputModalities = Some \<lparr>sl_array = 3, sl_offset = 0, sl_len = 1\<rparr>,
             mcat_Features = None, mcat_License = [], mcat_Pricing = None\<rparr>\<rparr>,
         mbm_Status = \<lparr>mbmst_ObservedGeneration = 1,
           mbmst_Conditions = Some \<lparr>sl_array = 4, sl_offset = 0, sl_len = 1\<rparr>\<rparr>\<rparr>]"

definition gatedModel :: BrukModel where
  "gatedModel =
     \<lparr>bm_Meta = zero_ObjectMeta\<lparr>om_Name := ''gemma''\<rparr>,
      bm_Spec = \<lparr>bms_Source = \<lparr>ms_HuggingFace = Some \<lparr>hf_Repo = ''google/gemma-3-27b-it'', hf_Revision = [],
           hf_TokenSecretRef = Some \<lparr>skr_Name = ''hf-token'', skr_Key = ''token''\<rparr>\<rparr>\<rparr>,
         bms_ServedName = [],
         bms_Catalog = \<lparr>cat_DisplayName = ''Gemma'', cat_Description = [], cat_ContextLength = 131072,
           cat_InputModalities = [ModalityText, ModalityImage], cat_OutputModalities = [ModalityText],
           cat_Features = [], cat_License = [], cat_Pricing = None\<rparr>\<rparr>,
      bm_Status = \<lparr>bmst_ObservedGeneration = 1,
         bmst_Conditions = [\<lparr>c_Type = ConditionReady, c_Status = ConditionTrue, c_Reason = ReasonValid,
           c_Message = [], c_ObservedGeneration = 1\<rparr>]\<rparr>\<rparr>"

definition gatedValue :: api_value where
  "gatedValue = BrukModelValue \<lparr>tm_APIVersion = ''bruk.airon.ai/v1alpha1'', tm_Kind = ''BrukModel''\<rparr> gatedModel"

lemmas model_val_defs = val_BrukModel_def val_BrukModelSpec_def val_BrukModelStatus_def val_CatalogSpec_def
  val_ModelSource_def val_HuggingFaceSource_def val_at_def val_pointer_def val_slice_def val_plain_def
  load_def elements_def

lemma gated_value: "object_value ref_library gatedMemory (BrukModelObject 5) = Some gatedValue"
  by (simp add: object_value_def model_val_defs gatedMemory_def gatedValue_def gatedModel_def
      ref_library_def untag_defs val_meta_def as_owners_def as_BrukModel_def as_HuggingFaceSource_def
      as_SecretKeyRef_def as_Modalities_def as_Conditions_def zero_ObjectMeta_def)

lemma length_gated: "length gatedMemory = 6"
  by (simp add: gatedMemory_def)

theorem deepcopy_exact_separate_witness:
  "object_value ref_library gatedMemory (BrukModelObject 5) = Some gatedValue \<and>
   (\<exists>y ext. DeepCopyObject ref_library (BrukModelObject 5) gatedMemory = Some (Some y, gatedMemory @ ext) \<and>
      object_value ref_library (gatedMemory @ ext) y = Some gatedValue \<and>
      object_reach ref_library (gatedMemory @ ext) y \<inter> {..<6} = {})"
  using deepcopy_exact_separate [OF copy_library_ref gated_value] gated_value by (simp add: length_gated)

subsection \<open>A cache and its clients\<close>

text \<open>
  The memory of the process; the cached objects, each with the value the server sent; and the
  addresses the clients may write to: what they were handed and what they allocated.
\<close>

record 'x informer =
  in_memory :: "'x cell mem"
  in_cache :: "(runtime_Object \<times> api_value) list"
  in_owned :: "addr set"

inductive informer_step :: "'x library \<Rightarrow> 'x informer \<Rightarrow> 'x informer \<Rightarrow> bool" for L :: "'x library" where
  deliver: "object_value L (in_memory s @ ext) x = Some v \<Longrightarrow>
    object_reach L (in_memory s @ ext) x \<inter> {..<length (in_memory s)} = {} \<Longrightarrow>
    set kept \<subseteq> set (in_cache s) \<Longrightarrow>
    informer_step L s (s\<lparr>in_memory := in_memory s @ ext, in_cache := (x, v) # kept\<rparr>)"
| read: "(x, v) \<in> set (in_cache s) \<Longrightarrow> DeepCopyObject L x (in_memory s) = Some (Some y, m) \<Longrightarrow>
    informer_step L s (s\<lparr>in_memory := m, in_owned := in_owned s \<union> object_reach L m y\<rparr>)"
| allocate: "informer_step L s (s\<lparr>in_memory := in_memory s @ [c],
    in_owned := insert (length (in_memory s)) (in_owned s)\<rparr>)"
| overwrite: "a \<in> in_owned s \<Longrightarrow> informer_step L s (s\<lparr>in_memory := (in_memory s)[a := c]\<rparr>)"

inductive informer_run :: "'x library \<Rightarrow> 'x informer \<Rightarrow> bool" for L :: "'x library" where
  start: "informer_run L \<lparr>in_memory = [], in_cache = [], in_owned = {}\<rparr>"
| step: "informer_run L s \<Longrightarrow> informer_step L s s' \<Longrightarrow> informer_run L s'"

definition cache_intact :: "'x library \<Rightarrow> 'x informer \<Rightarrow> bool" where
  "cache_intact L s \<longleftrightarrow>
     in_owned s \<subseteq> {..<length (in_memory s)} \<and>
     (\<forall>(x, v) \<in> set (in_cache s).
        object_value L (in_memory s) x = Some v \<and> object_reach L (in_memory s) x \<inter> in_owned s = {})"

lemma cache_intact_step:
  assumes "copy_library L" and "cache_intact L s" and "informer_step L s s'"
  shows "cache_intact L s'"
proof -
  have own: "in_owned s \<subseteq> {..<length (in_memory s)}" using assms(2) by (simp add: cache_intact_def)
  have cached: "object_value L (in_memory s) x = Some v" "object_reach L (in_memory s) x \<inter> in_owned s = {}"
    if "(x, v) \<in> set (in_cache s)" for x v using assms(2) that by (auto simp: cache_intact_def)
  note below = object_bounded [OF assms(1) cached(1)]
  note grown = object_extend [OF assms(1) cached(1)]
  from assms(3) show ?thesis
  proof cases
    case (deliver ext x v kept)
    with own cached grown show ?thesis by (fastforce simp: cache_intact_def)
  next
    case (read x v y m)
    from deepcopy_object [OF assms(1) cached(1) [OF read(2)]] read(3)
    obtain ext where m: "m = in_memory s @ ext" and fresh: "object_value L m y = Some v"
      "object_reach L m y \<inter> {..<length (in_memory s)} = {}" by auto
    have "object_reach L m y \<subseteq> {..<length m}" using object_bounded [OF assms(1) fresh(1)] by blast
    with read(1) m fresh(2) own cached grown below show ?thesis by (fastforce simp: cache_intact_def)
  next
    case (allocate c)
    with own cached grown below show ?thesis by (fastforce simp: cache_intact_def)
  next
    case (overwrite a c)
    have "agree (in_memory s) (in_memory s') (object_reach L (in_memory s) x)"
      if "(x, v) \<in> set (in_cache s)" for x v
      unfolding overwrite(1) using cached(2) [OF that] below [OF that] overwrite(2)
      by (auto intro!: agree_store)
    from object_frame [OF assms(1) cached(1) this] cached(2) own overwrite(1) show ?thesis
      by (fastforce simp: cache_intact_def)
  qed
qed

text \<open>C9: A reconciler cannot corrupt the cache. Whatever sequence of deliveries, reads, allocations
  and writes is made, where a client writes anything at all to any cell of the copies it was handed
  or has allocated, every cached object keeps the value the server sent; so the next read of it
  gives that value again.\<close>

theorem cache_never_corrupted:
  assumes "copy_library L" and "informer_run L s" and "(x, v) \<in> set (in_cache s)"
  shows "object_value L (in_memory s) x = Some v \<and>
    (\<exists>y m. DeepCopyObject L x (in_memory s) = Some (Some y, m) \<and> object_value L m y = Some v)"
proof -
  have "cache_intact L s"
    using assms(2)
  proof induction
    case start
    show ?case by (simp add: cache_intact_def)
  next
    case (step s s')
    then show ?case using cache_intact_step [OF assms(1)] by blast
  qed
  with assms(3) have v: "object_value L (in_memory s) x = Some v" by (auto simp: cache_intact_def)
  then show ?thesis using deepcopy_object [OF assms(1)] by blast
qed

text \<open>The gated model is delivered and read, and the client wipes the object it was handed.\<close>

theorem cache_never_corrupted_witness:
  "\<exists>s b. informer_run ref_library s \<and> in_cache s = [(BrukModelObject 5, gatedValue)] \<and>
    b \<in> in_owned s \<and> b < length (in_memory s) \<and> in_memory s ! b = Zeroed \<and>
    object_value ref_library (in_memory s) (BrukModelObject 5) = Some gatedValue"
proof -
  let ?x = "BrukModelObject 5" and ?L = ref_library
  let ?s1 = "\<lparr>in_memory = gatedMemory, in_cache = [(?x, gatedValue)], in_owned = {}\<rparr>"
  have "informer_step ?L \<lparr>in_memory = [], in_cache = [], in_owned = {}\<rparr> ?s1"
    using informer_step.deliver [of ?L "\<lparr>in_memory = [], in_cache = [], in_owned = {}\<rparr>" gatedMemory ?x gatedValue "[]"]
      gated_value by simp
  then have run1: "informer_run ?L ?s1" by (rule informer_run.step [OF informer_run.start])
  from deepcopy_object [OF copy_library_ref gated_value] obtain y ext where
    y: "DeepCopyObject ?L ?x gatedMemory = Some (Some y, gatedMemory @ ext)"
    "object_value ?L (gatedMemory @ ext) y = Some gatedValue" by blast
  then obtain b where b: "y = BrukModelObject b"
    by (cases y) (auto simp: object_value_def gatedValue_def split: prod.splits)
  then have reach: "b \<in> object_reach ?L (gatedMemory @ ext) y"
    by (simp add: object_reach_def reach_at_def reach_pointer_def)
  let ?s2 = "?s1\<lparr>in_memory := gatedMemory @ ext, in_owned := object_reach ?L (gatedMemory @ ext) y\<rparr>"
  let ?s3 = "?s2\<lparr>in_memory := (gatedMemory @ ext)[b := Zeroed]\<rparr>"
  have "informer_step ?L ?s1 ?s2" using informer_step.read [of ?x gatedValue ?s1 ?L y] y(1) by simp
  with run1 have run2: "informer_run ?L ?s2" by (rule informer_run.step)
  have "informer_step ?L ?s2 ?s3" using informer_step.overwrite [of b ?s2 ?L Zeroed] reach by simp
  with run2 have run3: "informer_run ?L ?s3" by (rule informer_run.step)
  have "b < length (gatedMemory @ ext)" by (rule object_bounded [OF copy_library_ref y(2) reach])
  with cache_never_corrupted [OF copy_library_ref run3] run3 reach show ?thesis
    by (intro exI [of _ ?s3] exI [of _ b]) simp
qed

end
