(* ===== verification/TestUtils.thy ===== *)
theory TestUtils
  imports Render
begin

text \<open>
  The helpers of the end-to-end tests, \<open>test/utils/utils.go\<close>: editing a file, reading the output
  of a command, and the commands that install what the tests need. The operating system is the
  parameter \<open>host\<close>; what is written to the test's log has no effect on the rest and is left out, as are the
  error branches after a write to a \<open>bytes.Buffer\<close>, whose error "is always nil".
\<close>

subsection \<open>Package \<open>strings\<close> and \<open>bufio.Scanner\<close>\<close>

definition newline :: char where "newline = CHR 0x0A"
definition carriage_return :: char where "carriage_return = CHR 0x0D"

text \<open>\<open>strings.Index\<close>: where the substring occurs first.\<close>

fun strings_Index :: "string \<Rightarrow> string \<Rightarrow> nat option" where
  "strings_Index [] sub = (if sub = [] then Some 0 else None)"
| "strings_Index (c # s) sub =
     (if take (length sub) (c # s) = sub then Some 0 else map_option Suc (strings_Index s sub))"

definition strings_Contains :: "string \<Rightarrow> string \<Rightarrow> bool" where
  "strings_Contains s sub \<longleftrightarrow> strings_Index s sub \<noteq> None"

definition strings_TrimPrefix :: "string \<Rightarrow> string \<Rightarrow> string" where
  "strings_TrimPrefix s pre = (if take (length pre) s = pre then drop (length pre) s else s)"

text \<open>\<open>strings.Join\<close>.\<close>

fun strings_Join :: "string list \<Rightarrow> string \<Rightarrow> string" where
  "strings_Join [] sep = []"
| "strings_Join [s] sep = s"
| "strings_Join (s # ss) sep = s @ sep @ strings_Join ss sep"

text \<open>\<open>strings.ReplaceAll\<close> of a substring that is not empty.\<close>

function strings_ReplaceAll :: "string \<Rightarrow> string \<Rightarrow> string \<Rightarrow> string" where
  "strings_ReplaceAll [] old new = []"
| "strings_ReplaceAll (c # s) old new =
     (if take (length old) (c # s) = old then new @ strings_ReplaceAll (drop (length old - 1) s) old new
      else c # strings_ReplaceAll s old new)"
  by pat_completeness auto
termination by (relation "measure (\<lambda>(s, _, _). length s)") auto

text \<open>\<open>strings.Split\<close> at line breaks.\<close>

fun split_newline :: "string \<Rightarrow> string list" where
  "split_newline [] = [ [] ]"
| "split_newline (c # s) =
     (if c = newline then [] # split_newline s
      else (case split_newline s of [] \<Rightarrow> [ [c] ] | l # ls \<Rightarrow> (c # l) # ls))"

text \<open>
  The lines a \<open>bufio.Scanner\<close> gives: without their ends, \<open>\n\<close> or \<open>\r\n\<close>, and no line for what follows
  the last end if there is nothing. It stops at a line that does not fit its buffer.
\<close>

definition MaxScanTokenSize :: nat where "MaxScanTokenSize = 64 * 1024"

definition dropCR :: "string \<Rightarrow> string" where
  "dropCR l = (if l \<noteq> [] \<and> last l = carriage_return then butlast l else l)"

definition scan_lines :: "string \<Rightarrow> string list" where
  "scan_lines s =
     (let ls = split_newline s; ls = (if last ls = [] then butlast ls else ls)
      in map dropCR (takeWhile (\<lambda>l. length l < MaxScanTokenSize) ls))"

subsection \<open>The operating system\<close>

text \<open>A command is run in a directory; its output and its error, if any.\<close>

record 'w host =
  h_readFile :: "string \<Rightarrow> 'w \<Rightarrow> (GoError + string) \<times> 'w"
  h_writeFile :: "string \<Rightarrow> string \<Rightarrow> 'w \<Rightarrow> GoError option \<times> 'w"
  h_getwd :: "'w \<Rightarrow> (string \<times> GoError option) \<times> 'w"
  h_chdir :: "string \<Rightarrow> 'w \<Rightarrow> GoError option \<times> 'w"
  h_combinedOutput :: "string \<Rightarrow> string list \<Rightarrow> 'w \<Rightarrow> (string \<times> GoError option) \<times> 'w"
  h_lookupEnv :: "string \<Rightarrow> 'w \<Rightarrow> string option \<times> 'w"

subsection \<open>Commands\<close>

definition GetProjectDir :: "'w host \<Rightarrow> ('w, string \<times> GoError option) state" where
  "GetProjectDir h = do {
     (wd, err) \<leftarrow> State (h_getwd h);
     State_Monad.return
       (case err of
          Some e \<Rightarrow> (wd, Some (Wrapf ''failed to get current working directory: '' e))
        | None \<Rightarrow> (strings_ReplaceAll wd ''/test/e2e'' [], None))
   }"

text \<open>An error of \<open>GetProjectDir\<close> is ignored, one of \<open>os.Chdir\<close> only logged.\<close>

definition Run :: "'w host \<Rightarrow> string list \<Rightarrow> ('w, string \<times> GoError option) state" where
  "Run h args = do {
     (dir, _) \<leftarrow> GetProjectDir h;
     _ \<leftarrow> State (h_chdir h dir);
     (output, err) \<leftarrow> State (h_combinedOutput h dir args);
     State_Monad.return
       (output, map_option
          (Wrapf (fmt_q (strings_Join args '' '') @ '' failed with error '' @ fmt_q output @ '': '')) err)
   }"

definition certmanagerURL :: string where
  "certmanagerURL = ''https://github.com/cert-manager/cert-manager/releases/download/'' @ ''v1.20.2'' @ ''/cert-manager.yaml''"

definition kubeSystemLeases :: "string list" where
  "kubeSystemLeases = [''cert-manager-cainjector-leader-election'', ''cert-manager-controller'']"

text \<open>Errors are only warned about.\<close>

primrec deleteLeases :: "'w host \<Rightarrow> string list \<Rightarrow> ('w, unit) state" where
  "deleteLeases h [] = State_Monad.return ()"
| "deleteLeases h (lease # leases) = do {
     _ \<leftarrow> Run h [''kubectl'', ''delete'', ''lease'', lease, ''-n'', ''kube-system'', ''--ignore-not-found'',
        ''--force'', ''--grace-period=0''];
     deleteLeases h leases
   }"

definition UninstallCertManager :: "'w host \<Rightarrow> ('w, unit) state" where
  "UninstallCertManager h = do {
     _ \<leftarrow> Run h [''kubectl'', ''delete'', ''-f'', certmanagerURL];
     deleteLeases h kubeSystemLeases
   }"

definition InstallCertManager :: "'w host \<Rightarrow> ('w, GoError option) state" where
  "InstallCertManager h = do {
     (_, err) \<leftarrow> Run h [''kubectl'', ''apply'', ''-f'', certmanagerURL];
     case err of
       Some e \<Rightarrow> State_Monad.return (Some e)
     | None \<Rightarrow> do {
         (_, err) \<leftarrow> Run h [''kubectl'', ''wait'', ''deployment.apps/cert-manager-webhook'', ''--for'',
            ''condition=Available'', ''--namespace'', ''cert-manager'', ''--timeout'', ''5m''];
         State_Monad.return err
       }
   }"

definition GetNonEmptyLines :: "string \<Rightarrow> string list" where
  "GetNonEmptyLines output = filter (\<lambda>element. element \<noteq> []) (split_newline output)"

definition certManagerCRDs :: "string list" where
  "certManagerCRDs =
     [''certificates.cert-manager.io'', ''issuers.cert-manager.io'', ''clusterissuers.cert-manager.io'',
      ''certificaterequests.cert-manager.io'', ''orders.acme.cert-manager.io'', ''challenges.acme.cert-manager.io'']"

definition IsCertManagerCRDsInstalled :: "'w host \<Rightarrow> ('w, bool) state" where
  "IsCertManagerCRDsInstalled h = do {
     (output, err) \<leftarrow> Run h [''kubectl'', ''get'', ''crds''];
     State_Monad.return
       (err = None \<and>
        list_ex (\<lambda>crd. list_ex (\<lambda>line. strings_Contains line crd) (GetNonEmptyLines output)) certManagerCRDs)
   }"

definition LoadImageToKindClusterWithName :: "'w host \<Rightarrow> string \<Rightarrow> ('w, GoError option) state" where
  "LoadImageToKindClusterWithName h name = do {
     v \<leftarrow> State (h_lookupEnv h ''KIND_CLUSTER'');
     b \<leftarrow> State (h_lookupEnv h ''KIND'');
     (_, err) \<leftarrow> Run h
       [case b of Some v \<Rightarrow> v | None \<Rightarrow> ''kind'', ''load'', ''docker-image'', name, ''--name'',
        case v of Some v \<Rightarrow> v | None \<Rightarrow> ''kind''];
     State_Monad.return err
   }"

subsection \<open>\<open>UncommentCode\<close>\<close>

text \<open>The loop over the lines, entered with the first one scanned.\<close>

fun uncommented :: "string \<Rightarrow> string list \<Rightarrow> string" where
  "uncommented prefix [] = []"
| "uncommented prefix [l] = strings_TrimPrefix l prefix"
| "uncommented prefix (l # ls) = strings_TrimPrefix l prefix @ newline # uncommented prefix ls"

definition UncommentCode :: "'w host \<Rightarrow> string \<Rightarrow> string \<Rightarrow> string \<Rightarrow> ('w, GoError option) state" where
  "UncommentCode h filename target prefix = do {
     r \<leftarrow> State (h_readFile h filename);
     case r of
       Inl err \<Rightarrow> State_Monad.return (Some (Wrapf (''failed to read file '' @ fmt_q filename @ '': '') err))
     | Inr content \<Rightarrow>
         (case strings_Index content target of
            None \<Rightarrow> State_Monad.return
              (Some (Errorf (''unable to find the code '' @ fmt_q target @ '' to be uncommented'')))
          | Some idx \<Rightarrow>
              (case scan_lines target of
                 [] \<Rightarrow> State_Monad.return None
               | ls \<Rightarrow> do {
                   err \<leftarrow> State (h_writeFile h filename
                     (take idx content @ uncommented prefix ls @ drop (idx + length target) content));
                   State_Monad.return (map_option (Wrapf (''failed to write file '' @ fmt_q filename @ '': '')) err)
                 }))
   }"

subsection \<open>Lines are split, and joined again\<close>

lemma split_newline_append: "newline \<notin> set l \<Longrightarrow> split_newline (l @ newline # s) = l # split_newline s"
  by (induction l) auto

lemma split_newline_one: "newline \<notin> set l \<Longrightarrow> split_newline l = [l]"
  by (induction l) auto

lemma split_newline_Join:
  assumes "ls \<noteq> []" and "\<forall>l \<in> set ls. newline \<notin> set l"
  shows "split_newline (strings_Join ls [newline]) = ls" "split_newline (strings_Join ls [newline] @ [newline]) = ls @ [ [] ]"
  using assms
  by (induction ls "[newline]" rule: strings_Join.induct)
    (simp_all add: split_newline_append split_newline_one)

lemma split_newline_lines: "l \<in> set (split_newline s) \<Longrightarrow> newline \<notin> set l"
  by (induction s arbitrary: l) (auto split: if_splits list.splits)

lemma Join_split_newline: "strings_Join (split_newline s) [newline] = s"
proof (induction s)
  case (Cons c s)
  show ?case
  proof (cases "split_newline s")
    case Nil
    then show ?thesis by (cases s) (auto split: if_splits list.splits)
  next
    case (Cons l ls)
    with Cons.IH show ?thesis by (cases ls) auto
  qed
qed simp

text \<open>The lines a test gets of a command's output are those that are not empty, in order.\<close>

lemma GetNonEmptyLines_Join:
  "ls \<noteq> [] \<Longrightarrow> \<forall>l \<in> set ls. newline \<notin> set l \<Longrightarrow>
    GetNonEmptyLines (strings_Join ls [newline]) = filter (\<lambda>l. l \<noteq> []) ls"
  by (simp add: GetNonEmptyLines_def split_newline_Join)

subsection \<open>Uncommenting undoes commenting\<close>

lemma scanned:
  assumes "ls \<noteq> []" and "last ls \<noteq> []" and "end \<in> {[], [newline]}"
    and "\<forall>l \<in> set ls. newline \<notin> set l \<and> length l < MaxScanTokenSize \<and> dropCR l = l"
  shows "scan_lines (strings_Join ls [newline] @ end) = ls"
proof -
  have fits: "takeWhile (\<lambda>l. length l < MaxScanTokenSize) ls = ls" using assms(4) by (simp add: takeWhile_eq_all_conv)
  have "map dropCR ls = ls" using assms(4) by (simp add: map_idI)
  moreover have "scan_lines (strings_Join ls [newline] @ end) = map dropCR (takeWhile (\<lambda>l. length l < MaxScanTokenSize) ls)"
    using assms split_newline_Join [of ls] by (auto simp: scan_lines_def Let_def)
  ultimately show ?thesis by (simp only: fits)
qed

lemma uncommented_lines: "uncommented prefix (map ((@) prefix) ls) = strings_Join ls [newline]"
  by (induction ls "[newline]" rule: strings_Join.induct) (simp_all add: strings_TrimPrefix_def)

text \<open>C39: Uncommenting undoes commenting. If the target is a block of lines, each behind the prefix, that
  the file contains, first at this place, then what the file contains afterwards has the lines without
  the prefix there and is the same around it. A line break at the end of the target is lost: the block's
  last line and the one after it become one. Lines end in \<open>\n\<close> and fit the scanner's buffer.\<close>

theorem uncomment_inverts:
  assumes "ls \<noteq> []" and "prefix @ last ls \<noteq> []" and "end \<in> {[], [newline]}"
    and "\<forall>l \<in> set ls. newline \<notin> set (prefix @ l) \<and> length (prefix @ l) < MaxScanTokenSize \<and> dropCR (prefix @ l) = prefix @ l"
    and "target = strings_Join (map ((@) prefix) ls) [newline] @ end"
    and "h_readFile h filename w = (Inr (before @ target @ after), w1)"
    and "strings_Index (before @ target @ after) target = Some (length before)"
    and "h_writeFile h filename (before @ strings_Join ls [newline] @ after) w1 = (None, w2)"
  shows "run_state (UncommentCode h filename target prefix) w = (None, w2)"
proof -
  have lines: "scan_lines target = map ((@) prefix) ls"
    unfolding assms(5) using assms(1-4) by (intro scanned) (auto simp: last_map)
  obtain l ls' where "map ((@) prefix) ls = l # ls'" using assms(1) by (cases ls) auto
  with lines uncommented_lines [of prefix ls] assms(6-8) show ?thesis by (simp add: UncommentCode_def)
qed

text \<open>A host that has files only, and the files that a test of the default Kustomization would have.\<close>

definition file_host :: "(string \<Rightarrow> string option) host" where
  "file_host =
     \<lparr>h_readFile = (\<lambda>f w. (case w f of None \<Rightarrow> Inl (Errorf ''no such file'') | Some s \<Rightarrow> Inr s, w)),
      h_writeFile = (\<lambda>f s w. (None, w(f \<mapsto> s))),
      h_getwd = (\<lambda>w. ((''/operator/test/e2e'', None), w)),
      h_chdir = (\<lambda>_ w. (None, w)),
      h_combinedOutput = (\<lambda>_ _ w. (([], Some (Errorf ''no such command'')), w)),
      h_lookupEnv = (\<lambda>_ w. (None, w))\<rparr>"

definition kustomization :: "string \<Rightarrow> string option" where
  "kustomization = [''kustomization.yaml'' \<mapsto> ''x'' @ newline # ''#- a'' @ newline # ''#- b'' @ newline # ''y'']"

theorem uncomment_inverts_witness:
  "run_state (UncommentCode file_host ''kustomization.yaml'' (''#- a'' @ newline # ''#- b'' @ [newline]) ''#'') kustomization
    = (None, kustomization(''kustomization.yaml'' \<mapsto> ''x'' @ newline # ''- a'' @ newline # ''- b'' @ ''y''))"
  by (rule uncomment_inverts [of "[''- a'', ''- b'']" "''#''" "[newline]" _ _ _ _ "''x'' @ [newline]" "''y''" kustomization])
    (simp_all add: file_host_def kustomization_def newline_def dropCR_def carriage_return_def MaxScanTokenSize_def)

end
