(* ===== verification/Spec2Isabelle.thy ===== *)
theory Spec2Isabelle
  imports CommandLine Scheme Names Outcome Lagging OwnedPods CacheCopies TestUtils
begin

text \<open>
  Verification of the Bruk operator (\<open>operator/\<close>, Go): the Kubernetes operator that turns an
  \<open>InferenceService\<close> into a confidential vLLM workload.

  The program. Three reconcilers run in one manager (\<open>cmd/main.go\<close>). \<open>BrukTenant\<close> (one per
  cluster) carries the initdata blob and the default image; its reconciler validates the blob
  (\<open>bruktenant_controller.go\<close>). \<open>BrukModel\<close> names a Hugging Face source and, for gated models, a
  token secret; its reconciler checks that the secret is there (\<open>brukmodel_controller.go\<close>).
  \<open>InferenceService\<close> refers to a model; its reconciler (\<open>inferenceservice_controller.go\<close>) reads
  the tenant and the model, checks the spec, enforces one workload per trusted-store claim,
  renders the workload with the pure functions of \<open>internal/render\<close>, applies it and writes the
  status. The reconcilers share no memory; they interact through the API server and the watches, and read
  objects as deep copies (\<open>zz_generated.deepcopy.go\<close>) of the informers' cache.

  How the code is modelled. Go structs are records with a prefix per struct, in the theories
  \<open>KubeTypes\<close> (Kubernetes objects, the fields the program touches) and \<open>ApiTypes\<close>
  (\<open>api/v1alpha1\<close>); \<open>Admission\<close> has the validation markers as predicates. Pointers are
  options, machine integers words, strings lists of bytes, maps partial functions, a call that
  returns a value and an error is a sum. A nil dereference is a value of the result:
  \<open>None\<close> in the renderer (\<open>Render\<close>), \<open>Panicked\<close> in a reconciler. What the program uses of Go's
  standard library is defined: \<open>fmt\<close> verbs (\<open>GoFmt\<close>), base64 with its error offsets
  (\<open>Base64\<close>), SHA-256 and hexadecimal (\<open>Sha256\<close>). controller-runtime, apimachinery and the API
  server are the parameter \<open>kube\<close> (theory \<open>Client\<close>): a client call takes an arbitrary world
  and gives an arbitrary response and world, so a theorem without a hypothesis about it covers
  every failure and every interference between two calls. A run records the calls it makes;
  theorems about effects speak of that list. What the program relies on in the libraries is
  stated as locales (\<open>not_found\<close>, \<open>status_conditions\<close>, \<open>instants\<close>, \<open>controller_references\<close>,
  \<open>deployment_server\<close>, \<open>snapshot_server\<close>, \<open>pod_view\<close>), each interpreted on the reference server of \<open>ApiServer\<close>, or one derived from it, on which the
  witnesses run the program (\<open>Scenarios\<close>); likewise \<open>owner_handler\<close> (requests for the owner of a
  changed child), \<open>copy_library\<close> (deep copies of the libraries' types) and \<open>scheme_registry\<close> (a
  scheme and its builder), each with its own reference. Three more locales are contracts of the program's own
  parts: \<open>claim_order\<close> (who wins a claim), kept by \<open>precedes\<close>, \<open>reconciler\<close>, kept by all
  three reconcilers, and \<open>deep_copier\<close>, kept by every generated copy.

  Which theory models which part, and what its lemmas show.

  \<open>Render\<close>, \<open>RenderProps\<close> (\<open>internal/render/render.go\<close>): rendering is total; the rendered pod
  is confidential, has one replica, one reviewed image, exactly the claim of the service, no
  credential in its environment; its Service reaches it; its arguments lose nothing of the spec;
  the golden manifest of the production workload.

  \<open>ServiceController\<close>: \<open>Reconcile\<close> and its helpers, with the names of the Go functions;
  \<open>Reconcile\<close> itself is \<open>ReconcileISVC\<close>, split after each object it reads. \<open>ServiceRuns\<close> and
  \<open>ServiceProps\<close> give the case analysis of a complete run (gone, quiet, failed, stopped,
  unrendered, applied) on which the properties rest: no panic, a Deployment only behind the
  checks, the order of the writes. \<open>StatusProps\<close>: what a status says and that it is true of the
  workload that was applied; failures leave the workload alone. \<open>GuardProps\<close>: what the guard
  lets pass, one winner per claim, its blind spots, and the watches. \<open>Verdict\<close>: an abstract
  specification of the reconciler as a table of checks with their reasons, and the refinement:
  against a server that answers from a snapshot, the run writes what the table says, and
  what a run writes does not change the verdict of the next.
  \<open>StoreExclusion\<close>: the
  operator as a transition system with its environment, and the invariant that no two owners'
  Deployments ever mount the same claim.

  \<open>ModelController\<close>, \<open>TenantController\<close>, \<open>ContractProps\<close>: the two validating reconcilers; what
  \<open>Ready\<close> means for each, that token values are never looked at, which blobs are accepted, and
  that an error does not show the blob.

  \<open>Operator\<close>: the RBAC markers and the permissions the calls need; any sequence of requests
  stays within them. \<open>Watches\<close>: \<open>SetupWithManager\<close> of the three controllers, the requests a
  change leads to, exactly which changes re-queue a service, and one that does not.
  \<open>Convergence\<close>: on the reference server, a run repeated where it has ended changes nothing.
  \<open>Settling\<close>: what a run writes is a plan, a verdict to apply is never taken back, and so the operator as a whole comes to
  rest after one pass more over its objects than there are services. \<open>Queues\<close>: the manager with
  its work queues, driven by the events of the watches, and that the queues drain. \<open>Freshness\<close>: what holds of an object from one run to the next, and what an
  object that no request was raised for can be out of date about. \<open>Outcome\<close>: an operator that is
  left alone brings every service to what the table of \<open>Verdict\<close> says of the cluster it has found.
  \<open>Caches\<close>: the client that reads from the informers' cache and writes to the server, which
  refuses a status computed from an object that has changed since; a run decides in the cache and
  carries out on the server. \<open>Lagging\<close>: the operator on informers that lag, as a transition
  system over server, cache, unheard events and queues; its invariant, that an idle object is
  current and Ready true, when the claims of the stores stay exclusive, and a history in which
  they do not.
  \<open>OwnedPods\<close>: the operator behaves alike whatever pods with an owner there are.
  \<open>Manager\<close> (\<open>cmd/main.go\<close>): options from flags, the start sequence and its
  failure exits. \<open>CommandLine\<close>: the flags as package \<open>flag\<close> reads them; what is printed is read
  back, and an insecure setting has been asked for. \<open>Scheme\<close> (\<open>groupversion_info.go\<close>, the \<open>init\<close>
  functions): every kind the program handles is registered, whatever the order of the files.

  \<open>Admission\<close>, \<open>Names\<close>: the validation markers and the rules on names; what the renderer makes of
  an admitted object, for which names its Service is valid, and what happens for the others.

  \<open>TestUtils\<close> (\<open>test/utils/utils.go\<close>): the helpers of the end-to-end tests; uncommenting a block
  undoes commenting it, but loses a line break at its end.

  \<open>Memory\<close>: a store of cells for Go values that share memory, with the copy steps the generator
  emits and their laws. \<open>DeepCopy\<close>: every function of \<open>zz_generated.deepcopy.go\<close> over it.
  \<open>DeepCopyProps\<close>: for each type the value an object denotes and the cells it reaches, and that
  its copy has the same value and shares no cell. \<open>CacheCopies\<close>: the copies of the six root
  objects, and that a program which changes only copies never corrupts the cache.

  Bounds and termination. That reconciling ends is a theorem of \<open>Settling\<close> for passes over all
  objects and of \<open>Queues\<close> for queued requests; the measure is lexicographic: services not at rest,
  requests that would change something, requests queued. Every function of the model is total: the loops of the program are
  over finite lists and are structural recursions, but for the reading of the command line, which
  may skip an argument and ends because the arguments get fewer (\<open>parse_flags\<close>); there is no fuel. Runs are finite and end in a
  result, so a theorem about a run is also a statement that it ends.

  Simplifications. A reconcile runs alone (controller-runtime runs one per controller), but
  others act between its calls; in \<open>Queues\<close> to \<open>Lagging\<close> they act between reconciles. In \<open>StoreExclusion\<close> a list of
  Deployments is current when it is answered, and in \<open>Queues\<close>, \<open>Freshness\<close> and \<open>Outcome\<close> a
  reconcile sees the cluster as it is; the informers' cache, which may be stale, is in \<open>Caches\<close> and
  \<open>Lagging\<close>, where an object stands for its resource version. \<open>LastTransitionTime\<close> of a condition and
  the log are left out. Not modelled: the tests themselves, and the
  YAML, shell and Python files around the operator, which hold no Go code. What the map leaves out of the
  Go files is licences, imports, the markers of the code generators and blank lines.
\<close>

end
